(* ===== verification/Py_Prelude.thy ===== *)
theory Py_Prelude
  imports Main "HOL-Library.Sublist" "HOL-Library.Monad_Syntax" "HOL-Library.List_Lexorder"
    "HOL-Library.Char_ord"
begin

text \<open>
  The part of the Python runtime that tools/scripts/cpplint.py and cli/cli.py rest on: the
  methods of str, slices, and the general lemmas the component theories share.

  Text is a \<^typ>\<open>string\<close>, one \<^typ>\<open>char\<close> per code point, so the model covers the code
  points below 256.  Positions are \<^typ>\<open>int\<close>, as in Python, where \<open>find\<close> answers
  \<open>-1\<close>.  A computation that can end in an uncaught exception has type \<open>'a option\<close>, and
  \<open>None\<close> is the exception.

  The collection \<open>py_simps\<close> holds the definitions and equations that evaluate these methods.
\<close>

named_theorems py_simps

abbreviation dq :: char where "dq \<equiv> CHR 0x22"
abbreviation sq :: char where "sq \<equiv> CHR 0x27"
abbreviation bs :: char where "bs \<equiv> CHR 0x5C"
abbreviation nl :: char where "nl \<equiv> CHR 0x0A"
abbreviation cr :: char where "cr \<equiv> CHR 0x0D"
abbreviation tab :: char where "tab \<equiv> CHR 0x09"

subsection \<open>Character classes\<close>

definition ord :: "char \<Rightarrow> nat" where
  "ord c = of_char c"

text \<open>The space characters of a byte string, and of the \<open>re\<close> class of the same name.\<close>

definition is_ws :: "char \<Rightarrow> bool" where
  [py_simps]: "is_ws c = (c \<in> set [CHR '' '', tab, nl, CHR 0x0B, CHR 0x0C, cr])"

text \<open>The space characters of a unicode string (\<open>unicode.isspace\<close>) below 256.\<close>

definition is_uws :: "char \<Rightarrow> bool" where
  [py_simps]: "is_uws c = (is_ws c \<or>
     c \<in> set [CHR 0x1C, CHR 0x1D, CHR 0x1E, CHR 0x1F, CHR 0x85, CHR 0xA0])"

definition is_digit :: "char \<Rightarrow> bool" where
  [py_simps]: "is_digit c = (48 \<le> ord c \<and> ord c \<le> 57)"

definition is_lower :: "char \<Rightarrow> bool" where
  [py_simps]: "is_lower c = (97 \<le> ord c \<and> ord c \<le> 122)"

definition is_upper :: "char \<Rightarrow> bool" where
  [py_simps]: "is_upper c = (65 \<le> ord c \<and> ord c \<le> 90)"

definition is_word :: "char \<Rightarrow> bool" where
  [py_simps]: "is_word c = (is_lower c \<or> is_upper c \<or> is_digit c \<or> c = CHR ''_'')"

text \<open>\<open>str.upper\<close> and \<open>str.lower\<close> on bytes; \<open>unicode.lower\<close> below 256.\<close>

definition upper_char :: "char \<Rightarrow> char" where
  [py_simps]: "upper_char c = (if is_lower c then char_of (ord c - 32) else c)"

definition lower_char :: "char \<Rightarrow> char" where
  [py_simps]: "lower_char c = (if is_upper c then char_of (ord c + 32) else c)"

definition ulower_char :: "char \<Rightarrow> char" where
  [py_simps]: "ulower_char c =
     (if is_upper c \<or> (192 \<le> ord c \<and> ord c \<le> 222 \<and> ord c \<noteq> 215) then char_of (ord c + 32) else c)"

definition py_upper :: "string \<Rightarrow> string" where
  [py_simps]: "py_upper s = map upper_char s"

definition py_lower :: "string \<Rightarrow> string" where
  [py_simps]: "py_lower s = map ulower_char s"

subsection \<open>Slices and indexing\<close>

text \<open>\<open>s[i:]\<close>, \<open>s[:j]\<close>, \<open>s[i:j]\<close> with Python's treatment of negative and large bounds.\<close>

definition clip :: "'a list \<Rightarrow> int \<Rightarrow> nat" where
  [py_simps]: "clip s i = (if i < 0 then nat (int (length s) + i) else min (nat i) (length s))"

definition slice_from :: "'a list \<Rightarrow> int \<Rightarrow> 'a list" where
  [py_simps]: "slice_from s i = drop (clip s i) s"

definition slice_to :: "'a list \<Rightarrow> int \<Rightarrow> 'a list" where
  [py_simps]: "slice_to s j = take (clip s j) s"

definition slice :: "'a list \<Rightarrow> int \<Rightarrow> int \<Rightarrow> 'a list" where
  [py_simps]: "slice s i j = drop (clip s i) (take (clip s j) s)"

text \<open>\<open>s[i]\<close>; \<open>None\<close> is IndexError.\<close>

definition py_index :: "'a list \<Rightarrow> int \<Rightarrow> 'a option" where
  [py_simps]: "py_index s i =
     (let j = (if i < 0 then int (length s) + i else i)
      in if 0 \<le> j \<and> j < int (length s) then Some (s ! nat j) else None)"

subsection \<open>Searching\<close>

definition startswith :: "string \<Rightarrow> string \<Rightarrow> bool" where
  [py_simps]: "startswith s p = (take (length p) s = p)"

definition endswith :: "string \<Rightarrow> string \<Rightarrow> bool" where
  [py_simps]: "endswith s p = (length p \<le> length s \<and> drop (length s - length p) s = p)"

fun find_at :: "nat \<Rightarrow> string \<Rightarrow> string \<Rightarrow> int" where
  "find_at i sub [] = (if sub = [] then int i else -1)"
| "find_at i sub (c # s) = (if startswith (c # s) sub then int i else find_at (Suc i) sub s)"

definition py_find :: "string \<Rightarrow> string \<Rightarrow> int" where
  [py_simps]: "py_find s sub = find_at 0 sub s"

definition py_find_from :: "string \<Rightarrow> string \<Rightarrow> nat \<Rightarrow> int" where
  [py_simps]: "py_find_from s sub k = (if k \<le> length s then find_at k sub (drop k s) else -1)"

text \<open>\<open>s.rfind(c)\<close> for a one-character argument, the only way the program uses it.\<close>

fun rfind_at :: "nat \<Rightarrow> char \<Rightarrow> string \<Rightarrow> int \<Rightarrow> int" where
  "rfind_at i c [] r = r"
| "rfind_at i c (x # s) r = rfind_at (Suc i) c s (if x = c then int i else r)"

definition py_rfind :: "string \<Rightarrow> char \<Rightarrow> int" where
  [py_simps]: "py_rfind s c = rfind_at 0 c s (-1)"

text \<open>\<open>sub in s\<close>\<close>

definition contains :: "string \<Rightarrow> string \<Rightarrow> bool" where
  [py_simps]: "contains sub s = (py_find s sub \<ge> 0)"

text \<open>
  \<open>s.count(sub)\<close> and \<open>s.replace(old, new)\<close>: leftmost, not overlapping.  The program calls
  them with a non-empty argument; the empty one is written out as Python has it.
\<close>

fun py_count :: "string \<Rightarrow> string \<Rightarrow> nat" where
  "py_count sub [] = (if sub = [] then 1 else 0)"
| "py_count sub (c # s) =
     (if sub = [] then Suc (py_count sub s)
      else if startswith (c # s) sub then Suc (py_count sub (drop (length sub - 1) s))
      else py_count sub s)"

fun py_replace :: "string \<Rightarrow> string \<Rightarrow> string \<Rightarrow> string" where
  "py_replace old new [] = (if old = [] then new else [])"
| "py_replace old new (c # s) =
     (if old = [] then new @ c # py_replace old new s
      else if startswith (c # s) old then new @ py_replace old new (drop (length old - 1) s)
      else c # py_replace old new s)"

subsection \<open>Stripping, splitting, joining\<close>

definition lstrip_by :: "(char \<Rightarrow> bool) \<Rightarrow> string \<Rightarrow> string" where
  [py_simps]: "lstrip_by p s = dropWhile p s"

definition rstrip_by :: "(char \<Rightarrow> bool) \<Rightarrow> string \<Rightarrow> string" where
  [py_simps]: "rstrip_by p s = rev (dropWhile p (rev s))"

definition strip_by :: "(char \<Rightarrow> bool) \<Rightarrow> string \<Rightarrow> string" where
  [py_simps]: "strip_by p s = rstrip_by p (lstrip_by p s)"

text \<open>\<open>strip\<close> of a byte string (file names, options) and of a unicode string (source lines).\<close>

definition strip :: "string \<Rightarrow> string" where
  [py_simps]: "strip s = strip_by is_ws s"

definition ustrip :: "string \<Rightarrow> string" where
  [py_simps]: "ustrip s = strip_by is_uws s"

definition urstrip :: "string \<Rightarrow> string" where
  [py_simps]: "urstrip s = rstrip_by is_uws s"

definition ulstrip :: "string \<Rightarrow> string" where
  [py_simps]: "ulstrip s = lstrip_by is_uws s"

text \<open>\<open>s.split(sep)\<close> for a one-character separator.\<close>

fun split_char :: "char \<Rightarrow> string \<Rightarrow> string list" where
  "split_char sep [] = [[]]"
| "split_char sep (c # s) =
     (if c = sep then [] # split_char sep s
      else (case split_char sep s of [] \<Rightarrow> [[c]] | w # ws \<Rightarrow> (c # w) # ws))"

text \<open>\<open>s.split()\<close>: the maximal runs without a space.\<close>

function split_ws :: "(char \<Rightarrow> bool) \<Rightarrow> string \<Rightarrow> string list" where
  "split_ws p [] = []"
| "split_ws p (c # s) =
     (if p c then split_ws p s
      else (c # takeWhile (\<lambda>x. \<not> p x) s) # split_ws p (dropWhile (\<lambda>x. \<not> p x) s))"
  by pat_completeness auto
termination
  by (relation "measure (\<lambda>(p, s). length s)") (auto simp: le_imp_less_Suc length_dropWhile_le)

text \<open>\<open>sep.join(parts)\<close>\<close>

fun py_join :: "string \<Rightarrow> string list \<Rightarrow> string" where
  "py_join sep [] = []"
| "py_join sep [w] = w"
| "py_join sep (w # v # ws) = w @ sep @ py_join sep (v # ws)"

text \<open>\<open>unicode.isspace\<close> is false on the empty string.\<close>

definition py_isspace :: "string \<Rightarrow> bool" where
  [py_simps]: "py_isspace s = (s \<noteq> [] \<and> list_all is_uws s)"

text \<open>\<open>str(n)\<close> of an integer, for the messages.\<close>

fun digits :: "nat \<Rightarrow> string" where
  "digits n = (if n < 10 then [char_of (48 + n)] else digits (n div 10) @ [char_of (48 + n mod 10)])"

declare digits.simps [simp del]

definition py_str :: "int \<Rightarrow> string" where
  "py_str i = (if i < 0 then CHR ''-'' # digits (nat (- i)) else digits (nat i))"

subsection \<open>Lemmas: searching\<close>

lemma startswith_iff: "startswith s p \<longleftrightarrow> (\<exists>t. s = p @ t)"
  by (metis append_eq_conv_conj append_take_drop_id startswith_def)

lemma startswith_append [simp]: "startswith (p @ t) p"
  by (auto simp: startswith_iff)

lemma startswith_Nil [simp]: "startswith s []"
  by (simp add: startswith_def)

lemma Nil_startswith [simp]: "startswith [] p \<longleftrightarrow> p = []"
  by (auto simp: startswith_iff)

lemma startswith_Cons [simp]: "startswith (c # s) (d # p) \<longleftrightarrow> c = d \<and> startswith s p"
  by (auto simp: startswith_def)

lemma endswith_iff: "endswith s p \<longleftrightarrow> (\<exists>t. s = t @ p)"
proof
  assume "endswith s p"
  then have "s = take (length s - length p) s @ p"
    by (metis append_take_drop_id endswith_def)
  then show "\<exists>t. s = t @ p" ..
qed (auto simp: endswith_def)

lemma find_at_range: "find_at i sub s = -1 \<or> int i \<le> find_at i sub s"
  by (induction i sub s rule: find_at.induct) auto

lemma find_at_minus:
  "find_at i sub s = -1 \<longleftrightarrow> (\<forall>u v. s = u @ v \<longrightarrow> \<not> startswith v sub)"
proof (induction i sub s rule: find_at.induct)
  case (2 i sub c s)
  have "(\<forall>u v. c # s = u @ v \<longrightarrow> \<not> startswith v sub) \<longleftrightarrow>
      \<not> startswith (c # s) sub \<and> (\<forall>u v. s = u @ v \<longrightarrow> \<not> startswith v sub)"
    by (auto simp: Cons_eq_append_conv)
  then show ?case using 2 by auto
qed auto

lemma find_at_split:
  "find_at i sub s = int (i + k) \<longleftrightarrow>
     (\<exists>u v. s = u @ v \<and> length u = k \<and> startswith v sub \<and>
        (\<forall>u' v'. s = u' @ v' \<and> length u' < k \<longrightarrow> \<not> startswith v' sub))"
proof (induction i sub s arbitrary: k rule: find_at.induct)
  case (1 i sub)
  then show ?case by auto
next
  case (2 i sub c s)
  show ?case
  proof (cases "startswith (c # s) sub")
    case True
    then show ?thesis by (cases k) (auto intro: exI [of _ "[]"])
  next
    case nostart: False
    show ?thesis
    proof (cases k)
      case 0
      then show ?thesis using nostart find_at_range [of "Suc i" sub s] by auto
    next
      case (Suc j)
      have "find_at i sub (c # s) = int (i + k) \<longleftrightarrow> find_at (Suc i) sub s = int (Suc i + j)"
        using nostart Suc by simp
      also have "\<dots> \<longleftrightarrow> (\<exists>u v. s = u @ v \<and> length u = j \<and> startswith v sub \<and>
          (\<forall>u' v'. s = u' @ v' \<and> length u' < j \<longrightarrow> \<not> startswith v' sub))"
        using 2 nostart by blast
      also have "\<dots> \<longleftrightarrow> (\<exists>u v. c # s = u @ v \<and> length u = k \<and> startswith v sub \<and>
          (\<forall>u' v'. c # s = u' @ v' \<and> length u' < k \<longrightarrow> \<not> startswith v' sub))"
        (is "?L \<longleftrightarrow> ?R")
      proof
        assume ?L
        then obtain u v where *: "s = u @ v" "length u = j" "startswith v sub"
          "\<forall>u' v'. s = u' @ v' \<and> length u' < j \<longrightarrow> \<not> startswith v' sub" by auto
        have "\<not> startswith v' sub" if "c # s = u' @ v'" "length u' < k" for u' v'
          using that *(4) nostart Suc by (cases u') auto
        then show ?R using * Suc by (intro exI [of _ "c # u"] exI [of _ v]) auto
      next
        assume ?R
        then obtain u v where *: "c # s = u @ v" "length u = k" "startswith v sub"
          "\<forall>u' v'. c # s = u' @ v' \<and> length u' < k \<longrightarrow> \<not> startswith v' sub" by auto
        obtain u1 where u: "u = c # u1" "s = u1 @ v" using *(1,2) Suc by (cases u) auto
        have "\<not> startswith v' sub" if "s = u' @ v'" "length u' < j" for u' v'
          using *(4) that Suc by (metis append_Cons length_Cons Suc_less_eq)
        then show ?L using * u Suc by auto
      qed
      finally show ?thesis .
    qed
  qed
qed

lemma py_find_split:
  "py_find s sub = int k \<longleftrightarrow>
     (\<exists>u v. s = u @ v \<and> length u = k \<and> startswith v sub \<and>
        (\<forall>u' v'. s = u' @ v' \<and> length u' < k \<longrightarrow> \<not> startswith v' sub))"
  using find_at_split [of 0 sub s k] by (simp add: py_find_def)

lemma py_find_occurs:
  assumes "py_find s sub \<ge> 0"
  obtains u v where "s = u @ sub @ v" "py_find s sub = int (length u)"
proof -
  obtain k where k: "py_find s sub = int k" using assms nonneg_int_cases by blast
  then obtain u v where "s = u @ v" "length u = k" "startswith v sub"
    unfolding py_find_split by blast
  then show ?thesis using that k by (auto simp: startswith_iff)
qed

lemma py_find_minus: "py_find s sub = -1 \<longleftrightarrow> (\<forall>u v. s = u @ v \<longrightarrow> \<not> startswith v sub)"
  by (simp add: py_find_def find_at_minus)

lemma py_find_range: "py_find s sub = -1 \<or> 0 \<le> py_find s sub"
  using find_at_range [of 0 sub s] by (simp add: py_find_def)

lemma contains_iff: "contains sub s \<longleftrightarrow> (\<exists>u v. s = u @ sub @ v)"
proof -
  have "contains sub s \<longleftrightarrow> py_find s sub \<noteq> -1"
    using py_find_range [of s sub] by (auto simp: contains_def)
  then show ?thesis by (auto simp: py_find_minus startswith_iff)
qed

subsection \<open>Lemmas: counting, replacing, splitting\<close>

lemma py_count_char: "py_count [c] s = count_list s c"
  by (induction s) auto

lemma py_replace_none: "old \<noteq> [] \<Longrightarrow> \<not> contains old s \<Longrightarrow> py_replace old new s = s"
proof (induction s)
  case (Cons c s)
  have "\<not> startswith (c # s) old"
    using Cons.prems by (auto simp: contains_iff startswith_iff) (metis append_Nil)
  moreover have "\<not> contains old s"
    using Cons.prems unfolding contains_iff by (metis append_Cons)
  ultimately show ?case using Cons by simp
qed simp

lemma split_char_nonempty [simp]: "split_char sep s \<noteq> []"
  by (induction s) (auto split: list.splits)

lemma split_char_join: "py_join [sep] (split_char sep s) = s"
proof (induction s)
  case (Cons c s)
  obtain w ws where w: "split_char sep s = w # ws"
    using split_char_nonempty [of sep s] by (cases "split_char sep s") auto
  then show ?case using Cons by (cases ws) auto
qed simp

lemma split_char_no_sep: "w \<in> set (split_char sep s) \<Longrightarrow> sep \<notin> set w"
proof (induction s arbitrary: w)
  case (Cons c s)
  then show ?case
    using split_char_nonempty [of sep s] by (cases "split_char sep s") (auto split: if_splits)
qed simp

subsection \<open>Lemmas: slices\<close>

lemma slice_inner: "slice (a # w @ [b]) 1 (-1) = w"
proof -
  have "nat (1 + int (length w)) = Suc (length w)" by simp
  then show ?thesis by (simp add: slice_def clip_def)
qed

lemma slice_from_nat [simp]: "slice_from s (int n) = drop n s"
  by (simp add: slice_from_def clip_def min_def)

lemma slice_to_nat [simp]: "slice_to s (int n) = take n s"
  by (simp add: slice_to_def clip_def min_def)

lemma py_index_nat: "py_index s (int n) = (if n < length s then Some (s ! n) else None)"
  by (simp add: py_index_def Let_def)

lemma word_not_space: "is_word c \<Longrightarrow> \<not> is_uws c"
  by (auto simp: is_uws_def is_ws_def is_word_def is_lower_def is_upper_def is_digit_def ord_def)

subsection \<open>Sequences of steps that may raise\<close>

text \<open>
  The contract of an operation that is repeated: every step that returns keeps an invariant, and
  leaves a part of the state as it was.  A sequence of steps, which ends at the first one that
  raises, then does the same.
\<close>

locale state_steps =
  fixes step :: "'a \<Rightarrow> 's \<Rightarrow> 's option"
    and inv :: "'s \<Rightarrow> bool"
    and view :: "'s \<Rightarrow> 'v"
  assumes step_inv: "inv s \<Longrightarrow> step a s = Some s' \<Longrightarrow> inv s'"
    and step_view: "step a s = Some s' \<Longrightarrow> view s' = view s"
begin

primrec run_steps :: "'a list \<Rightarrow> 's \<Rightarrow> 's option" where
  "run_steps [] s = Some s"
| "run_steps (a # as) s = (case step a s of None \<Rightarrow> None | Some s' \<Rightarrow> run_steps as s')"

lemma run_steps_inv: "run_steps as s = Some s' \<Longrightarrow> inv s \<Longrightarrow> inv s'"
  by (induction as arbitrary: s) (auto intro: step_inv split: option.splits)

lemma run_steps_view: "run_steps as s = Some s' \<Longrightarrow> view s' = view s"
  by (induction as arbitrary: s) (auto dest: step_view split: option.splits)

end

end
