(* ===== verification/Regex.thy ===== *)
theory Regex
  imports Py_Prelude
begin

text \<open>
  Python's \<open>re\<close> as the linter uses it: the syntax tree of a compiled pattern, the backtracking
  matcher \<open>bt\<close> that \<open>sre\<close> runs, and the entry points \<open>Match\<close>, \<open>Search\<close>, \<open>ReplaceAll\<close>,
  \<open>findall\<close>, \<open>finditer\<close> of cpplint.py.

  The reference semantics is \<open>rx_all\<close>: the list of all ways to match, in the order in which a
  backtracking matcher tries them.  The lemmas of the other theories are about \<open>rx_all\<close>; the
  matcher is tied to it by \<open>bt_first\<close>, and \<open>rx_all\<close> in turn to the declarative relation
  \<open>rmatch\<close>, which knows no order.
\<close>

named_theorems rx_simps

subsection \<open>Syntax trees\<close>

datatype citem = CI char | CR char char | CSpace | CNSpace | CWord | CNWord | CDigit

datatype cset = CPos "citem list" | CNeg "citem list"

fun in_item :: "citem \<Rightarrow> char \<Rightarrow> bool" where
  "in_item (CI a) c = (c = a)"
| "in_item (CR a b) c = (ord a \<le> ord c \<and> ord c \<le> ord b)"
| "in_item CSpace c = is_ws c"
| "in_item CNSpace c = (\<not> is_ws c)"
| "in_item CWord c = is_word c"
| "in_item CNWord c = (\<not> is_word c)"
| "in_item CDigit c = is_digit c"

fun in_cset :: "cset \<Rightarrow> char \<Rightarrow> bool" where
  "in_cset (CPos is) c = list_ex (\<lambda>i. in_item i c) is"
| "in_cset (CNeg is) c = (\<not> list_ex (\<lambda>i. in_item i c) is)"

text \<open>
  \<open>RStar\<close> is \<open>*\<close>, \<open>RLazy\<close> is \<open>*?\<close>; \<open>RBol\<close> and \<open>REol\<close> are \<open>^\<close> and \<open>$\<close> without the
  multi-line flag; \<open>RWordB\<close> is the word boundary; \<open>RLook\<close> and \<open>RNLook\<close> are the two
  lookaheads; \<open>RGrp n\<close> is the capturing group number n and \<open>RRef n\<close> a back reference to it.
\<close>

datatype rx =
    REps
  | RLit string
  | RSet cset
  | RSeq rx rx
  | RAlt rx rx
  | RStar rx
  | RLazy rx
  | RBol
  | REol
  | RWordB
  | RLook rx
  | RNLook rx
  | RGrp nat rx
  | RRef nat

text \<open>Derived forms: \<open>.\<close>, \<open>[...]\<close>, \<open>[^...]\<close>, \<open>r?\<close>, \<open>r+\<close>, \<open>r{n}\<close>, \<open>r{0,n}\<close>.\<close>

abbreviation RAny :: rx where "RAny \<equiv> RSet (CNeg [CI nl])"
abbreviation RIn :: "citem list \<Rightarrow> rx" where "RIn is \<equiv> RSet (CPos is)"
abbreviation RNotIn :: "citem list \<Rightarrow> rx" where "RNotIn is \<equiv> RSet (CNeg is)"
abbreviation RSp :: rx where "RSp \<equiv> RSet (CPos [CSpace])"
abbreviation RNSp :: rx where "RNSp \<equiv> RSet (CPos [CNSpace])"
abbreviation RWd :: rx where "RWd \<equiv> RSet (CPos [CWord])"
abbreviation ROpt :: "rx \<Rightarrow> rx" where "ROpt r \<equiv> RAlt r REps"
abbreviation RPlus :: "rx \<Rightarrow> rx" where "RPlus r \<equiv> RSeq r (RStar r)"
abbreviation RLazyPlus :: "rx \<Rightarrow> rx" where "RLazyPlus r \<equiv> RSeq r (RLazy r)"

fun RTimes :: "nat \<Rightarrow> rx \<Rightarrow> rx" where
  "RTimes 0 r = REps"
| "RTimes (Suc n) r = RSeq r (RTimes n r)"

fun RUpTo :: "nat \<Rightarrow> rx \<Rightarrow> rx" where
  "RUpTo 0 r = REps"
| "RUpTo (Suc n) r = RAlt (RSeq r (RUpTo n r)) REps"

fun rseq :: "rx list \<Rightarrow> rx" where
  "rseq [] = REps"
| "rseq [r] = r"
| "rseq (r # s # rs) = RSeq r (rseq (s # rs))"

fun ralt :: "rx list \<Rightarrow> rx" where
  "ralt [] = REps"
| "ralt [r] = r"
| "ralt (r # s # rs) = RAlt r (ralt (s # rs))"

subsection \<open>Matcher states\<close>

text \<open>
  A state is the text before the position (reversed), the text from the position on, and the
  captures so far, latest first: group number, start offset, text.
\<close>

type_synonym caps = "(nat \<times> nat \<times> string) list"
type_synonym rstate = "string \<times> string \<times> caps"

abbreviation st_pre :: "rstate \<Rightarrow> string" where "st_pre st \<equiv> fst st"
abbreviation st_post :: "rstate \<Rightarrow> string" where "st_post st \<equiv> fst (snd st)"
abbreviation st_caps :: "rstate \<Rightarrow> caps" where "st_caps st \<equiv> snd (snd st)"

fun lit_step :: "string \<Rightarrow> rstate \<Rightarrow> rstate list" where
  "lit_step w (pre, post, cs) =
     (if startswith post w then [(rev w @ pre, drop (length w) post, cs)] else [])"

fun set_step :: "(char \<Rightarrow> bool) \<Rightarrow> rstate \<Rightarrow> rstate list" where
  "set_step p (pre, [], cs) = []"
| "set_step p (pre, c # post, cs) = (if p c then [(c # pre, post, cs)] else [])"

fun at_bol :: "rstate \<Rightarrow> bool" where
  "at_bol (pre, post, cs) = (pre = [])"

fun at_eol :: "rstate \<Rightarrow> bool" where
  "at_eol (pre, post, cs) = (post = [] \<or> post = [nl])"

definition head_word :: "string \<Rightarrow> bool" where
  "head_word s = (case s of [] \<Rightarrow> False | c # _ \<Rightarrow> is_word c)"

fun at_wordb :: "rstate \<Rightarrow> bool" where
  "at_wordb (pre, post, cs) = (head_word pre \<noteq> head_word post)"

text \<open>Closing group n: the captured text is what lies between the two positions.\<close>

fun close_grp :: "nat \<Rightarrow> rstate \<Rightarrow> rstate \<Rightarrow> rstate" where
  "close_grp n (pre0, post0, cs0) (pre, post, cs) =
     (pre, post, (n, length pre0, take (length post0 - length post) post0) # cs)"

fun ref_step :: "nat \<Rightarrow> rstate \<Rightarrow> rstate list" where
  "ref_step n (pre, post, cs) =
     (case map_of cs n of None \<Rightarrow> [] | Some (_, w) \<Rightarrow> lit_step w (pre, post, cs))"

definition moved :: "rstate \<Rightarrow> rstate \<Rightarrow> bool" where
  "moved st st' = (length (st_post st') \<noteq> length (st_post st))"

subsection \<open>Reference semantics: all matches in order of preference\<close>

primrec star_all :: "(rstate \<Rightarrow> rstate list) \<Rightarrow> nat \<Rightarrow> rstate \<Rightarrow> rstate list" where
  "star_all f 0 st = [st]"
| "star_all f (Suc n) st =
     concat (map (\<lambda>st'. if moved st st' then star_all f n st' else [st']) (f st)) @ [st]"

primrec lazy_all :: "(rstate \<Rightarrow> rstate list) \<Rightarrow> nat \<Rightarrow> rstate \<Rightarrow> rstate list" where
  "lazy_all f 0 st = [st]"
| "lazy_all f (Suc n) st =
     st # concat (map (\<lambda>st'. if moved st st' then lazy_all f n st' else []) (f st))"

primrec rx_all :: "rx \<Rightarrow> rstate \<Rightarrow> rstate list" where
  "rx_all REps st = [st]"
| "rx_all (RLit w) st = lit_step w st"
| "rx_all (RSet s) st = set_step (in_cset s) st"
| "rx_all (RSeq r1 r2) st = concat (map (rx_all r2) (rx_all r1 st))"
| "rx_all (RAlt r1 r2) st = rx_all r1 st @ rx_all r2 st"
| "rx_all (RStar r) st = star_all (rx_all r) (Suc (length (st_post st))) st"
| "rx_all (RLazy r) st = lazy_all (rx_all r) (Suc (length (st_post st))) st"
| "rx_all RBol st = (if at_bol st then [st] else [])"
| "rx_all REol st = (if at_eol st then [st] else [])"
| "rx_all RWordB st = (if at_wordb st then [st] else [])"
| "rx_all (RLook r) st =
     (case rx_all r st of [] \<Rightarrow> [] | st' # _ \<Rightarrow> [(st_pre st, st_post st, st_caps st')])"
| "rx_all (RNLook r) st = (case rx_all r st of [] \<Rightarrow> [st] | _ \<Rightarrow> [])"
| "rx_all (RGrp n r) st = map (close_grp n st) (rx_all r st)"
| "rx_all (RRef n) st = ref_step n st"

subsection \<open>The backtracking matcher\<close>

text \<open>
  \<open>bt r k st\<close> matches r at st and goes on with k; when k fails it backtracks into r.
\<close>

fun or_else :: "'a option \<Rightarrow> 'a option \<Rightarrow> 'a option" where
  "or_else (Some x) y = Some x"
| "or_else None y = y"

fun try_list :: "(rstate \<Rightarrow> rstate option) \<Rightarrow> rstate list \<Rightarrow> rstate option" where
  "try_list k [] = None"
| "try_list k (st # sts) = (case k st of Some x \<Rightarrow> Some x | None \<Rightarrow> try_list k sts)"

type_synonym cont = "rstate \<Rightarrow> rstate option"

primrec bt_star :: "(cont \<Rightarrow> cont) \<Rightarrow> nat \<Rightarrow> cont \<Rightarrow> cont" where
  "bt_star g 0 k st = k st"
| "bt_star g (Suc n) k st =
     (case g (\<lambda>st'. if moved st st' then bt_star g n k st' else k st') st of
        Some x \<Rightarrow> Some x | None \<Rightarrow> k st)"

primrec bt_lazy :: "(cont \<Rightarrow> cont) \<Rightarrow> nat \<Rightarrow> cont \<Rightarrow> cont" where
  "bt_lazy g 0 k st = k st"
| "bt_lazy g (Suc n) k st =
     (case k st of
        Some x \<Rightarrow> Some x
      | None \<Rightarrow> g (\<lambda>st'. if moved st st' then bt_lazy g n k st' else None) st)"

primrec bt :: "rx \<Rightarrow> cont \<Rightarrow> cont" where
  "bt REps k st = k st"
| "bt (RLit w) k st = try_list k (lit_step w st)"
| "bt (RSet s) k st = try_list k (set_step (in_cset s) st)"
| "bt (RSeq r1 r2) k st = bt r1 (bt r2 k) st"
| "bt (RAlt r1 r2) k st = (case bt r1 k st of Some x \<Rightarrow> Some x | None \<Rightarrow> bt r2 k st)"
| "bt (RStar r) k st = bt_star (bt r) (Suc (length (st_post st))) k st"
| "bt (RLazy r) k st = bt_lazy (bt r) (Suc (length (st_post st))) k st"
| "bt RBol k st = (if at_bol st then k st else None)"
| "bt REol k st = (if at_eol st then k st else None)"
| "bt RWordB k st = (if at_wordb st then k st else None)"
| "bt (RLook r) k st =
     (case bt r Some st of None \<Rightarrow> None | Some st' \<Rightarrow> k (st_pre st, st_post st, st_caps st'))"
| "bt (RNLook r) k st = (case bt r Some st of None \<Rightarrow> k st | Some _ \<Rightarrow> None)"
| "bt (RGrp n r) k st = bt r (\<lambda>st'. k (close_grp n st st')) st"
| "bt (RRef n) k st = try_list k (ref_step n st)"

subsection \<open>The matcher returns the first of all matches\<close>

lemma try_list_append [simp]:
  "try_list k (xs @ ys) = (case try_list k xs of Some x \<Rightarrow> Some x | None \<Rightarrow> try_list k ys)"
  by (induction xs) (auto split: option.split)

lemma try_list_concat:
  "try_list k (concat (map f xs)) = try_list (\<lambda>x. try_list k (f x)) xs"
  by (induction xs) (auto split: option.split)

lemma try_list_map: "try_list k (map f xs) = try_list (\<lambda>x. k (f x)) xs"
  by (induction xs) (auto split: option.split)

lemma try_list_Some: "try_list Some xs = (case xs of [] \<Rightarrow> None | x # _ \<Rightarrow> Some x)"
  by (cases xs) auto

lemma bt_star_first:
  assumes "\<And>k st. g k st = try_list k (f st)"
  shows "bt_star g n k st = try_list k (star_all f n st)"
proof (induction n arbitrary: k st)
  case 0
  show ?case by (auto split: option.split)
next
  case (Suc n)
  have "(\<lambda>st'. if moved st st' then bt_star g n k st' else k st') =
        (\<lambda>st'. try_list k (if moved st st' then star_all f n st' else [st']))"
    by (auto simp: Suc.IH fun_eq_iff split: option.split)
  then show ?case
    unfolding bt_star.simps star_all.simps
    by (simp only: assms try_list_append try_list_concat try_list.simps) (simp split: option.split)
qed

lemma bt_lazy_first:
  assumes "\<And>k st. g k st = try_list k (f st)"
  shows "bt_lazy g n k st = try_list k (lazy_all f n st)"
proof (induction n arbitrary: k st)
  case 0
  show ?case by (auto split: option.split)
next
  case (Suc n)
  have "(\<lambda>st'. if moved st st' then bt_lazy g n k st' else None) =
        (\<lambda>st'. try_list k (if moved st st' then lazy_all f n st' else []))"
    by (auto simp: Suc.IH fun_eq_iff split: option.split)
  then show ?case
    unfolding bt_lazy.simps lazy_all.simps
    by (simp only: assms try_list_concat try_list.simps)
qed

lemma bt_first: "bt r k st = try_list k (rx_all r st)"
proof (induction r arbitrary: k st)
  case (RSeq r1 r2)
  have "bt r2 k = (\<lambda>st'. try_list k (rx_all r2 st'))" using RSeq.IH by (simp add: fun_eq_iff)
  then show ?case using RSeq.IH by (simp add: try_list_concat)
next
  case (RStar r)
  then show ?case by (simp add: bt_star_first del: star_all.simps bt_star.simps)
next
  case (RLazy r)
  then show ?case by (simp add: bt_lazy_first del: lazy_all.simps bt_lazy.simps)
qed (auto simp: try_list_map try_list_Some split: option.split list.split)

subsection \<open>Matching moves forward through one text\<close>

text \<open>
  \<open>advance st st'\<close>: the position has moved over some text w that stands there, and the
  captures have grown at the front.
\<close>

definition advance :: "rstate \<Rightarrow> rstate \<Rightarrow> bool" where
  "advance st st' = (\<exists>w cs. st_post st = w @ st_post st' \<and> st_pre st' = rev w @ st_pre st \<and>
     st_caps st' = cs @ st_caps st)"

lemma advance_refl [simp]: "advance st st"
  by (auto simp: advance_def)

lemma advance_trans: "advance st st1 \<Longrightarrow> advance st1 st2 \<Longrightarrow> advance st st2"
  unfolding advance_def by fastforce

lemma advance_length: "advance st st' \<Longrightarrow> length (st_post st') \<le> length (st_post st)"
  by (auto simp: advance_def)

lemma lit_step_advance: "st' \<in> set (lit_step w st) \<Longrightarrow> advance st st'"
proof (cases st)
  case (fields pre post cs)
  assume "st' \<in> set (lit_step w st)"
  then have "take (length w) post = w" "st' = (rev w @ pre, drop (length w) post, cs)"
    using fields by (auto simp: startswith_def split: if_splits)
  then show ?thesis
    using fields append_take_drop_id [of "length w" post] by (simp add: advance_def)
qed

lemma set_step_advance: "st' \<in> set (set_step p st) \<Longrightarrow> advance st st'"
  by (cases "(p, st)" rule: set_step.cases) (auto simp: advance_def split: if_splits)

lemma close_grp_advance: "advance st st' \<Longrightarrow> advance st (close_grp n st st')"
  by (cases st; cases st') (auto simp: advance_def)

lemma look_advance: "advance st st' \<Longrightarrow> advance st (st_pre st, st_post st, st_caps st')"
  by (auto simp: advance_def)

lemma star_all_advance:
  assumes "\<And>st st'. st' \<in> set (f st) \<Longrightarrow> advance st st'"
  shows "st' \<in> set (star_all f n st) \<Longrightarrow> advance st st'"
  by (induction n arbitrary: st st') (auto split: if_splits dest: assms intro: advance_trans)

lemma lazy_all_advance:
  assumes "\<And>st st'. st' \<in> set (f st) \<Longrightarrow> advance st st'"
  shows "st' \<in> set (lazy_all f n st) \<Longrightarrow> advance st st'"
  by (induction n arbitrary: st st') (auto split: if_splits dest: assms intro: advance_trans)

lemma rx_all_advance: "st' \<in> set (rx_all r st) \<Longrightarrow> advance st st'"
proof (induction r arbitrary: st st')
  case (RStar r)
  then show ?case
    using star_all_advance [of "rx_all r"] by (auto simp del: star_all.simps)
next
  case (RLazy r)
  then show ?case
    using lazy_all_advance [of "rx_all r"] by (auto simp del: lazy_all.simps)
next
  case (RRef n)
  then show ?case by (cases st) (auto split: option.splits simp del: lit_step.simps dest: lit_step_advance)
next
  case (RLook r)
  show ?case
  proof (cases "rx_all r st")
    case Nil
    then show ?thesis using RLook.prems by simp
  next
    case (Cons st1 sts)
    then have "advance st st1" by (intro RLook.IH) simp
    then show ?thesis using Cons RLook.prems by (simp add: look_advance)
  qed
next
  case (RSeq r1 r2)
  from RSeq.prems obtain st1 where "st1 \<in> set (rx_all r1 st)" "st' \<in> set (rx_all r2 st1)" by auto
  then show ?case using RSeq.IH by (blast intro: advance_trans)
next
  case (RGrp n r)
  from RGrp.prems obtain st1 where "st1 \<in> set (rx_all r st)" "st' = close_grp n st st1" by auto
  then show ?case using RGrp.IH by (blast intro: close_grp_advance)
qed (auto dest: lit_step_advance set_step_advance split: if_splits list.splits)

subsection \<open>Repetition without fuel\<close>

lemma star_all_fuel:
  assumes "\<And>st st'. st' \<in> set (f st) \<Longrightarrow> advance st st'"
    and "length (st_post st) < n" and "length (st_post st) < m"
  shows "star_all f n st = star_all f m st"
  using assms(2,3)
proof (induction n arbitrary: m st)
  case 0
  then show ?case by simp
next
  case (Suc n)
  obtain m' where m: "m = Suc m'" using Suc.prems(2) by (cases m) auto
  have "star_all f n st' = star_all f m' st'" if "st' \<in> set (f st)" "moved st st'" for st'
  proof -
    have "length (st_post st') < length (st_post st)"
      using advance_length [OF assms(1) [OF that(1)]] that(2) by (simp add: moved_def)
    then show ?thesis using Suc.IH [of st' m'] Suc.prems m by simp
  qed
  then show ?case by (auto simp: m intro!: arg_cong [where f = concat] map_cong)
qed

lemma rx_all_RStar:
  "rx_all (RStar r) st =
     concat (map (\<lambda>st'. if moved st st' then rx_all (RStar r) st' else [st']) (rx_all r st)) @ [st]"
proof -
  have "star_all (rx_all r) (length (st_post st)) st' = rx_all (RStar r) st'"
    if "st' \<in> set (rx_all r st)" "moved st st'" for st'
    using advance_length [OF rx_all_advance [OF that(1)]] that(2)
    by (simp only: rx_all.simps moved_def) (rule star_all_fuel [OF rx_all_advance]; simp)
  then show ?thesis
    by (simp add: rx_all.simps(6) [of r st] del: rx_all.simps)
       (auto intro!: arg_cong [where f = concat] map_cong)
qed

declare rx_all.simps(6) [simp del]

subsection \<open>Declarative semantics\<close>

text \<open>
  \<open>rmatch r st st'\<close>: pattern r can match from st to st'.  No order of alternatives appears; a
  repetition goes on only from an iteration that has moved, which is the zero-width protection
  of \<open>sre\<close>.  The relation covers the \<open>regular\<close> patterns: no lookahead, no back reference.
\<close>

fun regular :: "rx \<Rightarrow> bool" where
  "regular (RSeq r1 r2) = (regular r1 \<and> regular r2)"
| "regular (RAlt r1 r2) = (regular r1 \<and> regular r2)"
| "regular (RStar r) = regular r"
| "regular (RLazy r) = regular r"
| "regular (RGrp n r) = regular r"
| "regular (RLook r) = False"
| "regular (RNLook r) = False"
| "regular (RRef n) = False"
| "regular _ = True"

inductive rmatch :: "rx \<Rightarrow> rstate \<Rightarrow> rstate \<Rightarrow> bool" where
  eps: "rmatch REps st st"
| lit: "rmatch (RLit w) (pre, w @ post, cs) (rev w @ pre, post, cs)"
| chr: "in_cset s c \<Longrightarrow> rmatch (RSet s) (pre, c # post, cs) (c # pre, post, cs)"
| seq: "rmatch r1 st st1 \<Longrightarrow> rmatch r2 st1 st2 \<Longrightarrow> rmatch (RSeq r1 r2) st st2"
| alt1: "rmatch r1 st st' \<Longrightarrow> rmatch (RAlt r1 r2) st st'"
| alt2: "rmatch r2 st st' \<Longrightarrow> rmatch (RAlt r1 r2) st st'"
| star_done: "rmatch (RStar r) st st"
| star_more: "rmatch r st st1 \<Longrightarrow> moved st st1 \<Longrightarrow> rmatch (RStar r) st1 st2 \<Longrightarrow> rmatch (RStar r) st st2"
| star_idle: "rmatch r st st1 \<Longrightarrow> \<not> moved st st1 \<Longrightarrow> rmatch (RStar r) st st1"
| lazy_done: "rmatch (RLazy r) st st"
| lazy_more: "rmatch r st st1 \<Longrightarrow> moved st st1 \<Longrightarrow> rmatch (RLazy r) st1 st2 \<Longrightarrow> rmatch (RLazy r) st st2"
| bol: "at_bol st \<Longrightarrow> rmatch RBol st st"
| eol: "at_eol st \<Longrightarrow> rmatch REol st st"
| wordb: "at_wordb st \<Longrightarrow> rmatch RWordB st st"
| grp: "rmatch r st st' \<Longrightarrow> rmatch (RGrp n r) st (close_grp n st st')"

inductive_cases rmatch_epsE [elim!]: "rmatch REps st st'"
inductive_cases rmatch_litE [elim!]: "rmatch (RLit w) st st'"
inductive_cases rmatch_chrE [elim!]: "rmatch (RSet s) st st'"
inductive_cases rmatch_seqE [elim!]: "rmatch (RSeq r1 r2) st st'"
inductive_cases rmatch_altE [elim!]: "rmatch (RAlt r1 r2) st st'"
inductive_cases rmatch_bolE [elim!]: "rmatch RBol st st'"
inductive_cases rmatch_eolE [elim!]: "rmatch REol st st'"
inductive_cases rmatch_wordbE [elim!]: "rmatch RWordB st st'"
inductive_cases rmatch_grpE [elim!]: "rmatch (RGrp n r) st st'"

lemma rmatch_star_induct [consumes 1, case_names stop more idle]:
  assumes "rmatch (RStar r) st st'"
    and "\<And>st. P st st"
    and "\<And>st st1 st2. rmatch r st st1 \<Longrightarrow> moved st st1 \<Longrightarrow> P st1 st2 \<Longrightarrow> P st st2"
    and "\<And>st st1. rmatch r st st1 \<Longrightarrow> \<not> moved st st1 \<Longrightarrow> P st st1"
  shows "P st st'"
  using assms(1)
  by (induction "RStar r" st st' rule: rmatch.induct) (auto intro: assms(2,3,4))

lemma rmatch_lazy_induct [consumes 1, case_names stop more]:
  assumes "rmatch (RLazy r) st st'"
    and "\<And>st. P st st"
    and "\<And>st st1 st2. rmatch r st st1 \<Longrightarrow> moved st st1 \<Longrightarrow> P st1 st2 \<Longrightarrow> P st st2"
  shows "P st st'"
  using assms(1)
  by (induction "RLazy r" st st' rule: rmatch.induct) (auto intro: assms(2,3))

lemma star_all_sound:
  assumes "\<And>st st'. st' \<in> set (f st) \<Longrightarrow> rmatch r st st'"
  shows "st' \<in> set (star_all f n st) \<Longrightarrow> rmatch (RStar r) st st'"
  by (induction n arbitrary: st)
     (auto split: if_splits dest: assms intro: rmatch.star_done rmatch.star_more rmatch.star_idle)

lemma lazy_all_sound:
  assumes "\<And>st st'. st' \<in> set (f st) \<Longrightarrow> rmatch r st st'"
  shows "st' \<in> set (lazy_all f n st) \<Longrightarrow> rmatch (RLazy r) st st'"
  by (induction n arbitrary: st)
     (auto split: if_splits dest: assms intro: rmatch.lazy_done rmatch.lazy_more)

lemma lit_step_sound: "st' \<in> set (lit_step w st) \<Longrightarrow> rmatch (RLit w) st st'"
proof (cases st)
  case (fields pre post cs)
  assume "st' \<in> set (lit_step w st)"
  then have t: "take (length w) post = w" and st': "st' = (rev w @ pre, drop (length w) post, cs)"
    using fields by (auto simp: startswith_def split: if_splits)
  have "post = w @ drop (length w) post"
    using append_take_drop_id [of "length w" post] t by simp
  then show ?thesis using fields st' rmatch.lit by metis
qed

lemma set_step_sound: "st' \<in> set (set_step (in_cset s) st) \<Longrightarrow> rmatch (RSet s) st st'"
  by (cases "(in_cset s, st)" rule: set_step.cases) (auto intro: rmatch.chr split: if_splits)

lemma rx_all_sound: "regular r \<Longrightarrow> st' \<in> set (rx_all r st) \<Longrightarrow> rmatch r st st'"
proof (induction r arbitrary: st st')
  case (RStar r)
  then show ?case
    using star_all_sound [of "rx_all r" r] by (auto simp: rx_all.simps(6) simp del: star_all.simps)
next
  case (RLazy r)
  then show ?case
    using lazy_all_sound [of "rx_all r" r] by (auto simp del: lazy_all.simps)
next
  case (RSeq r1 r2)
  from RSeq.prems obtain st1 where "st1 \<in> set (rx_all r1 st)" "st' \<in> set (rx_all r2 st1)" by auto
  moreover from RSeq.prems have "regular r1" "regular r2" by simp_all
  ultimately show ?case using RSeq.IH by (blast intro: rmatch.seq)
next
  case (RGrp n r)
  from RGrp.prems obtain st1 where "st1 \<in> set (rx_all r st)" "st' = close_grp n st st1" by auto
  with RGrp.IH RGrp.prems show ?case by (simp add: rmatch.grp)
qed (auto dest: lit_step_sound set_step_sound intro: rmatch.intros split: if_splits)

lemma lazy_all_step:
  assumes "st1 \<in> set (f st)" "moved st st1" "st2 \<in> set (lazy_all f n st1)"
  shows "st2 \<in> set (lazy_all f (Suc n) st)"
  using assms by (auto intro!: bexI [of _ st1])

lemma lazy_all_fuel:
  assumes "\<And>st st'. st' \<in> set (f st) \<Longrightarrow> advance st st'"
    and "length (st_post st) < n" and "length (st_post st) < m"
  shows "lazy_all f n st = lazy_all f m st"
  using assms(2,3)
proof (induction n arbitrary: m st)
  case 0
  then show ?case by simp
next
  case (Suc n)
  obtain m' where m: "m = Suc m'" using Suc.prems(2) by (cases m) auto
  have "lazy_all f n st' = lazy_all f m' st'" if "st' \<in> set (f st)" "moved st st'" for st'
  proof -
    have "length (st_post st') < length (st_post st)"
      using advance_length [OF assms(1) [OF that(1)]] that(2) by (simp add: moved_def)
    then show ?thesis using Suc.IH [of st' m'] Suc.prems m by simp
  qed
  then show ?case by (auto simp: m intro!: arg_cong [where f = concat] map_cong)
qed

lemma rx_all_RLazy:
  "rx_all (RLazy r) st =
     st # concat (map (\<lambda>st'. if moved st st' then rx_all (RLazy r) st' else []) (rx_all r st))"
proof -
  have "lazy_all (rx_all r) (length (st_post st)) st' = rx_all (RLazy r) st'"
    if "st' \<in> set (rx_all r st)" "moved st st'" for st'
    using advance_length [OF rx_all_advance [OF that(1)]] that(2)
    by (simp only: rx_all.simps moved_def) (rule lazy_all_fuel [OF rx_all_advance]; simp)
  then show ?thesis
    by (simp add: rx_all.simps(7) [of r st] del: rx_all.simps)
       (auto intro!: arg_cong [where f = concat] map_cong)
qed

declare rx_all.simps(7) [simp del]

lemma rx_all_complete: "rmatch r st st' \<Longrightarrow> st' \<in> set (rx_all r st)"
proof (induction rule: rmatch.induct)
  case (star_more r st st1 st2)
  then show ?case by (subst rx_all_RStar) (auto intro!: bexI [of _ st1])
next
  case (star_idle r st st1)
  then show ?case by (subst rx_all_RStar) (auto intro!: bexI [of _ st1])
next
  case (star_done r st)
  show ?case by (subst rx_all_RStar) simp
next
  case (lazy_more r st st1 st2)
  then show ?case by (subst rx_all_RLazy) (auto intro!: bexI [of _ st1])
next
  case (lazy_done r st)
  show ?case by (subst rx_all_RLazy) simp
qed (auto simp: startswith_def)

lemma rx_all_iff_rmatch: "regular r \<Longrightarrow> st' \<in> set (rx_all r st) \<longleftrightarrow> rmatch r st st'"
  using rx_all_sound rx_all_complete by blast

subsection \<open>Match objects and the entry points\<close>

record mobj =
  mo_start :: nat
  mo_text :: string
  mo_caps :: caps

definition mo_end :: "mobj \<Rightarrow> nat" where
  "mo_end m = mo_start m + length (mo_text m)"

fun mk_mobj :: "rstate \<Rightarrow> rstate \<Rightarrow> mobj" where
  "mk_mobj (pre0, post0, cs0) (pre, post, cs) =
     \<lparr>mo_start = length pre0, mo_text = take (length post0 - length post) post0, mo_caps = cs\<rparr>"

text \<open>\<open>m.group(n)\<close> (\<open>None\<close> for a group that took no part) and \<open>m.start(n)\<close>.\<close>

definition group :: "mobj \<Rightarrow> nat \<Rightarrow> string option" where
  "group m n = (if n = 0 then Some (mo_text m) else map_option snd (map_of (mo_caps m) n))"

definition group_start :: "mobj \<Rightarrow> nat \<Rightarrow> int" where
  "group_start m n = (if n = 0 then int (mo_start m)
     else (case map_of (mo_caps m) n of None \<Rightarrow> -1 | Some (b, _) \<Rightarrow> int b))"

text \<open>\<open>m.group(n)\<close> used as text, where the pattern makes the group take part in every match.\<close>

definition grp :: "mobj \<Rightarrow> nat \<Rightarrow> string" where
  "grp m n = (case group m n of None \<Rightarrow> [] | Some w \<Rightarrow> w)"

definition Match :: "rx \<Rightarrow> string \<Rightarrow> mobj option" where
  "Match r s = (case bt r Some ([], s, []) of
     None \<Rightarrow> None | Some st \<Rightarrow> Some (mk_mobj ([], s, []) st))"

fun search_at :: "rx \<Rightarrow> string \<Rightarrow> string \<Rightarrow> mobj option" where
  "search_at r pre [] = (case bt r Some (pre, [], []) of
     None \<Rightarrow> None | Some st \<Rightarrow> Some (mk_mobj (pre, [], []) st))"
| "search_at r pre (c # post) = (case bt r Some (pre, c # post, []) of
     None \<Rightarrow> search_at r (c # pre) post | Some st \<Rightarrow> Some (mk_mobj (pre, c # post, []) st))"

definition Search :: "rx \<Rightarrow> string \<Rightarrow> mobj option" where
  "Search r s = search_at r [] s"

text \<open>Most calls only ask whether there is a match.\<close>

definition matches :: "rx \<Rightarrow> string \<Rightarrow> bool" where
  "matches r s = (Match r s \<noteq> None)"

definition searches :: "rx \<Rightarrow> string \<Rightarrow> bool" where
  "searches r s = (Search r s \<noteq> None)"

text \<open>
  \<open>pattern.sub(rep, s)\<close>: the matches found from left to right, each search starting where the
  last match ended, one further after an empty match; an empty match right behind a match is
  passed over.  The fuel is the number of positions.
\<close>

fun sub_at :: "rx \<Rightarrow> (mobj \<Rightarrow> string) \<Rightarrow> nat \<Rightarrow> bool \<Rightarrow> string \<Rightarrow> string \<Rightarrow> string" where
  "sub_at r rep 0 skip pre post = post"
| "sub_at r rep (Suc n) skip pre post =
     (case search_at r pre post of
        None \<Rightarrow> post
      | Some m \<Rightarrow>
          (let k = mo_start m - length pre;
               e = k + length (mo_text m);
               pre' = rev (take e post) @ pre
           in if mo_text m = []
              then take k post @ (if k = 0 \<and> skip then [] else rep m) @
                   (case drop k post of
                      [] \<Rightarrow> []
                    | c # cs \<Rightarrow> c # sub_at r rep n False (c # pre') cs)
              else take k post @ rep m @ sub_at r rep n True pre' (drop e post)))"

definition re_sub :: "rx \<Rightarrow> (mobj \<Rightarrow> string) \<Rightarrow> string \<Rightarrow> string" where
  "re_sub r rep s = sub_at r rep (Suc (length s)) False [] s"

definition ReplaceAll :: "rx \<Rightarrow> string \<Rightarrow> string \<Rightarrow> string" where
  "ReplaceAll r rep s = re_sub r (\<lambda>_. rep) s"

text \<open>\<open>pattern.finditer(s)\<close>, and \<open>findall\<close> for a pattern with one group.\<close>

fun finditer_at :: "rx \<Rightarrow> nat \<Rightarrow> string \<Rightarrow> string \<Rightarrow> mobj list" where
  "finditer_at r 0 pre post = []"
| "finditer_at r (Suc n) pre post =
     (case search_at r pre post of
        None \<Rightarrow> []
      | Some m \<Rightarrow>
          (let e = mo_start m - length pre + length (mo_text m);
               pre' = rev (take e post) @ pre
           in m # (if mo_text m = []
                   then (case drop e post of
                           [] \<Rightarrow> [] | c # cs \<Rightarrow> finditer_at r n (c # pre') cs)
                   else finditer_at r n pre' (drop e post))))"

definition finditer :: "rx \<Rightarrow> string \<Rightarrow> mobj list" where
  "finditer r s = finditer_at r (Suc (length s)) [] s"

definition findall1 :: "rx \<Rightarrow> string \<Rightarrow> string list" where
  "findall1 r s = map (\<lambda>m. grp m 1) (finditer r s)"

subsection \<open>The entry points in terms of the reference semantics\<close>

lemma bt_Some: "bt r Some st = (case rx_all r st of [] \<Rightarrow> None | st' # _ \<Rightarrow> Some st')"
  by (simp add: bt_first try_list_Some)

lemma Match_spec:
  "Match r s = (case rx_all r ([], s, []) of
     [] \<Rightarrow> None | st # _ \<Rightarrow> Some (mk_mobj ([], s, []) st))"
  by (simp add: Match_def bt_Some split: list.split)

lemma matches_iff: "matches r s \<longleftrightarrow> rx_all r ([], s, []) \<noteq> []"
  by (simp add: matches_def Match_spec split: list.split)

lemma all_split_Cons:
  "(\<forall>u v. c # s = u @ v \<longrightarrow> P u v) \<longleftrightarrow> P [] (c # s) \<and> (\<forall>u v. s = u @ v \<longrightarrow> P (c # u) v)"
  by (metis append_Cons append_Nil append_eq_Cons_conv)

lemma search_at_None:
  "search_at r pre post = None \<longleftrightarrow>
     (\<forall>u v. post = u @ v \<longrightarrow> rx_all r (rev u @ pre, v, []) = [])"
proof (induction r pre post rule: search_at.induct)
  case (1 r pre)
  show ?case by (auto simp: bt_Some split: list.split)
next
  case (2 r pre c post)
  show ?case
  proof (cases "rx_all r (pre, c # post, [])")
    case Nil
    then have "search_at r pre (c # post) = search_at r (c # pre) post"
      by (simp add: bt_Some)
    moreover have "(\<forall>u v. c # post = u @ v \<longrightarrow> rx_all r (rev u @ pre, v, []) = []) \<longleftrightarrow>
        (\<forall>u v. post = u @ v \<longrightarrow> rx_all r (rev u @ c # pre, v, []) = [])"
      using Nil by (simp add: all_split_Cons)
    ultimately show ?thesis using 2 Nil by (simp add: bt_Some)
  next
    case (Cons st sts)
    then have "search_at r pre (c # post) \<noteq> None" by (simp add: bt_Some)
    moreover have "\<not> (\<forall>u v. c # post = u @ v \<longrightarrow> rx_all r (rev u @ pre, v, []) = [])"
      using Cons by (simp add: all_split_Cons)
    ultimately show ?thesis by blast
  qed
qed

lemma searches_iff:
  "searches r s \<longleftrightarrow> (\<exists>u v. s = u @ v \<and> rx_all r (rev u, v, []) \<noteq> [])"
  using search_at_None [of r "[]" s] by (auto simp: searches_def Search_def)

text \<open>The match that \<open>Search\<close> returns starts at the leftmost position where one exists.\<close>

lemma search_at_Some:
  "search_at r pre post = Some m \<Longrightarrow>
     \<exists>u v st sts. post = u @ v \<and> rx_all r (rev u @ pre, v, []) = st # sts \<and>
       m = mk_mobj (rev u @ pre, v, []) st \<and>
       (\<forall>u' v'. post = u' @ v' \<and> length u' < length u \<longrightarrow> rx_all r (rev u' @ pre, v', []) = [])"
proof (induction r pre post rule: search_at.induct)
  case (1 r pre)
  then show ?case by (auto simp: bt_Some split: list.splits)
next
  case (2 r pre c post)
  show ?case
  proof (cases "rx_all r (pre, c # post, [])")
    case Nil
    with 2 obtain u v st sts where *: "post = u @ v" "rx_all r (rev u @ c # pre, v, []) = st # sts"
      "m = mk_mobj (rev u @ c # pre, v, []) st"
      "\<forall>u' v'. post = u' @ v' \<and> length u' < length u \<longrightarrow> rx_all r (rev u' @ c # pre, v', []) = []"
      by (auto simp: bt_Some)
    have "rx_all r (rev u' @ pre, v', []) = []"
      if "c # post = u' @ v'" "length u' < length (c # u)" for u' v'
      using that Nil *(4) by (cases u') auto
    then show ?thesis using *(1-3) by (intro exI [of _ "c # u"] exI [of _ v]) auto
  next
    case (Cons st sts)
    then have "m = mk_mobj (pre, c # post, []) st" using 2 by (simp add: bt_Some)
    then show ?thesis using Cons by (intro exI [of _ "[]"] exI [of _ "c # post"]) auto
  qed
qed

lemma sub_at_no_match: "search_at r pre post = None \<Longrightarrow> sub_at r rep n skip pre post = post"
  by (cases n) auto

lemma re_sub_no_match: "\<not> searches r s \<Longrightarrow> re_sub r rep s = s"
  by (simp add: re_sub_def searches_def Search_def sub_at_no_match)

subsection \<open>Preferred matches\<close>

text \<open>
  \<open>first r st st'\<close>: st' is the match that a backtracking search finds.  The rules below
  compute it for a pattern against a text known in part; \<open>fails\<close> is the other outcome.
\<close>

definition first :: "rx \<Rightarrow> rstate \<Rightarrow> rstate \<Rightarrow> bool" where
  "first r st st' = (\<exists>sts. rx_all r st = st' # sts)"

definition fails :: "rx \<Rightarrow> rstate \<Rightarrow> bool" where
  "fails r st = (rx_all r st = [])"

named_theorems first_intros

lemma first_eps [first_intros]: "first REps st st"
  by (simp add: first_def)

lemma first_lit [first_intros]: "first (RLit w) (pre, w @ post, cs) (rev w @ pre, post, cs)"
  by (simp add: first_def startswith_def)

lemma first_set [first_intros]: "in_cset s c \<Longrightarrow> first (RSet s) (pre, c # post, cs) (c # pre, post, cs)"
  by (simp add: first_def)

lemma first_seq [first_intros]:
  "first r1 st st1 \<Longrightarrow> first r2 st1 st2 \<Longrightarrow> first (RSeq r1 r2) st st2"
  by (auto simp: first_def)

lemma first_alt1: "first r1 st st' \<Longrightarrow> first (RAlt r1 r2) st st'"
  by (auto simp: first_def)

lemma first_alt2: "fails r1 st \<Longrightarrow> first r2 st st' \<Longrightarrow> first (RAlt r1 r2) st st'"
  by (auto simp: first_def fails_def)

lemma first_grp [first_intros]: "first r st st' \<Longrightarrow> first (RGrp n r) st (close_grp n st st')"
  by (auto simp: first_def)

lemma first_bol [first_intros]: "first RBol ([], post, cs) ([], post, cs)"
  by (simp add: first_def)

lemma first_eol [first_intros]: "first REol (pre, [], cs) (pre, [], cs)"
  by (simp add: first_def)

lemma first_wordb: "at_wordb st \<Longrightarrow> first RWordB st st"
  by (simp add: first_def)

lemma fails_lit: "\<not> startswith post w \<Longrightarrow> fails (RLit w) (pre, post, cs)"
  by (simp add: fails_def)

lemma fails_seq1: "fails r1 st \<Longrightarrow> fails (RSeq r1 r2) st"
  by (simp add: fails_def)

lemma fails_wordb_seq: "fails r st \<Longrightarrow> fails (RSeq RWordB r) st"
  by (simp add: fails_def)

lemma fails_bol_seq: "fails r st \<Longrightarrow> fails (RSeq RBol r) st"
  by (simp add: fails_def)

lemma fails_grp: "fails r st \<Longrightarrow> fails (RGrp n r) st"
  by (simp add: fails_def)

lemma fails_alt: "fails r1 st \<Longrightarrow> fails r2 st \<Longrightarrow> fails (RAlt r1 r2) st"
  by (simp add: fails_def)

lemma first_not_fails: "first r st st' \<Longrightarrow> \<not> fails r st"
  by (auto simp: first_def fails_def)

lemma fails_or_first: "fails r st \<or> (\<exists>st'. first r st st')"
  by (cases "rx_all r st") (auto simp: first_def fails_def)

lemma rx_all_star_set:
  "rx_all (RStar (RSet s)) (pre, post, cs) =
     map (\<lambda>k. (rev (take k post) @ pre, drop k post, cs))
       (rev [0..<Suc (length (takeWhile (in_cset s) post))])"
proof (induction post arbitrary: pre)
  case Nil
  show ?case by (subst rx_all_RStar) simp
next
  case (Cons c post)
  show ?case
  proof (cases "in_cset s c")
    case False
    then show ?thesis by (subst rx_all_RStar) simp
  next
    case True
    have "rx_all (RStar (RSet s)) (pre, c # post, cs) =
        rx_all (RStar (RSet s)) (c # pre, post, cs) @ [(pre, c # post, cs)]"
      using True by (subst rx_all_RStar) (simp add: moved_def)
    also have "\<dots> = map (\<lambda>k. (rev (take k post) @ c # pre, drop k post, cs))
        (rev [0..<Suc (length (takeWhile (in_cset s) post))]) @ [(pre, c # post, cs)]"
      by (simp only: Cons.IH)
    also have "\<dots> = map (\<lambda>k. (rev (take k (c # post)) @ pre, drop k (c # post), cs))
        (map Suc (rev [0..<Suc (length (takeWhile (in_cset s) post))]) @ [0])"
      by (simp add: comp_def)
    also have "map Suc (rev [0..<Suc (length (takeWhile (in_cset s) post))]) @ [0] =
        rev [0..<Suc (length (takeWhile (in_cset s) (c # post)))]"
      using True by (simp add: rev_map [symmetric] map_Suc_upt upt_conv_Cons del: upt_Suc)
    finally show ?thesis .
  qed
qed

lemma first_star_set:
  assumes "list_all (in_cset s) w" and "post = [] \<or> \<not> in_cset s (hd post)"
  shows "first (RStar (RSet s)) (pre, w @ post, cs) (rev w @ pre, post, cs)"
proof -
  have "takeWhile (in_cset s) (w @ post) = w"
    using assms by (cases post) (auto simp: list_all_iff takeWhile_append2)
  then show ?thesis by (simp add: first_def rx_all_star_set)
qed

lemma first_plus_set:
  assumes "list_all (in_cset s) w" and "w \<noteq> []" and "post = [] \<or> \<not> in_cset s (hd post)"
  shows "first (RPlus (RSet s)) (pre, w @ post, cs) (rev w @ pre, post, cs)"
proof -
  obtain c w' where w: "w = c # w'" using assms(2) by (cases w) auto
  have "first (RStar (RSet s)) (c # pre, w' @ post, cs) (rev w' @ c # pre, post, cs)"
    using assms w by (intro first_star_set) auto
  then show ?thesis
    using first_seq [OF first_set [of s c pre "w' @ post" cs]] assms(1) w by simp
qed

lemma Match_first: "first r ([], s, []) st \<Longrightarrow> Match r s = Some (mk_mobj ([], s, []) st)"
  by (auto simp: Match_spec first_def)

lemma Match_fails: "fails r ([], s, []) \<Longrightarrow> Match r s = None"
  by (simp add: Match_spec fails_def)

lemma Search_first:
  assumes "s = u @ v" and "first r (rev u, v, []) st"
    and "\<And>u' v'. s = u' @ v' \<Longrightarrow> length u' < length u \<Longrightarrow> fails r (rev u', v', [])"
  shows "Search r s = Some (mk_mobj (rev u, v, []) st)"
proof -
  have "\<not> fails r (rev u, v, [])" using assms(2) by (rule first_not_fails)
  then have "search_at r [] s \<noteq> None"
    using assms(1) by (auto simp: search_at_None fails_def)
  then obtain m where m: "search_at r [] s = Some m" by auto
  from search_at_Some [OF m] obtain u1 v1 st1 sts where *: "s = u1 @ v1"
    "rx_all r (rev u1, v1, []) = st1 # sts" "m = mk_mobj (rev u1, v1, []) st1"
    "\<forall>u' v'. s = u' @ v' \<and> length u' < length u1 \<longrightarrow> rx_all r (rev u', v', []) = []"
    by auto
  have "\<not> length u1 < length u" using assms(3) [OF *(1)] *(2) by (auto simp: fails_def)
  moreover have "\<not> length u < length u1"
    using *(4) assms(1,2) by (auto simp: first_def)
  ultimately have "length u1 = length u" by simp
  then have "u1 = u" "v1 = v" using *(1) assms(1) by auto
  then show ?thesis using m *(2,3) assms(2) by (auto simp: Search_def first_def)
qed


subsection \<open>Reading off the groups of a match\<close>

text \<open>
  What is known of the text and the captures of any match of a pattern.  \<open>capless\<close> patterns
  have no group, so that they only move the position.
\<close>

fun capless :: "rx \<Rightarrow> bool" where
  "capless (RSeq r1 r2) = (capless r1 \<and> capless r2)"
| "capless (RAlt r1 r2) = (capless r1 \<and> capless r2)"
| "capless (RStar r) = capless r"
| "capless (RLazy r) = capless r"
| "capless (RLook r) = capless r"
| "capless (RGrp n r) = False"
| "capless _ = True"

lemma capless_star:
  assumes "\<And>st st'. st' \<in> set (f st) \<Longrightarrow> st_caps st' = st_caps st"
  shows "st' \<in> set (star_all f n st) \<Longrightarrow> st_caps st' = st_caps st"
  by (induction n arbitrary: st) (auto split: if_splits dest: assms)

lemma capless_lazy:
  assumes "\<And>st st'. st' \<in> set (f st) \<Longrightarrow> st_caps st' = st_caps st"
  shows "st' \<in> set (lazy_all f n st) \<Longrightarrow> st_caps st' = st_caps st"
  by (induction n arbitrary: st) (auto split: if_splits dest: assms)

lemma capless_caps: "capless r \<Longrightarrow> st' \<in> set (rx_all r st) \<Longrightarrow> st_caps st' = st_caps st"
proof (induction r arbitrary: st st')
  case (RStar r)
  from RStar.prems have "capless r" "st' \<in> set (star_all (rx_all r) (Suc (length (st_post st))) st)"
    by (simp_all only: capless.simps rx_all.simps)
  then show ?case using capless_star [of "rx_all r"] RStar.IH by blast
next
  case (RLazy r)
  from RLazy.prems have "capless r" "st' \<in> set (lazy_all (rx_all r) (Suc (length (st_post st))) st)"
    by (simp_all only: capless.simps rx_all.simps)
  then show ?case using capless_lazy [of "rx_all r"] RLazy.IH by blast
next
  case (RSeq r1 r2)
  from RSeq.prems obtain st1 where "st1 \<in> set (rx_all r1 st)" "st' \<in> set (rx_all r2 st1)" by auto
  then show ?case using RSeq.IH(1) [of st1 st] RSeq.IH(2) [of st' st1] RSeq.prems(1) by simp
next
  case (RSet s)
  then show ?case by (cases "(in_cset s, st)" rule: set_step.cases) (auto split: if_splits)
next
  case (RLit w)
  then show ?case by (cases st) (auto split: if_splits)
next
  case (RRef n)
  then show ?case by (cases st) (auto split: if_splits option.splits)
next
  case (RLook r)
  then show ?case by (cases "rx_all r st") auto
next
  case (RAlt r1 r2)
  from RAlt.prems have "st' \<in> set (rx_all r1 st) \<or> st' \<in> set (rx_all r2 st)" by simp
  then show ?case using RAlt.IH(1) [of st' st] RAlt.IH(2) [of st' st] RAlt.prems(1) by auto
qed (auto split: if_splits list.splits)

lemma mem_lit:
  "st' \<in> set (rx_all (RLit w) (pre, post, cs)) \<longleftrightarrow>
     (\<exists>v. post = w @ v \<and> st' = (rev w @ pre, v, cs))"
  by (auto simp: startswith_iff)

lemma mem_set:
  "st' \<in> set (rx_all (RSet s) (pre, post, cs)) \<longleftrightarrow>
     (\<exists>c v. post = c # v \<and> in_cset s c \<and> st' = (c # pre, v, cs))"
  by (cases post) auto

lemma mem_advance:
  assumes "st' \<in> set (rx_all r (pre, post, cs))"
  obtains w v ds where "post = w @ v" "st' = (rev w @ pre, v, ds @ cs)"
  using rx_all_advance [OF assms] by (cases st') (auto simp: advance_def)

lemma mem_grp:
  assumes "st' \<in> set (rx_all (RGrp n r) (pre, post, cs))"
  obtains w v ds where "post = w @ v" "(rev w @ pre, v, ds @ cs) \<in> set (rx_all r (pre, post, cs))"
    "st' = (rev w @ pre, v, (n, length pre, w) # ds @ cs)"
proof -
  from assms obtain st1 where st1: "st1 \<in> set (rx_all r (pre, post, cs))"
    "st' = close_grp n (pre, post, cs) st1" by auto
  from st1(1) obtain w v ds where "post = w @ v" "st1 = (rev w @ pre, v, ds @ cs)"
    by (rule mem_advance)
  with st1 show ?thesis using that by simp
qed

lemma mem_star_set:
  "st' \<in> set (rx_all (RStar (RSet s)) (pre, post, cs)) \<longleftrightarrow>
     (\<exists>w v. post = w @ v \<and> list_all (in_cset s) w \<and> st' = (rev w @ pre, v, cs))"
proof
  assume "st' \<in> set (rx_all (RStar (RSet s)) (pre, post, cs))"
  then obtain k where "k \<in> {0..<Suc (length (takeWhile (in_cset s) post))}"
    and st': "st' = (rev (take k post) @ pre, drop k post, cs)"
    unfolding rx_all_star_set set_map set_rev set_upt by (rule imageE)
  then have k: "k \<le> length (takeWhile (in_cset s) post)" by simp
  have "take k post = take k (takeWhile (in_cset s) post)"
    using k by (metis min.absorb1 take_take takeWhile_eq_take)
  then have "list_all (in_cset s) (take k post)"
    by (auto simp: list_all_iff dest: in_set_takeD set_takeWhileD)
  then show "\<exists>w v. post = w @ v \<and> list_all (in_cset s) w \<and> st' = (rev w @ pre, v, cs)"
    using st' append_take_drop_id by metis
next
  assume "\<exists>w v. post = w @ v \<and> list_all (in_cset s) w \<and> st' = (rev w @ pre, v, cs)"
  then obtain w v where *: "post = w @ v" "list_all (in_cset s) w" "st' = (rev w @ pre, v, cs)" by blast
  have "length w \<le> length (takeWhile (in_cset s) post)"
    using *(1,2) by (auto simp: list_all_iff takeWhile_append2)
  then show "st' \<in> set (rx_all (RStar (RSet s)) (pre, post, cs))"
    using *(1,3) by (auto simp: rx_all_star_set intro!: image_eqI [of _ _ "length w"])
qed

lemma ex_split_Cons:
  "(\<exists>u v. c # s = u @ v \<and> P u v) \<longleftrightarrow> P [] (c # s) \<or> (\<exists>u v. s = u @ v \<and> P (c # u) v)"
  by (metis append_Cons append_Nil append_eq_Cons_conv)

lemma mem_lazy_set:
  "st' \<in> set (rx_all (RLazy (RSet s)) (pre, post, cs)) \<longleftrightarrow>
     (\<exists>w v. post = w @ v \<and> list_all (in_cset s) w \<and> st' = (rev w @ pre, v, cs))"
proof (induction post arbitrary: pre)
  case Nil
  show ?case by (subst rx_all_RLazy) auto
next
  case (Cons c post)
  have "st' \<in> set (rx_all (RLazy (RSet s)) (pre, c # post, cs)) \<longleftrightarrow>
      st' = (pre, c # post, cs) \<or>
      in_cset s c \<and> st' \<in> set (rx_all (RLazy (RSet s)) (c # pre, post, cs))"
    by (subst rx_all_RLazy) (simp add: moved_def)
  also have "\<dots> \<longleftrightarrow> st' = (pre, c # post, cs) \<or>
      in_cset s c \<and> (\<exists>w v. post = w @ v \<and> list_all (in_cset s) w \<and> st' = (rev w @ c # pre, v, cs))"
    by (simp only: Cons.IH)
  also have "\<dots> \<longleftrightarrow> (\<exists>w v. c # post = w @ v \<and> list_all (in_cset s) w \<and> st' = (rev w @ pre, v, cs))"
    unfolding ex_split_Cons by auto
  finally show ?case .
qed

text \<open>
  \<open>reach r st st'\<close>: st' is one of the matches of r from st.  The collection \<open>reach_simps\<close> turns
  it into equations between the text and the pieces the parts of the pattern have matched.
\<close>

definition reach :: "rx \<Rightarrow> rstate \<Rightarrow> rstate \<Rightarrow> bool" where
  "reach r st st' = (st' \<in> set (rx_all r st))"

named_theorems reach_simps

lemma reach_eps [reach_simps]: "reach REps st st' \<longleftrightarrow> st' = st"
  by (auto simp: reach_def)

lemma reach_lit [reach_simps]:
  "reach (RLit w) (pre, post, cs) st' \<longleftrightarrow> (\<exists>v. post = w @ v \<and> st' = (rev w @ pre, v, cs))"
  unfolding reach_def by (rule mem_lit)

lemma reach_set [reach_simps]:
  "reach (RSet s) (pre, post, cs) st' \<longleftrightarrow>
     (\<exists>c v. post = c # v \<and> in_cset s c \<and> st' = (c # pre, v, cs))"
  unfolding reach_def by (rule mem_set)

lemma reach_seq [reach_simps]:
  "reach (RSeq r1 r2) st st' \<longleftrightarrow> (\<exists>st1. reach r1 st st1 \<and> reach r2 st1 st')"
  by (auto simp: reach_def)

lemma reach_alt [reach_simps]: "reach (RAlt r1 r2) st st' \<longleftrightarrow> reach r1 st st' \<or> reach r2 st st'"
  by (auto simp: reach_def)

lemma reach_bol [reach_simps]: "reach RBol (pre, post, cs) st' \<longleftrightarrow> pre = [] \<and> st' = (pre, post, cs)"
  by (auto simp: reach_def)

lemma reach_eol [reach_simps]:
  "reach REol (pre, post, cs) st' \<longleftrightarrow> (post = [] \<or> post = [nl]) \<and> st' = (pre, post, cs)"
  by (auto simp: reach_def)

lemma reach_wordb [reach_simps]:
  "reach RWordB (pre, post, cs) st' \<longleftrightarrow> head_word pre \<noteq> head_word post \<and> st' = (pre, post, cs)"
  by (auto simp: reach_def)

lemma reach_star_set [reach_simps]:
  "reach (RStar (RSet s)) (pre, post, cs) st' \<longleftrightarrow>
     (\<exists>w v. post = w @ v \<and> list_all (in_cset s) w \<and> st' = (rev w @ pre, v, cs))"
  unfolding reach_def by (rule mem_star_set)

lemma reach_lazy_set [reach_simps]:
  "reach (RLazy (RSet s)) (pre, post, cs) st' \<longleftrightarrow>
     (\<exists>w v. post = w @ v \<and> list_all (in_cset s) w \<and> st' = (rev w @ pre, v, cs))"
  unfolding reach_def by (rule mem_lazy_set)

lemma reach_grp_general:
  "reach (RGrp n r) (pre, post, cs) st' \<longleftrightarrow>
     (\<exists>w v ds. post = w @ v \<and> reach r (pre, post, cs) (rev w @ pre, v, ds @ cs) \<and>
        st' = (rev w @ pre, v, (n, length pre, w) # ds @ cs))"
proof
  assume "reach (RGrp n r) (pre, post, cs) st'"
  then have "st' \<in> set (rx_all (RGrp n r) (pre, post, cs))" by (simp add: reach_def)
  then obtain w v ds where "post = w @ v"
    "(rev w @ pre, v, ds @ cs) \<in> set (rx_all r (pre, post, cs))"
    "st' = (rev w @ pre, v, (n, length pre, w) # ds @ cs)" by (rule mem_grp)
  then show "\<exists>w v ds. post = w @ v \<and> reach r (pre, post, cs) (rev w @ pre, v, ds @ cs) \<and>
      st' = (rev w @ pre, v, (n, length pre, w) # ds @ cs)" unfolding reach_def by blast
next
  assume "\<exists>w v ds. post = w @ v \<and> reach r (pre, post, cs) (rev w @ pre, v, ds @ cs) \<and>
      st' = (rev w @ pre, v, (n, length pre, w) # ds @ cs)"
  then obtain w v ds where *: "post = w @ v" "reach r (pre, post, cs) (rev w @ pre, v, ds @ cs)"
    "st' = (rev w @ pre, v, (n, length pre, w) # ds @ cs)" by blast
  have "close_grp n (pre, post, cs) (rev w @ pre, v, ds @ cs) = st'" using *(1,3) by simp
  then show "reach (RGrp n r) (pre, post, cs) st'"
    using *(2) by (auto simp: reach_def simp del: close_grp.simps intro!: rev_image_eqI)
qed

lemma reach_caps:
  assumes "capless r" "reach r (pre, post, cs) (pre', post', cs')"
  shows "cs' = cs"
  using capless_caps [OF assms(1)] assms(2) by (fastforce simp: reach_def)

lemma reach_grp [reach_simps]:
  assumes "capless r"
  shows "reach (RGrp n r) (pre, post, cs) st' \<longleftrightarrow>
     (\<exists>w v. post = w @ v \<and> reach r (pre, post, cs) (rev w @ pre, v, cs) \<and>
        st' = (rev w @ pre, v, (n, length pre, w) # cs))"
  unfolding reach_grp_general using reach_caps [OF assms] by (metis append_Nil append_self_conv2)

lemma reach_grp_star_set [reach_simps]:
  "reach (RGrp n (RStar (RSet s))) (pre, post, cs) st' \<longleftrightarrow>
     (\<exists>w v. post = w @ v \<and> list_all (in_cset s) w \<and> st' = (rev w @ pre, v, (n, length pre, w) # cs))"
  by (auto simp: reach_grp reach_star_set)

lemma reach_grp_lazy_set [reach_simps]:
  "reach (RGrp n (RLazy (RSet s))) (pre, post, cs) st' \<longleftrightarrow>
     (\<exists>w v. post = w @ v \<and> list_all (in_cset s) w \<and> st' = (rev w @ pre, v, (n, length pre, w) # cs))"
  by (auto simp: reach_grp reach_lazy_set)

lemma reach_grp_set [reach_simps]:
  "reach (RGrp n (RSet s)) (pre, post, cs) st' \<longleftrightarrow>
     (\<exists>c v. post = c # v \<and> in_cset s c \<and> st' = (c # pre, v, (n, length pre, [c]) # cs))"
  by (force simp: reach_grp reach_set)

lemma reach_star_stop: "reach (RStar r) st st"
  unfolding reach_def by (subst rx_all_RStar) simp

lemma reach_advance:
  assumes "reach r (pre, post, cs) st'"
  obtains w v ds where "post = w @ v" "st' = (rev w @ pre, v, ds @ cs)"
  using mem_advance assms unfolding reach_def by blast

lemma Match_mem:
  assumes "Match r s = Some m"
  obtains st where "reach r ([], s, []) st" "m = mk_mobj ([], s, []) st"
  using assms by (cases "rx_all r ([], s, [])") (auto simp: Match_spec reach_def simp del: mk_mobj.simps)

lemma matches_reach: "matches r s \<longleftrightarrow> (\<exists>st. reach r ([], s, []) st)"
  by (cases "rx_all r ([], s, [])") (auto simp: matches_iff reach_def)

lemma Match_Some_iff: "(\<exists>m. Match r s = Some m) \<longleftrightarrow> (\<exists>st. reach r ([], s, []) st)"
  using matches_reach [of r s] by (auto simp: matches_def)

lemma searches_reach:
  "searches r s \<longleftrightarrow> (\<exists>u v st. s = u @ v \<and> reach r (rev u, v, []) st)"
  unfolding searches_iff reach_def by (metis list.set_intros(1) list.set_cases empty_iff list.set(1) neq_Nil_conv)

lemma Search_mem:
  assumes "Search r s = Some m"
  obtains u v st where "s = u @ v" "reach r (rev u, v, []) st" "m = mk_mobj (rev u, v, []) st"
proof -
  from search_at_Some [of r "[]" s m] assms obtain u v st sts where
    "s = u @ v" "rx_all r (rev u, v, []) = st # sts" "m = mk_mobj (rev u, v, []) st"
    by (auto simp: Search_def simp del: mk_mobj.simps)
  then show ?thesis by (intro that [of u v st]) (simp_all add: reach_def)
qed

lemma grp_simps [simp]:
  "grp \<lparr>mo_start = i, mo_text = w, mo_caps = (k, j, x) # cs\<rparr> n =
     (if n = 0 then w else if n = k then x else grp \<lparr>mo_start = i, mo_text = w, mo_caps = cs\<rparr> n)"
  by (simp add: grp_def group_def)


subsection \<open>Substituting single characters\<close>

lemma search_at_set:
  "list_all (\<lambda>x. \<not> in_cset s x) u \<Longrightarrow> in_cset s c \<Longrightarrow>
     search_at (RSet s) pre (u @ c # v) =
       Some \<lparr>mo_start = length pre + length u, mo_text = [c], mo_caps = []\<rparr>"
  by (induction u arbitrary: pre) (simp_all add: bt_Some)

lemma search_at_set_none:
  "list_all (\<lambda>x. \<not> in_cset s x) u \<Longrightarrow> search_at (RSet s) pre u = None"
  by (induction u arbitrary: pre) (simp_all add: bt_Some)

lemma concat_map_none:
  "list_all (\<lambda>x. \<not> in_cset s x) u \<Longrightarrow> concat (map (\<lambda>c. if in_cset s c then rep else [c]) u) = u"
  by (induction u) simp_all

lemma sub_at_set:
  "length post < n \<Longrightarrow> sub_at (RSet s) (\<lambda>_. rep) n skip pre post =
     concat (map (\<lambda>c. if in_cset s c then rep else [c]) post)"
proof (induction n arbitrary: skip pre post)
  case (Suc n)
  show ?case
  proof (cases "list_all (\<lambda>x. \<not> in_cset s x) post")
    case True
    then show ?thesis by (simp add: search_at_set_none concat_map_none)
  next
    case False
    then obtain u c v where post: "post = u @ c # v" "in_cset s c" "\<forall>x \<in> set u. \<not> in_cset s x"
      using split_list_first_prop [of post "in_cset s"] by (auto simp: list_all_iff)
    then have u: "list_all (\<lambda>x. \<not> in_cset s x) u" by (simp add: list_all_iff)
    show ?thesis
      using Suc post(2) unfolding post(1)
      by (simp add: search_at_set [OF u post(2)] concat_map_none [OF u] Let_def)
  qed
qed simp

lemma re_sub_set:
  "re_sub (RSet s) (\<lambda>_. rep) w = concat (map (\<lambda>c. if in_cset s c then rep else [c]) w)"
  by (simp add: re_sub_def sub_at_set del: sub_at.simps)

subsection \<open>Cutting out whole matches\<close>

text \<open>
  When the length of the match at a position is known as a function of the text that follows
  (0 for no match), removing every match is a recursion on the text.
\<close>

function cut_matches :: "(string \<Rightarrow> nat) \<Rightarrow> string \<Rightarrow> string" where
  "cut_matches L [] = []"
| "cut_matches L (c # s) =
     (if L (c # s) = 0 then c # cut_matches L s else cut_matches L (drop (L (c # s)) (c # s)))"
  by pat_completeness auto
termination by (relation "measure (\<lambda>(L, s). length s)") auto

declare cut_matches.simps(2) [simp del]

lemma search_at_fails: "fails r (pre, c # post, []) \<Longrightarrow> search_at r pre (c # post) = search_at r (c # pre) post"
  by (simp add: fails_def bt_Some)

lemma search_at_here:
  "first r (pre, post, []) st \<Longrightarrow> search_at r pre post = Some (mk_mobj (pre, post, []) st)"
  by (cases post) (auto simp: first_def bt_Some)

lemma search_at_start: "search_at r pre post = Some m \<Longrightarrow> length pre \<le> mo_start m"
  by (drule search_at_Some) auto

lemma sub_at_skip:
  assumes "fails r (pre, c # post, [])"
  shows "sub_at r rep n skip pre (c # post) = c # sub_at r rep n False (c # pre) post"
proof (cases n)
  case (Suc k)
  show ?thesis
  proof (cases "search_at r (c # pre) post")
    case None
    then show ?thesis using search_at_fails [OF assms] Suc by simp
  next
    case (Some m)
    then have "mo_start m - length pre = Suc (mo_start m - length (c # pre))"
      using search_at_start [OF Some] by simp
    then show ?thesis using search_at_fails [OF assms] Suc Some by (simp add: Let_def split: list.split)
  qed
qed simp

lemma sub_at_cut:
  assumes L: "\<And>pre post. if L post = 0 then fails r (pre, post, [])
      else \<exists>cs. first r (pre, post, []) (rev (take (L post) post) @ pre, drop (L post) post, cs)"
    and le: "\<And>s. L s \<le> length s"
  shows "length post < n \<Longrightarrow> sub_at r (\<lambda>_. []) n skip pre post = cut_matches L post"
proof (induction "length post" arbitrary: post n skip pre rule: less_induct)
  case less
  then obtain k where n: "n = Suc k" by (cases n) auto
  show ?case
  proof (cases "L post = 0")
    case True
    show ?thesis
    proof (cases post)
      case Nil
      then have "search_at r pre post = None" using L [of post pre] True by (simp add: fails_def bt_Some)
      then show ?thesis using Nil by (simp add: sub_at_no_match)
    next
      case (Cons c s)
      then have "sub_at r (\<lambda>_. []) n skip pre post = c # sub_at r (\<lambda>_. []) n False (c # pre) s"
        using L [of post pre] True sub_at_skip by simp
      then show ?thesis using less.hyps [of s n] less.prems Cons True by (simp add: cut_matches.simps(2))
    qed
  next
    case False
    then obtain cs where "first r (pre, post, []) (rev (take (L post) post) @ pre, drop (L post) post, cs)"
      using L [of post pre] by auto
    note found = search_at_here [OF this]
    have "length post - length (drop (L post) post) = L post" "take (L post) post \<noteq> []"
      using le [of post] False by (auto simp: take_eq_Nil)
    then have "sub_at r (\<lambda>_. []) n skip pre post =
        sub_at r (\<lambda>_. []) k True (rev (take (L post) post) @ pre) (drop (L post) post)"
      using found le [of post] by (simp add: n Let_def)
    also have "\<dots> = cut_matches L (drop (L post) post)"
      using le [of post] False less.prems n by (intro less.hyps) auto
    also have "\<dots> = cut_matches L post"
      using False le [of post] by (cases post) (simp_all add: cut_matches.simps(2))
    finally show ?thesis .
  qed
qed

lemma re_sub_cut:
  assumes "\<And>pre post. if L post = 0 then fails r (pre, post, [])
      else \<exists>cs. first r (pre, post, []) (rev (take (L post) post) @ pre, drop (L post) post, cs)"
    and "\<And>s. L s \<le> length s"
  shows "re_sub r (\<lambda>_. []) s = cut_matches L s"
  unfolding re_sub_def by (rule sub_at_cut [OF assms]) simp_all

lemma fails_reach: "fails r st \<longleftrightarrow> (\<forall>st'. \<not> reach r st st')"
  by (auto simp: fails_def reach_def)

lemma first_star_stop: "fails r st \<Longrightarrow> first (RStar r) st st"
  unfolding first_def fails_def by (subst rx_all_RStar) simp

lemma first_star_more:
  assumes "first r st st1" "moved st st1" "first (RStar r) st1 st2"
  shows "first (RStar r) st st2"
  using assms unfolding first_def by (subst rx_all_RStar) auto

lemma takeWhile_split:
  "s = takeWhile P s @ dropWhile P s" "list_all P (takeWhile P s)" "dropWhile P s = [] \<or> \<not> P (hd (dropWhile P s))"
  using hd_dropWhile [of P s] by (auto simp: list_all_iff dest: set_takeWhileD)

end
