(* ===== verification/Lint_Data.thy ===== *)
theory Lint_Data
  imports Regex
begin

text \<open>
  The module-level tables and compiled patterns of tools/scripts/cpplint.py (lines 199 to 542):
  error categories, header names, macro replacements, and the patterns kept in constants.
  A pattern is the syntax tree of its source text; alternatives, groups and their numbers are
  those of the source.
\<close>

subsection \<open>Categories and names\<close>

definition ERROR_CATEGORIES :: "string list" where
  "ERROR_CATEGORIES =
     [''build/class'', ''build/c++11'', ''build/c++14'', ''build/c++tr1'',
      ''build/deprecated'', ''build/endif_comment'', ''build/explicit_make_pair'',
      ''build/forward_decl'', ''build/header_guard'', ''build/include'',
      ''build/include_alpha'', ''build/include_order'', ''build/include_what_you_use'',
      ''build/namespaces'', ''build/printf_format'', ''build/storage_class'',
      ''legal/copyright'', ''readability/alt_tokens'', ''readability/braces'',
      ''readability/casting'', ''readability/check'', ''readability/constructors'',
      ''readability/fn_size'', ''readability/inheritance'', ''readability/multiline_comment'',
      ''readability/multiline_string'', ''readability/namespace'', ''readability/nolint'',
      ''readability/nul'', ''readability/strings'', ''readability/todo'', ''readability/utf8'',
      ''runtime/arrays'', ''runtime/casting'', ''runtime/explicit'', ''runtime/int'',
      ''runtime/init'', ''runtime/invalid_increment'', ''runtime/member_string_references'',
      ''runtime/memset'', ''runtime/indentation_namespace'', ''runtime/operator'',
      ''runtime/printf'', ''runtime/printf_format'', ''runtime/references'',
      ''runtime/string'', ''runtime/threadsafe_fn'', ''runtime/vlog'',
      ''whitespace/blank_line'', ''whitespace/braces'', ''whitespace/comma'',
      ''whitespace/comments'', ''whitespace/empty_conditional_body'',
      ''whitespace/empty_if_body'', ''whitespace/empty_loop_body'', ''whitespace/end_of_line'',
      ''whitespace/ending_newline'', ''whitespace/forcolon'', ''whitespace/indent'',
      ''whitespace/line_length'', ''whitespace/newline'', ''whitespace/operators'',
      ''whitespace/parens'', ''whitespace/semicolon'', ''whitespace/tab'', ''whitespace/todo'',
      ''Juniper/Identifier'', ''Juniper/Keywords'']"

definition LEGACY_ERROR_CATEGORIES :: "string list" where
  "LEGACY_ERROR_CATEGORIES =
     [''readability/streams'', ''readability/function'']"

definition DEFAULT_C_SUPPRESSED_CATEGORIES :: "string list" where
  "DEFAULT_C_SUPPRESSED_CATEGORIES =
     [''readability/casting'']"

definition DEFAULT_KERNEL_SUPPRESSED_CATEGORIES :: "string list" where
  "DEFAULT_KERNEL_SUPPRESSED_CATEGORIES =
     [''whitespace/tab'']"

definition CPP_HEADERS :: "string list" where
  "CPP_HEADERS =
     [''algobase.h'', ''algo.h'', ''alloc.h'', ''builtinbuf.h'', ''bvector.h'', ''complex.h'',
      ''defalloc.h'', ''deque.h'', ''editbuf.h'', ''fstream.h'', ''function.h'', ''hash_map'',
      ''hash_map.h'', ''hash_set'', ''hash_set.h'', ''hashtable.h'', ''heap.h'',
      ''indstream.h'', ''iomanip.h'', ''iostream.h'', ''istream.h'', ''iterator.h'',
      ''list.h'', ''map.h'', ''multimap.h'', ''multiset.h'', ''ostream.h'', ''pair.h'',
      ''parsestream.h'', ''pfstream.h'', ''procbuf.h'', ''pthread_alloc'', ''pthread_alloc.h'',
      ''rope'', ''rope.h'', ''ropeimpl.h'', ''set.h'', ''slist'', ''slist.h'', ''stack.h'',
      ''stdiostream.h'', ''stl_alloc.h'', ''stl_relops.h'', ''streambuf.h'', ''stream.h'',
      ''strfile.h'', ''strstream.h'', ''tempbuf.h'', ''tree.h'', ''type_traits.h'',
      ''vector.h'', ''algorithm'', ''array'', ''atomic'', ''bitset'', ''chrono'', ''codecvt'',
      ''complex'', ''condition_variable'', ''deque'', ''exception'', ''forward_list'',
      ''fstream'', ''functional'', ''future'', ''initializer_list'', ''iomanip'', ''ios'',
      ''iosfwd'', ''iostream'', ''istream'', ''iterator'', ''limits'', ''list'', ''locale'',
      ''map'', ''memory'', ''mutex'', ''new'', ''numeric'', ''ostream'', ''queue'', ''random'',
      ''ratio'', ''regex'', ''scoped_allocator'', ''set'', ''sstream'', ''stack'',
      ''stdexcept'', ''streambuf'', ''string'', ''strstream'', ''system_error'', ''thread'',
      ''tuple'', ''typeindex'', ''typeinfo'', ''type_traits'', ''unordered_map'',
      ''unordered_set'', ''utility'', ''valarray'', ''vector'', ''cassert'', ''ccomplex'',
      ''cctype'', ''cerrno'', ''cfenv'', ''cfloat'', ''cinttypes'', ''ciso646'', ''climits'',
      ''clocale'', ''cmath'', ''csetjmp'', ''csignal'', ''cstdalign'', ''cstdarg'',
      ''cstdbool'', ''cstddef'', ''cstdint'', ''cstdio'', ''cstdlib'', ''cstring'',
      ''ctgmath'', ''ctime'', ''cuchar'', ''cwchar'', ''cwctype'']"

definition CHECK_MACROS :: "string list" where
  "CHECK_MACROS =
     [''DCHECK'', ''CHECK'', ''EXPECT_TRUE'', ''ASSERT_TRUE'', ''EXPECT_FALSE'',
      ''ASSERT_FALSE'']"

definition DEFAULT_FILTERS :: "string list" where
  "DEFAULT_FILTERS = [''-build/include_alpha'']"

text \<open>The macro replacement table: one entry per macro and operator (cpplint.py:474-488).\<close>

definition CHECK_OPS :: "(string \<times> string \<times> string) list" where
  "CHECK_OPS = [(''=='', ''EQ'', ''NE''), (''!='', ''NE'', ''EQ''), (''>='', ''GE'', ''LT''),
     (''>'', ''GT'', ''LE''), (''<='', ''LE'', ''GT''), (''<'', ''LT'', ''GE'')]"

definition CHECK_REPLACEMENT :: "string \<Rightarrow> string \<Rightarrow> string option" where
  "CHECK_REPLACEMENT macro op =
     (case map_of CHECK_OPS op of
        None \<Rightarrow> None
      | Some (replacement, inv_replacement) \<Rightarrow>
          if macro = ''DCHECK'' then Some (''DCHECK_'' @ replacement)
          else if macro = ''CHECK'' then Some (''CHECK_'' @ replacement)
          else if macro = ''EXPECT_TRUE'' then Some (''EXPECT_'' @ replacement)
          else if macro = ''ASSERT_TRUE'' then Some (''ASSERT_'' @ replacement)
          else if macro = ''EXPECT_FALSE'' then Some (''EXPECT_'' @ inv_replacement)
          else if macro = ''ASSERT_FALSE'' then Some (''ASSERT_'' @ inv_replacement)
          else None)"

definition ALT_TOKEN_REPLACEMENT :: "(string \<times> string) list" where
  "ALT_TOKEN_REPLACEMENT =
     [(''and'', ''&&''), (''bitor'', ''|''), (''or'', ''||''), (''xor'', ''^''), (''compl'',
     ''~''),
      (''bitand'', ''&''), (''and_eq'', ''&=''), (''or_eq'', ''|=''), (''xor_eq'', ''^=''),
      (''not'', ''!''), (''not_eq'', ''!='')]"

subsection \<open>Patterns\<close>

definition TYPES_PAT :: rx where
  "TYPES_PAT = rseq [RBol, ralt [RGrp 1 (rseq [RLit ''char'', ROpt (RGrp 2 (ralt [RLit ''16_t'',
     RLit ''32_t'']))]), RLit ''wchar_t'', RLit ''bool'', RLit ''short'', RLit ''int'',
     RLit ''long'', RLit ''signed'', RLit ''unsigned'', RLit ''float'', RLit ''double'',
     RGrp 3 (ralt [RLit ''ptrdiff_t'', RLit ''size_t'', RLit ''max_align_t'',
     RLit ''nullptr_t'']), RGrp 4 (rseq [ROpt (RLit ''u''), RLit ''int'',
     ROpt (RGrp 5 (ralt [RLit ''_fast'', RLit ''_least''])), RGrp 6 (ralt [RLit ''8'',
     RLit ''16'', RLit ''32'', RLit ''64'']), RLit ''_t'']), RGrp 7 (rseq [ROpt (RLit ''u''),
     RLit ''int'', RGrp 8 (ralt [RLit ''max'', RLit ''ptr'']), RLit ''_t'']), REps], REol]"

definition THIRD_PARTY_HEADERS_PATTERN :: rx where
  "THIRD_PARTY_HEADERS_PATTERN = rseq [RBol, ralt [rseq [RStar (RNotIn [CI (CHR ''/'')]),
     RIn [CR (CHR ''A'') (CHR ''Z'')], RStar (RNotIn [CI (CHR ''/'')]), RLit ''.h''],
     RLit ''lua.h'', RLit ''lauxlib.h'', RLit ''lualib.h''], REol]"

definition TEST_FILE_SUFFIX :: rx where
  "TEST_FILE_SUFFIX = rseq [RGrp 1 (ralt [RLit ''_test'', RLit ''_unittest'',
     RLit ''_regtest'']), REol]"

definition EMPTY_CONDITIONAL_BODY_PATTERN :: rx where
  "EMPTY_CONDITIONAL_BODY_PATTERN = rseq [RBol, RStar RSp, REol]"

definition MATCH_ASM :: rx where
  "MATCH_ASM = rseq [RBol, RStar RSp, ralt [RLit ''asm'', RLit ''_asm'', RLit ''__asm'',
     RLit ''__asm__''], ROpt (rseq [RPlus RSp, RGrp 1 (ralt [RLit ''volatile'',
     RLit ''__volatile__''])]), RStar RSp, RIn [CI (CHR ''{''), CI (CHR ''('')]]"

definition SEARCH_C_FILE :: rx where
  "SEARCH_C_FILE = rseq [RWordB, ralt [RLit ''LINT_C_FILE'', rseq [RLit ''vi'',
     ROpt (RLit ''m''), RLit '':'', RStar RSp, RStar RAny, RGrp 1 (ralt [RStar RSp, RLit '':'']),
     RLit ''filetype=c'', RGrp 2 (ralt [RStar RSp, RLit '':'', REol])]]]"

definition SEARCH_KERNEL_FILE :: rx where
  "SEARCH_KERNEL_FILE = rseq [RWordB, RLit ''LINT_KERNEL_FILE'']"

definition RE_PATTERN_INCLUDE :: rx where
  "RE_PATTERN_INCLUDE = rseq [RBol, RStar RSp, RLit ''#'', RStar RSp, RLit ''include'',
     RStar RSp, RGrp 1 (RIn [CI (CHR ''<''), CI dq]), RGrp 2 (RStar (RNotIn [CI (CHR ''>''),
     CI dq])), RIn [CI (CHR ''>''), CI dq], RStar RAny, REol]"

definition RE_FIRST_COMPONENT :: rx where
  "RE_FIRST_COMPONENT = rseq [RBol, RPlus (RNotIn [CI (CHR ''-''), CI (CHR ''_''),
     CI (CHR ''.'')])]"

text \<open>Every category that a check of the source uses is in the list.\<close>

lemma category_listed [simp]:
  "''Juniper/Identifier'' \<in> set ERROR_CATEGORIES"
  "''Juniper/Keywords'' \<in> set ERROR_CATEGORIES"
  "''build/c++11'' \<in> set ERROR_CATEGORIES"
  "''build/c++14'' \<in> set ERROR_CATEGORIES"
  "''build/c++tr1'' \<in> set ERROR_CATEGORIES"
  "''build/class'' \<in> set ERROR_CATEGORIES"
  "''build/deprecated'' \<in> set ERROR_CATEGORIES"
  "''build/endif_comment'' \<in> set ERROR_CATEGORIES"
  "''build/explicit_make_pair'' \<in> set ERROR_CATEGORIES"
  "''build/forward_decl'' \<in> set ERROR_CATEGORIES"
  "''build/header_guard'' \<in> set ERROR_CATEGORIES"
  "''build/include'' \<in> set ERROR_CATEGORIES"
  "''build/include_alpha'' \<in> set ERROR_CATEGORIES"
  "''build/include_order'' \<in> set ERROR_CATEGORIES"
  "''build/include_what_you_use'' \<in> set ERROR_CATEGORIES"
  "''build/namespaces'' \<in> set ERROR_CATEGORIES"
  "''build/printf_format'' \<in> set ERROR_CATEGORIES"
  "''build/storage_class'' \<in> set ERROR_CATEGORIES"
  "''legal/copyright'' \<in> set ERROR_CATEGORIES"
  "''readability/alt_tokens'' \<in> set ERROR_CATEGORIES"
  "''readability/braces'' \<in> set ERROR_CATEGORIES"
  "''readability/casting'' \<in> set ERROR_CATEGORIES"
  "''readability/check'' \<in> set ERROR_CATEGORIES"
  "''readability/constructors'' \<in> set ERROR_CATEGORIES"
  "''readability/fn_size'' \<in> set ERROR_CATEGORIES"
  "''readability/inheritance'' \<in> set ERROR_CATEGORIES"
  "''readability/multiline_comment'' \<in> set ERROR_CATEGORIES"
  "''readability/multiline_string'' \<in> set ERROR_CATEGORIES"
  "''readability/namespace'' \<in> set ERROR_CATEGORIES"
  "''readability/nolint'' \<in> set ERROR_CATEGORIES"
  "''readability/nul'' \<in> set ERROR_CATEGORIES"
  "''readability/strings'' \<in> set ERROR_CATEGORIES"
  "''readability/todo'' \<in> set ERROR_CATEGORIES"
  "''readability/utf8'' \<in> set ERROR_CATEGORIES"
  "''runtime/arrays'' \<in> set ERROR_CATEGORIES"
  "''runtime/casting'' \<in> set ERROR_CATEGORIES"
  "''runtime/explicit'' \<in> set ERROR_CATEGORIES"
  "''runtime/indentation_namespace'' \<in> set ERROR_CATEGORIES"
  "''runtime/init'' \<in> set ERROR_CATEGORIES"
  "''runtime/int'' \<in> set ERROR_CATEGORIES"
  "''runtime/invalid_increment'' \<in> set ERROR_CATEGORIES"
  "''runtime/member_string_references'' \<in> set ERROR_CATEGORIES"
  "''runtime/memset'' \<in> set ERROR_CATEGORIES"
  "''runtime/operator'' \<in> set ERROR_CATEGORIES"
  "''runtime/printf'' \<in> set ERROR_CATEGORIES"
  "''runtime/printf_format'' \<in> set ERROR_CATEGORIES"
  "''runtime/references'' \<in> set ERROR_CATEGORIES"
  "''runtime/string'' \<in> set ERROR_CATEGORIES"
  "''runtime/threadsafe_fn'' \<in> set ERROR_CATEGORIES"
  "''runtime/vlog'' \<in> set ERROR_CATEGORIES"
  "''whitespace/blank_line'' \<in> set ERROR_CATEGORIES"
  "''whitespace/braces'' \<in> set ERROR_CATEGORIES"
  "''whitespace/comma'' \<in> set ERROR_CATEGORIES"
  "''whitespace/comments'' \<in> set ERROR_CATEGORIES"
  "''whitespace/empty_conditional_body'' \<in> set ERROR_CATEGORIES"
  "''whitespace/empty_if_body'' \<in> set ERROR_CATEGORIES"
  "''whitespace/empty_loop_body'' \<in> set ERROR_CATEGORIES"
  "''whitespace/end_of_line'' \<in> set ERROR_CATEGORIES"
  "''whitespace/ending_newline'' \<in> set ERROR_CATEGORIES"
  "''whitespace/forcolon'' \<in> set ERROR_CATEGORIES"
  "''whitespace/indent'' \<in> set ERROR_CATEGORIES"
  "''whitespace/line_length'' \<in> set ERROR_CATEGORIES"
  "''whitespace/newline'' \<in> set ERROR_CATEGORIES"
  "''whitespace/operators'' \<in> set ERROR_CATEGORIES"
  "''whitespace/parens'' \<in> set ERROR_CATEGORIES"
  "''whitespace/semicolon'' \<in> set ERROR_CATEGORIES"
  "''whitespace/tab'' \<in> set ERROR_CATEGORIES"
  "''whitespace/todo'' \<in> set ERROR_CATEGORIES"
  by (simp_all add: ERROR_CATEGORIES_def)

end
