(* ===== verification/Lint_State.thy ===== *)
theory Lint_State
  imports Lint_Data "HOL-Library.AList"
begin

text \<open>
  The mutable module state of tools/scripts/cpplint.py: the NOLINT suppressions, the singleton
  of class \<open>_CppLintState\<close>, and the functions that decide whether a message is printed and
  count it (lines 544 to 655, 862 to 1031 and 1188 to 1246).

  Check functions report through the \<open>error\<close> callback, and two of them also call
  \<open>ParseNolintSuppressions\<close> between reports.  The model of a check returns the list of these
  calls in order, as a list of \<open>action\<close>s, and \<open>perform\<close> carries them out on the state.
\<close>

named_theorems lint_simps

subsection \<open>State\<close>

record cpplint_state =
  verbose_level :: int
  error_count :: int
  filters :: "string list"
  filters_backup :: "string list"
  counting :: string
  errors_by_category :: "(string \<times> int) list"
  quiet :: bool
  output_format :: string

record globals =
  error_suppressions :: "string option \<rightharpoonup> int set"
  global_error_suppressions :: "string \<rightharpoonup> bool"
  lint :: cpplint_state
  stderr :: "string list"

definition init_cpplint_state :: cpplint_state where
  "init_cpplint_state =
     \<lparr>verbose_level = 1, error_count = 0, filters = DEFAULT_FILTERS,
      filters_backup = DEFAULT_FILTERS, counting = ''total'', errors_by_category = [],
      quiet = False, output_format = ''emacs''\<rparr>"

definition init_globals :: globals where
  "init_globals = \<lparr>error_suppressions = Map.empty, global_error_suppressions = Map.empty,
     lint = init_cpplint_state, stderr = []\<rparr>"

subsection \<open>Setters, filters and counters\<close>

definition SetOutputFormat :: "string \<Rightarrow> cpplint_state \<Rightarrow> cpplint_state" where
  "SetOutputFormat fmt s = s\<lparr>output_format := fmt\<rparr>"

text \<open>\<open>SetQuiet\<close> and \<open>SetVerboseLevel\<close> return the previous setting.\<close>

definition SetQuiet :: "bool \<Rightarrow> cpplint_state \<Rightarrow> bool \<times> cpplint_state" where
  "SetQuiet q s = (quiet s, s\<lparr>quiet := q\<rparr>)"

definition SetVerboseLevel :: "int \<Rightarrow> cpplint_state \<Rightarrow> int \<times> cpplint_state" where
  "SetVerboseLevel l s = (verbose_level s, s\<lparr>verbose_level := l\<rparr>)"

definition SetCountingStyle :: "string \<Rightarrow> cpplint_state \<Rightarrow> cpplint_state" where
  "SetCountingStyle c s = s\<lparr>counting := c\<rparr>"

definition signed_filter :: "string \<Rightarrow> bool" where
  "signed_filter f = (startswith f ''+'' \<or> startswith f ''-'')"

text \<open>
  The new filters are appended before the whole list is checked, so the state has changed even
  when the \<open>ValueError\<close> (\<open>Inl\<close>, with its message) is raised.
\<close>

definition AddFilters :: "string \<Rightarrow> cpplint_state \<Rightarrow> (string + unit) \<times> cpplint_state" where
  "AddFilters fs s =
     (let new = filter (\<lambda>f. f \<noteq> []) (map strip (split_char (CHR '','') fs));
          s1 = s\<lparr>filters := filters s @ new\<rparr>
      in case find (\<lambda>f. \<not> signed_filter f) (filters s1) of
           None \<Rightarrow> (Inr (), s1)
         | Some f \<Rightarrow> (Inl (''Every filter in --filters must start with + or - ('' @ f @
             '' does not)''), s1))"

definition SetFilters :: "string \<Rightarrow> cpplint_state \<Rightarrow> (string + unit) \<times> cpplint_state" where
  "SetFilters fs s = AddFilters fs (s\<lparr>filters := DEFAULT_FILTERS\<rparr>)"

definition BackupFilters :: "cpplint_state \<Rightarrow> cpplint_state" where
  "BackupFilters s = s\<lparr>filters_backup := filters s\<rparr>"

definition RestoreFilters :: "cpplint_state \<Rightarrow> cpplint_state" where
  "RestoreFilters s = s\<lparr>filters := filters_backup s\<rparr>"

definition ResetErrorCounts :: "cpplint_state \<Rightarrow> cpplint_state" where
  "ResetErrorCounts s = s\<lparr>error_count := 0, errors_by_category := []\<rparr>"

definition count_key :: "string \<Rightarrow> string \<Rightarrow> string" where
  "count_key style category =
     (if style \<noteq> ''detailed'' then hd (split_char (CHR ''/'') category) else category)"

definition dict_bump :: "string \<Rightarrow> (string \<times> int) list \<Rightarrow> (string \<times> int) list" where
  "dict_bump k d =
     (let d1 = (if map_of d k = None then AList.update k 0 d else d)
      in AList.update k (the (map_of d1 k) + 1) d1)"

definition IncrementErrorCount :: "string \<Rightarrow> cpplint_state \<Rightarrow> cpplint_state" where
  "IncrementErrorCount category s =
     (let s1 = s\<lparr>error_count := error_count s + 1\<rparr>
      in if counting s = ''toplevel'' \<or> counting s = ''detailed''
         then s1\<lparr>errors_by_category :=
                dict_bump (count_key (counting s) category) (errors_by_category s1)\<rparr>
         else s1)"

text \<open>What \<open>PrintErrorCounts\<close> writes, line by line (the first part to stderr, the last to stdout).\<close>

definition PrintErrorCounts :: "cpplint_state \<Rightarrow> string list \<times> string" where
  "PrintErrorCounts s =
     (map (\<lambda>(category, n). ''Category '' @ [sq] @ category @ [sq] @ '' errors found: '' @ py_str n)
        (errors_by_category s),
      ''Total errors found: '' @ py_str (error_count s))"

subsection \<open>NOLINT suppressions\<close>

text \<open>\<open>_error_suppressions.setdefault(k, set()).add(n)\<close>\<close>

definition suppress :: "string option \<Rightarrow> int \<Rightarrow> globals \<Rightarrow> globals" where
  "suppress k n g =
     g\<lparr>error_suppressions := (error_suppressions g)(k \<mapsto>
         insert n (case error_suppressions g k of None \<Rightarrow> {} | Some ns \<Rightarrow> ns))\<rparr>"

definition IsErrorSuppressedByNolint :: "string \<Rightarrow> int \<Rightarrow> globals \<Rightarrow> bool" where
  "IsErrorSuppressedByNolint category n g =
     ((case global_error_suppressions g category of None \<Rightarrow> False | Some b \<Rightarrow> b) \<or>
      n \<in> (case error_suppressions g (Some category) of None \<Rightarrow> {} | Some ns \<Rightarrow> ns) \<or>
      n \<in> (case error_suppressions g None of None \<Rightarrow> {} | Some ns \<Rightarrow> ns))"

definition ResetNolintSuppressions :: "globals \<Rightarrow> globals" where
  "ResetNolintSuppressions g =
     g\<lparr>error_suppressions := Map.empty, global_error_suppressions := Map.empty\<rparr>"

fun set_global_suppressions :: "string list \<Rightarrow> globals \<Rightarrow> globals" where
  "set_global_suppressions [] g = g"
| "set_global_suppressions (c # cs) g = set_global_suppressions cs
     (g\<lparr>global_error_suppressions := (global_error_suppressions g)(c \<mapsto> True)\<rparr>)"

fun ProcessGlobalSuppresions :: "string list \<Rightarrow> globals \<Rightarrow> globals" where
  "ProcessGlobalSuppresions [] g = g"
| "ProcessGlobalSuppresions (line # lines) g =
     (let g1 = (if searches SEARCH_C_FILE line
                then set_global_suppressions DEFAULT_C_SUPPRESSED_CATEGORIES g else g);
          g2 = (if searches SEARCH_KERNEL_FILE line
                then set_global_suppressions DEFAULT_KERNEL_SUPPRESSED_CATEGORIES g1 else g1)
      in ProcessGlobalSuppresions lines g2)"

subsection \<open>Reporting\<close>

text \<open>
  One pass of the loop over the filters; \<open>None\<close> is the \<open>assert False\<close> for a filter that
  starts with neither sign.
\<close>

fun filter_loop :: "string \<Rightarrow> string list \<Rightarrow> bool \<Rightarrow> bool option" where
  "filter_loop category [] is_filtered = Some is_filtered"
| "filter_loop category (f # fs) is_filtered =
     (if startswith f ''-'' then
        filter_loop category fs (if startswith category (slice_from f 1) then True else is_filtered)
      else if startswith f ''+'' then
        filter_loop category fs (if startswith category (slice_from f 1) then False else is_filtered)
      else None)"

definition ShouldPrintError :: "string \<Rightarrow> int \<Rightarrow> int \<Rightarrow> globals \<Rightarrow> bool option" where
  "ShouldPrintError category confidence linenum g =
     (if IsErrorSuppressedByNolint category linenum g then Some False
      else if confidence < verbose_level (lint g) then Some False
      else (case filter_loop category (filters (lint g)) False of
              None \<Rightarrow> None
            | Some is_filtered \<Rightarrow> Some (\<not> is_filtered)))"

definition format_error :: "string \<Rightarrow> string \<Rightarrow> int \<Rightarrow> string \<Rightarrow> int \<Rightarrow> string \<Rightarrow> string" where
  "format_error fmt filename linenum category confidence message =
     (if fmt = ''vs7'' then
        filename @ ''('' @ py_str linenum @ ''): error cpplint: ['' @ category @ ''] '' @ message @
        '' ['' @ py_str confidence @ '']''
      else if fmt = ''eclipse'' then
        filename @ '':'' @ py_str linenum @ '': warning: '' @ message @ ''  ['' @ category @
        ''] ['' @ py_str confidence @ '']''
      else
        filename @ '':'' @ py_str linenum @ '':  '' @ message @ ''  ['' @ category @
        ''] ['' @ py_str confidence @ '']'')"

definition Error :: "string \<Rightarrow> int \<Rightarrow> string \<Rightarrow> int \<Rightarrow> string \<Rightarrow> globals \<Rightarrow> globals option" where
  "Error filename linenum category confidence message g =
     (case ShouldPrintError category confidence linenum g of
        None \<Rightarrow> None
      | Some False \<Rightarrow> Some g
      | Some True \<Rightarrow> Some (g\<lparr>lint := IncrementErrorCount category (lint g),
          stderr := stderr g @ [format_error (output_format (lint g)) filename linenum category
            confidence message]\<rparr>))"

definition NOLINT_PAT :: rx where
  "NOLINT_PAT = rseq [RWordB, RLit ''NOLINT'', ROpt (RGrp 1 (RLit ''NEXTLINE'')), RWordB,
     ROpt (RGrp 2 (rseq [RLit ''('', RPlus (RNotIn [CI (CHR '')'')]), RLit '')'']))]"

definition ParseNolintSuppressions :: "string \<Rightarrow> string \<Rightarrow> int \<Rightarrow> globals \<Rightarrow> globals option" where
  "ParseNolintSuppressions filename raw_line linenum g =
     (case Search NOLINT_PAT raw_line of
        None \<Rightarrow> Some g
      | Some m \<Rightarrow>
          (let suppressed_line = (case group m 1 of None \<Rightarrow> linenum | Some _ \<Rightarrow> linenum + 1)
           in case group m 2 of
                None \<Rightarrow> Some (suppress None suppressed_line g)
              | Some category \<Rightarrow>
                  if category = [CHR ''('', CHR ''*'', CHR '')''] then
                    Some (suppress None suppressed_line g)
                  else if startswith category ''('' \<and> endswith category '')'' then
                    (let category = slice category 1 (-1)
                     in if category \<in> set ERROR_CATEGORIES then
                          Some (suppress (Some category) suppressed_line g)
                        else if category \<notin> set LEGACY_ERROR_CATEGORIES then
                          Error filename linenum ''readability/nolint'' 5
                            (''Unknown NOLINT error category: '' @ category) g
                        else Some g)
                  else Some g))"

subsection \<open>Actions of the checks\<close>

datatype action =
    Report (a_line: int) (a_category: string) (a_confidence: int) (a_message: string)
  | Nolint string int

fun perform :: "string \<Rightarrow> action \<Rightarrow> globals \<Rightarrow> globals option" where
  "perform filename (Report n c k msg) g = Error filename n c k msg g"
| "perform filename (Nolint raw_line n) g = ParseNolintSuppressions filename raw_line n g"

fun perform_all :: "string \<Rightarrow> action list \<Rightarrow> globals \<Rightarrow> globals option" where
  "perform_all filename [] g = Some g"
| "perform_all filename (a # as) g =
     (case perform filename a g of None \<Rightarrow> None | Some g' \<Rightarrow> perform_all filename as g')"

subsection \<open>Filters\<close>

text \<open>The documented reading of a filter list: the last filter that applies decides.\<close>

definition last_verdict :: "string \<Rightarrow> string list \<Rightarrow> bool \<Rightarrow> bool" where
  "last_verdict category fs b =
     (case filter (\<lambda>f. startswith category (tl f)) fs of
        [] \<Rightarrow> b | m # ms \<Rightarrow> hd (last (m # ms)) = CHR ''-'')"

lemma slice_from_1: "slice_from (c # s) 1 = s"
  by (simp add: py_simps)

lemma signed_filter_cases:
  assumes "signed_filter f"
  obtains s where "f = CHR ''+'' # s" | s where "f = CHR ''-'' # s"
  using assms by (cases f) (auto simp: signed_filter_def)

lemma filter_loop_verdict:
  "list_all signed_filter fs \<Longrightarrow> filter_loop category fs b = Some (last_verdict category fs b)"
proof (induction fs arbitrary: b)
  case Nil
  show ?case by (simp add: last_verdict_def)
next
  case (Cons f fs)
  then have "signed_filter f" by simp
  then show ?case using Cons
    by (cases rule: signed_filter_cases)
       (auto simp: last_verdict_def slice_from_1 split: list.splits)
qed

lemma filter_loop_assert: "filter_loop category fs b = None \<longleftrightarrow> \<not> list_all signed_filter fs"
proof (induction fs arbitrary: b)
  case (Cons f fs)
  show ?case
  proof (cases "signed_filter f")
    case True
    then show ?thesis using Cons by (cases rule: signed_filter_cases) (auto simp: signed_filter_def)
  next
    case False
    then show ?thesis by (simp add: signed_filter_def)
  qed
qed simp

lemma find_None_list_all: "find (\<lambda>f. \<not> P f) xs = None \<longleftrightarrow> list_all P xs"
  by (auto simp: find_None_iff list_all_iff)

lemma AddFilters_ok:
  "fst (AddFilters fs s) = Inr () \<longleftrightarrow> list_all signed_filter (filters (snd (AddFilters fs s)))"
  by (auto simp: AddFilters_def Let_def find_None_list_all [symmetric] split: option.splits)

subsection \<open>The invariant of the linter state\<close>

text \<open>
  Every filter, in use or backed up, has a sign; the per-category counters have distinct keys;
  and in the two styles that keep them, they add up to the total.
\<close>

definition per_category :: "cpplint_state \<Rightarrow> bool" where
  "per_category s = (counting s = ''toplevel'' \<or> counting s = ''detailed'')"

definition wf_lint :: "cpplint_state \<Rightarrow> bool" where
  "wf_lint s = (list_all signed_filter (filters s) \<and> list_all signed_filter (filters_backup s) \<and>
     distinct (map fst (errors_by_category s)) \<and> 0 \<le> error_count s \<and>
     (per_category s \<longrightarrow> sum_list (map snd (errors_by_category s)) = error_count s))"

lemma wf_init: "wf_lint init_cpplint_state"
  by (simp add: wf_lint_def init_cpplint_state_def DEFAULT_FILTERS_def signed_filter_def
      per_category_def)

lemma wf_BackupFilters: "wf_lint s \<Longrightarrow> wf_lint (BackupFilters s)"
  by (simp add: wf_lint_def BackupFilters_def per_category_def)

lemma wf_RestoreFilters: "wf_lint s \<Longrightarrow> wf_lint (RestoreFilters s)"
  by (simp add: wf_lint_def RestoreFilters_def per_category_def)

lemma wf_ResetErrorCounts: "wf_lint s \<Longrightarrow> wf_lint (ResetErrorCounts s)"
  by (simp add: wf_lint_def ResetErrorCounts_def)

lemma wf_AddFilters: "wf_lint s \<Longrightarrow> AddFilters fs s = (Inr (), s') \<Longrightarrow> wf_lint s'"
  by (auto simp: wf_lint_def AddFilters_def Let_def per_category_def find_None_list_all
      split: option.splits)

lemma wf_SetFilters: "wf_lint s \<Longrightarrow> SetFilters fs s = (Inr (), s') \<Longrightarrow> wf_lint s'"
  by (auto simp: wf_lint_def SetFilters_def AddFilters_def Let_def per_category_def
      find_None_list_all split: option.splits)

lemma update_new: "map_of d k = None \<Longrightarrow> AList.update k v d = d @ [(k, v)]"
  by (induction d) (auto split: if_splits)

lemma sum_update_old:
  "distinct (map fst d) \<Longrightarrow> map_of d k = Some n \<Longrightarrow>
     sum_list (map snd (AList.update k (m :: int) d)) = sum_list (map snd d) - n + m"
proof (induction d)
  case (Cons e d)
  show ?case
  proof (cases "fst e = k")
    case True
    then show ?thesis using Cons.prems by (cases e) auto
  next
    case False
    then show ?thesis using Cons by (cases e) auto
  qed
qed simp

lemma dict_bump_distinct: "distinct (map fst d) \<Longrightarrow> distinct (map fst (dict_bump k d))"
  by (simp add: dict_bump_def Let_def distinct_update)

lemma dict_bump_sum:
  assumes "distinct (map fst d)"
  shows "sum_list (map snd (dict_bump k d)) = sum_list (map snd d) + 1"
proof (cases "map_of d k")
  case None
  have "distinct (map fst (AList.update k 0 d))" using assms by (rule distinct_update)
  then show ?thesis
    using None sum_update_old [of "AList.update k 0 d" k 0 1]
    by (simp add: dict_bump_def update_new [OF None] map_add_def)
next
  case (Some n)
  then show ?thesis using sum_update_old [OF assms Some, of "n + 1"] by (simp add: dict_bump_def)
qed

lemma wf_IncrementErrorCount: "wf_lint s \<Longrightarrow> wf_lint (IncrementErrorCount c s)"
  by (auto simp: wf_lint_def IncrementErrorCount_def Let_def per_category_def dict_bump_distinct
      dict_bump_sum)

lemma IncrementErrorCount_simps [simp]:
  "error_count (IncrementErrorCount c s) = error_count s + 1"
  "filters (IncrementErrorCount c s) = filters s"
  "filters_backup (IncrementErrorCount c s) = filters_backup s"
  "verbose_level (IncrementErrorCount c s) = verbose_level s"
  "counting (IncrementErrorCount c s) = counting s"
  "quiet (IncrementErrorCount c s) = quiet s"
  "output_format (IncrementErrorCount c s) = output_format s"
  by (simp_all add: IncrementErrorCount_def Let_def)

subsection \<open>An interface for reporting\<close>

text \<open>
  What a client of an error handler may rely on: with the invariant, a report is handled and
  keeps the invariant; the counter grows by one exactly when the report is accepted; and
  reporting does not change what will be accepted.
\<close>

locale error_sink =
  fixes report :: "'d \<Rightarrow> 's \<Rightarrow> 's option"
    and accepted :: "'s \<Rightarrow> 'd \<Rightarrow> bool"
    and total :: "'s \<Rightarrow> int"
    and inv :: "'s \<Rightarrow> bool"
  assumes report_total: "inv s \<Longrightarrow> \<exists>s'. report d s = Some s'"
    and report_inv: "inv s \<Longrightarrow> report d s = Some s' \<Longrightarrow> inv s'"
    and report_count: "inv s \<Longrightarrow> report d s = Some s' \<Longrightarrow>
       total s' = total s + (if accepted s d then 1 else 0)"
    and report_stable: "inv s \<Longrightarrow> report d s = Some s' \<Longrightarrow> accepted s' = accepted s"
begin

primrec report_all :: "'d list \<Rightarrow> 's \<Rightarrow> 's option" where
  "report_all [] s = Some s"
| "report_all (d # ds) s = (case report d s of None \<Rightarrow> None | Some s' \<Rightarrow> report_all ds s')"

lemma report_all_total: "inv s \<Longrightarrow> \<exists>s'. report_all ds s = Some s' \<and> inv s'"
proof (induction ds arbitrary: s)
  case (Cons d ds)
  then obtain s1 where "report d s = Some s1" "inv s1" using report_total report_inv by blast
  then show ?case using Cons.IH by simp
qed simp

lemma report_all_count:
  "inv s \<Longrightarrow> report_all ds s = Some s' \<Longrightarrow>
     total s' = total s + int (length (filter (accepted s) ds)) \<and> accepted s' = accepted s"
proof (induction ds arbitrary: s)
  case (Cons d ds)
  then obtain s1 where s1: "report d s = Some s1" "report_all ds s1 = Some s'"
    by (auto split: option.splits)
  note f = report_inv [OF Cons.prems(1) s1(1)] report_count [OF Cons.prems(1) s1(1)]
    report_stable [OF Cons.prems(1) s1(1)]
  show ?case using Cons.IH [OF f(1) s1(2)] f(2,3) by simp
qed simp

end

subsection \<open>The global state as an error handler\<close>

abbreviation wf_globals :: "globals \<Rightarrow> bool" where
  "wf_globals g \<equiv> wf_lint (lint g)"

definition accepts :: "globals \<Rightarrow> action \<Rightarrow> bool" where
  "accepts g a = (ShouldPrintError (a_category a) (a_confidence a) (a_line a) g = Some True)"

lemma ShouldPrintError_verdict:
  "wf_globals g \<Longrightarrow> ShouldPrintError c k n g =
     Some (\<not> IsErrorSuppressedByNolint c n g \<and> verbose_level (lint g) \<le> k \<and>
           \<not> last_verdict c (filters (lint g)) False)"
  by (auto simp: ShouldPrintError_def wf_lint_def filter_loop_verdict)

lemma Error_cases:
  assumes "wf_globals g"
  shows "Error f n c k msg g =
     (if accepts g (Report n c k msg)
      then Some (g\<lparr>lint := IncrementErrorCount c (lint g), stderr := stderr g @
             [format_error (output_format (lint g)) f n c k msg]\<rparr>)
      else Some g)"
  using assms by (simp add: Error_def accepts_def ShouldPrintError_verdict split: bool.split)

lemma ShouldPrintError_frame:
  "ShouldPrintError c k n (g\<lparr>lint := IncrementErrorCount c' (lint g), stderr := e\<rparr>) =
     ShouldPrintError c k n g"
  by (simp add: ShouldPrintError_def IsErrorSuppressedByNolint_def)

lemma wf_Error: "wf_globals g \<Longrightarrow> Error f n c k msg g = Some g' \<Longrightarrow> wf_globals g'"
  by (auto simp: Error_cases wf_IncrementErrorCount split: if_splits)

definition report_action :: "string \<Rightarrow> action \<Rightarrow> globals \<Rightarrow> globals option" where
  "report_action f a g = Error f (a_line a) (a_category a) (a_confidence a) (a_message a) g"

interpretation es: error_sink "report_action f" accepts "\<lambda>g. error_count (lint g)" wf_globals
  for f
proof unfold_locales
  fix g g' d
  assume wf: "wf_globals g"
  show "\<exists>g'. report_action f d g = Some g'" using wf by (simp add: report_action_def Error_cases)
  assume r: "report_action f d g = Some g'"
  then show "wf_globals g'" using wf wf_Error by (auto simp: report_action_def)
  have acc: "accepts g (Report (a_line d) (a_category d) (a_confidence d) (a_message d)) =
      accepts g d" by (simp add: accepts_def)
  show "error_count (lint g') = error_count (lint g) + (if accepts g d then 1 else 0)"
    using r wf acc by (auto simp: report_action_def Error_cases split: if_splits)
  show "accepts g' = accepts g"
    using r wf by (auto simp: report_action_def Error_cases accepts_def fun_eq_iff
        ShouldPrintError_frame split: if_splits)
qed

definition is_report :: "action \<Rightarrow> bool" where
  "is_report a = (case a of Report _ _ _ _ \<Rightarrow> True | Nolint _ _ \<Rightarrow> False)"

lemma perform_report: "is_report a \<Longrightarrow> perform f a g = report_action f a g"
  by (cases a) (auto simp: report_action_def is_report_def)

lemma perform_all_reports:
  "list_all is_report as \<Longrightarrow> perform_all f as g = es.report_all f as g"
  by (induction as arbitrary: g) (auto simp: perform_report split: option.split)

lemma perform_all_append:
  "perform_all f (as @ as2) g =
     (case perform_all f as g of None \<Rightarrow> None | Some g' \<Rightarrow> perform_all f as2 g')"
  by (induction as arbitrary: g) (auto split: option.split)

lemma suppress_lint [simp]: "lint (suppress k n g) = lint g"
  by (simp add: suppress_def)

lemma ParseNolint_total:
  assumes "wf_globals g"
  shows "\<exists>g'. ParseNolintSuppressions f raw n g = Some g' \<and> wf_globals g'"
proof -
  have "\<exists>g'. Error f n c k msg g = Some g' \<and> wf_globals g'" for c k msg
    using es.report_total [OF assms, of f "Report n c k msg"] wf_Error [OF assms]
    by (auto simp: report_action_def)
  then show ?thesis
    using assms by (auto simp: ParseNolintSuppressions_def Let_def split: option.split)
qed

lemma perform_all_total: "wf_globals g \<Longrightarrow> \<exists>g'. perform_all f as g = Some g' \<and> wf_globals g'"
proof (induction as arbitrary: g)
  case (Cons a as)
  have "\<exists>g'. perform f a g = Some g' \<and> wf_globals g'"
  proof (cases a)
    case (Report n c k msg)
    then show ?thesis
      using es.report_total [OF Cons.prems, of f a] wf_Error [OF Cons.prems]
      by (auto simp: report_action_def)
  next
    case (Nolint raw n)
    then show ?thesis using ParseNolint_total [OF Cons.prems] by simp
  qed
  then show ?case using Cons.IH by force
qed simp

subsection \<open>NOLINT comments\<close>

lemma nolint_first:
  assumes "cat \<noteq> []" "CHR '')'' \<notin> set cat" "u = [] \<or> \<not> is_word (last u)"
  shows "first NOLINT_PAT (rev u, ''NOLINT('' @ cat @ '')'' @ rest, [])
     (rev (''NOLINT('' @ cat @ '')'') @ rev u, rest, [(2, length u + 6, ''('' @ cat @ '')'')])"
proof -
  have b0: "first RWordB (rev u, ''NOLINT('' @ cat @ '')'' @ rest, [])
      (rev u, ''NOLINT('' @ cat @ '')'' @ rest, [])"
    using assms(3) by (cases u rule: rev_cases)
      (auto intro!: first_wordb simp: head_word_def py_simps ord_def)
  have l1: "first (RLit ''NOLINT'') (rev u, ''NOLINT('' @ cat @ '')'' @ rest, [])
      (rev ''NOLINT'' @ rev u, ''('' @ cat @ '')'' @ rest, [])"
    using first_lit [of "''NOLINT''" "rev u" "''('' @ cat @ '')'' @ rest" "[]"] by simp
  have o2: "first (ROpt (RGrp 1 (RLit ''NEXTLINE'')))
      (rev ''NOLINT'' @ rev u, ''('' @ cat @ '')'' @ rest, [])
      (rev ''NOLINT'' @ rev u, ''('' @ cat @ '')'' @ rest, [])"
    by (intro first_alt2 fails_grp fails_lit first_eps) simp
  have b3: "first RWordB (rev ''NOLINT'' @ rev u, ''('' @ cat @ '')'' @ rest, [])
      (rev ''NOLINT'' @ rev u, ''('' @ cat @ '')'' @ rest, [])"
    by (intro first_wordb) (simp add: head_word_def py_simps ord_def)
  have l4: "first (RLit ''('') (rev ''NOLINT'' @ rev u, ''('' @ cat @ '')'' @ rest, [])
      (rev ''NOLINT('' @ rev u, cat @ '')'' @ rest, [])"
    using first_lit [of "''(''" "rev ''NOLINT'' @ rev u" "cat @ '')'' @ rest" "[]"] by simp
  have p5: "first (RPlus (RNotIn [CI (CHR '')'')]))
      (rev ''NOLINT('' @ rev u, cat @ '')'' @ rest, [])
      (rev cat @ rev ''NOLINT('' @ rev u, '')'' @ rest, [])"
    using assms(1,2) by (intro first_plus_set) (auto simp: list_all_iff)
  have l6: "first (RLit '')'') (rev cat @ rev ''NOLINT('' @ rev u, '')'' @ rest, [])
      (rev '')'' @ rev cat @ rev ''NOLINT('' @ rev u, rest, [])"
    by (rule first_lit)
  note g = first_alt1 [OF first_grp [OF first_seq [OF l4 first_seq [OF p5 l6]], of 2], of REps]
  have "first NOLINT_PAT (rev u, ''NOLINT('' @ cat @ '')'' @ rest, [])
      (close_grp 2 (rev ''NOLINT'' @ rev u, ''('' @ cat @ '')'' @ rest, [])
         (rev '')'' @ rev cat @ rev ''NOLINT('' @ rev u, rest, []))"
    unfolding NOLINT_PAT_def rseq.simps
    by (intro first_seq [OF b0] first_seq [OF l1] first_seq [OF o2] first_seq [OF b3] g)
  then show ?thesis by (simp add: eval_nat_numeral)
qed

lemma nolint_fails: "\<not> startswith v ''NOLINT'' \<Longrightarrow> fails NOLINT_PAT (pre, v, cs)"
  unfolding NOLINT_PAT_def rseq.simps by (intro fails_wordb_seq fails_seq1 fails_lit)

lemma nolint_search:
  assumes "raw = u @ ''NOLINT('' @ cat @ '')'' @ rest"
    and "py_find raw ''NOLINT'' = int (length u)"
    and "cat \<noteq> []" "CHR '')'' \<notin> set cat" "u = [] \<or> \<not> is_word (last u)"
  shows "\<exists>m. Search NOLINT_PAT raw = Some m \<and> group m 1 = None \<and>
     group m 2 = Some (''('' @ cat @ '')'')"
proof -
  have "Search NOLINT_PAT raw = Some (mk_mobj (rev u, ''NOLINT('' @ cat @ '')'' @ rest, [])
     (rev (''NOLINT('' @ cat @ '')'') @ rev u, rest, [(2, length u + 6, ''('' @ cat @ '')'')]))"
  proof (rule Search_first [OF assms(1) nolint_first [OF assms(3,4,5)]])
    fix u' v'
    assume "raw = u' @ v'" "length u' < length u"
    then have "\<not> startswith v' ''NOLINT''" using assms(2) by (auto simp: py_find_split)
    then show "fails NOLINT_PAT (rev u', v', [])" by (rule nolint_fails)
  qed
  then show ?thesis by (simp add: group_def)
qed

lemma IsErrorSuppressed_suppress:
  "IsErrorSuppressedByNolint c n (suppress k l g) \<longleftrightarrow>
     IsErrorSuppressedByNolint c n g \<or> (n = l \<and> (k = None \<or> k = Some c))"
  by (auto simp: IsErrorSuppressedByNolint_def suppress_def split: option.splits)

lemma no_nolint: "py_find raw ''NOLINT'' = -1 \<Longrightarrow> ParseNolintSuppressions f raw n g = Some g"
proof -
  assume "py_find raw ''NOLINT'' = -1"
  then have "fails NOLINT_PAT (rev u, v, [])" if "raw = u @ v" for u v
    using that by (auto simp: py_find_minus intro: nolint_fails)
  then have "Search NOLINT_PAT raw = None"
    by (auto simp: Search_def search_at_None fails_def)
  then show ?thesis by (simp add: ParseNolintSuppressions_def)
qed

subsection \<open>Properties\<close>

text \<open>C5: A message is printed exactly when no NOLINT comment suppresses its category on its line,
  its confidence reaches the verbosity level, and the last filter of the list whose text is a
  prefix of the category is not a minus filter.  With signed filters the assertion in the loop
  is never reached.\<close>

theorem filters_last_match_wins:
  assumes "wf_globals g"
  shows "ShouldPrintError c k n g =
     Some (\<not> IsErrorSuppressedByNolint c n g \<and> verbose_level (lint g) \<le> k \<and>
           \<not> last_verdict c (filters (lint g)) False)"
  using assms by (rule ShouldPrintError_verdict)

theorem filters_last_match_wins_witness:
  "wf_globals init_globals \<and>
   ShouldPrintError ''build/include_alpha'' 4 7 init_globals = Some False \<and>
   ShouldPrintError ''build/include'' 4 7 init_globals = Some True"
proof -
  have wf: "wf_globals init_globals" by (simp add: init_globals_def wf_init)
  show ?thesis
    using wf filters_last_match_wins [OF wf, of "''build/include_alpha''" 4 7]
      filters_last_match_wins [OF wf, of "''build/include''" 4 7]
    by (simp add: init_globals_def init_cpplint_state_def DEFAULT_FILTERS_def last_verdict_def
        IsErrorSuppressedByNolint_def)
qed

text \<open>C6: Carrying out the reports of a check never fails in a well-formed state; the error counter
  grows by the number of reports that are accepted, and the invariant (signed filters, counters
  per category adding up to the total) is kept.\<close>

theorem reports_are_counted:
  assumes "wf_globals g" and "list_all is_report as"
  shows "\<exists>g'. perform_all f as g = Some g' \<and> wf_globals g' \<and>
     error_count (lint g') = error_count (lint g) + int (length (filter (accepts g) as))"
proof -
  obtain g' where g': "perform_all f as g = Some g'" "wf_globals g'"
    using perform_all_total [OF assms(1)] by blast
  then have "es.report_all f as g = Some g'" using assms(2) by (simp add: perform_all_reports)
  from es.report_all_count [OF assms(1) this] show ?thesis using g' by blast
qed

theorem reports_are_counted_witness:
  "\<exists>g'. perform_all ''a.cc''
       [Report 3 ''build/include'' 4 ''m'', Report 3 ''build/include_alpha'' 4 ''m''] init_globals =
     Some g' \<and> error_count (lint g') = 1"
proof -
  have wf: "wf_globals init_globals" by (simp add: init_globals_def wf_init)
  show ?thesis
    using reports_are_counted [OF wf, of "[Report 3 ''build/include'' 4 ''m'',
        Report 3 ''build/include_alpha'' 4 ''m'']" "''a.cc''"]
    by (auto simp: is_report_def accepts_def ShouldPrintError_def init_globals_def
        init_cpplint_state_def DEFAULT_FILTERS_def IsErrorSuppressedByNolint_def py_simps)
qed

text \<open>C7: A line whose first occurrence of NOLINT reads NOLINT(category), for a known category and
  not inside a longer word, suppresses exactly that category on exactly that line: afterwards an
  error is suppressed if and only if it was before or it is of this category on this line.\<close>

theorem nolint_suppresses_category:
  assumes "raw = u @ ''NOLINT('' @ cat @ '')'' @ rest"
    and "py_find raw ''NOLINT'' = int (length u)"
    and "cat \<in> set ERROR_CATEGORIES" and "u = [] \<or> \<not> is_word (last u)"
  shows "\<exists>g'. ParseNolintSuppressions f raw n g = Some g' \<and> lint g' = lint g \<and>
     (\<forall>c l. IsErrorSuppressedByNolint c l g' \<longleftrightarrow>
        IsErrorSuppressedByNolint c l g \<or> (l = n \<and> c = cat))"
proof -
  have ok: "list_all (\<lambda>c. c \<noteq> [] \<and> CHR '')'' \<notin> set c \<and> c \<noteq> [CHR ''*'']) ERROR_CATEGORIES"
    by (simp add: ERROR_CATEGORIES_def)
  then have cat: "cat \<noteq> []" "CHR '')'' \<notin> set cat" "cat \<noteq> [CHR ''*'']"
    using assms(3) by (auto simp: list_all_iff)
  obtain m where m: "Search NOLINT_PAT raw = Some m" "group m 1 = None"
    "group m 2 = Some (''('' @ cat @ '')'')"
    using nolint_search [OF assms(1,2) cat(1,2) assms(4)] by blast
  have "ParseNolintSuppressions f raw n g = Some (suppress (Some cat) n g)"
    using m cat assms(3) by (simp add: ParseNolintSuppressions_def endswith_def slice_inner)
  then show ?thesis by (auto simp: IsErrorSuppressed_suppress)
qed

theorem nolint_suppresses_category_witness:
  "\<exists>g'. ParseNolintSuppressions ''a.cc'' ''int x;  // NOLINT(build/class)'' 5 init_globals = Some g' \<and>
     IsErrorSuppressedByNolint ''build/class'' 5 g' \<and>
     \<not> IsErrorSuppressedByNolint ''build/class'' 6 g'"
proof -
  have none: "\<not> IsErrorSuppressedByNolint c n init_globals" for c n
    by (simp add: IsErrorSuppressedByNolint_def init_globals_def)
  have "\<exists>g'. ParseNolintSuppressions ''a.cc'' ''int x;  // NOLINT(build/class)'' 5 init_globals =
      Some g' \<and> lint g' = lint init_globals \<and> (\<forall>c l. IsErrorSuppressedByNolint c l g' \<longleftrightarrow>
        IsErrorSuppressedByNolint c l init_globals \<or> (l = 5 \<and> c = ''build/class''))"
    by (rule nolint_suppresses_category [of _ "''int x;  // ''" _ "[]"])
       (simp_all add: ERROR_CATEGORIES_def py_simps ord_def)
  then show ?thesis using none by auto
qed

text \<open>C8: Setting filters succeeds exactly when every entry of the comma-separated list, spaces
  stripped and empty ones dropped, starts with a plus or a minus sign; on success the state is
  well-formed, and on failure it is left with the offending filter in it.\<close>

theorem SetFilters_accepts_signed:
  assumes "wf_lint s"
  shows "(fst (SetFilters fs s) = Inr () \<longleftrightarrow>
       (\<forall>f. f \<in> set (map strip (split_char (CHR '','') fs)) \<longrightarrow> f = [] \<or> signed_filter f)) \<and>
     (wf_lint (snd (SetFilters fs s)) \<longleftrightarrow> fst (SetFilters fs s) = Inr ())"
proof -
  have d: "list_all signed_filter DEFAULT_FILTERS"
    by (simp add: DEFAULT_FILTERS_def signed_filter_def)
  have w: "wf_lint (snd (SetFilters fs s)) \<longleftrightarrow>
      list_all signed_filter (filters (snd (SetFilters fs s)))"
    using assms by (auto simp: wf_lint_def SetFilters_def AddFilters_def Let_def per_category_def
        split: option.split)
  have e: "filters (snd (SetFilters fs s)) = DEFAULT_FILTERS @
      filter (\<lambda>f. f \<noteq> []) (map strip (split_char (CHR '','') fs))"
    by (auto simp: SetFilters_def AddFilters_def Let_def split: option.split)
  have o: "fst (SetFilters fs s) = Inr () \<longleftrightarrow>
      list_all signed_filter (filters (snd (SetFilters fs s)))"
    unfolding SetFilters_def by (rule AddFilters_ok)
  have "list_all signed_filter (filters (snd (SetFilters fs s))) \<longleftrightarrow>
      (\<forall>f. f \<in> set (map strip (split_char (CHR '','') fs)) \<longrightarrow> f = [] \<or> signed_filter f)"
    unfolding e using d by (simp only: list_all_append) (auto simp: list_all_iff)
  then show ?thesis using w o by blast
qed

theorem SetFilters_accepts_signed_witness:
  "fst (SetFilters ''-,+build/include_what_you_use'' init_cpplint_state) = Inr () \<and>
   fst (SetFilters ''whitespace,+whitespace/braces'' init_cpplint_state) \<noteq> Inr ()"
proof -
  note t = SetFilters_accepts_signed [OF wf_init]
  have a: "map strip (split_char (CHR '','') ''-,+build/include_what_you_use'') =
      [''-'', ''+build/include_what_you_use'']" by (simp add: py_simps)
  have b: "map strip (split_char (CHR '','') ''whitespace,+whitespace/braces'') =
      [''whitespace'', ''+whitespace/braces'']" by (simp add: py_simps)
  show ?thesis
    using t [of "''-,+build/include_what_you_use''", THEN conjunct1]
      t [of "''whitespace,+whitespace/braces''", THEN conjunct1]
    unfolding a b by (auto simp: signed_filter_def)
qed

end
