(* ===== verification/Cleanse.thy ===== *)
theory Cleanse
  imports Lint_State
begin

text \<open>
  Removal of raw strings, comments and string contents (tools/scripts/cpplint.py, lines 1249 to
  1515): \<open>IsCppString\<close>, \<open>CleanseRawStrings\<close>, \<open>RemoveMultiLineComments\<close>, \<open>CleanseComments\<close> and the
  class \<open>CleansedLines\<close>.  The lines of a file are unicode strings without a line break.
\<close>

subsection \<open>Patterns\<close>

definition RE_PATTERN_CLEANSE_LINE_ESCAPES :: rx where
  "RE_PATTERN_CLEANSE_LINE_ESCAPES = rseq [RLit [bs], RGrp 1 (ralt [RIn [CI (CHR ''a''),
     CI (CHR ''b''), CI (CHR ''f''), CI (CHR ''n''), CI (CHR ''r''), CI (CHR ''t''),
     CI (CHR ''v''), CI (CHR ''?''), CI dq, CI bs, CI sq], RPlus (RIn [CDigit]),
     rseq [RLit ''x'', RPlus (RIn [CR (CHR ''0'') (CHR ''9''), CR (CHR ''a'') (CHR ''f''),
     CR (CHR ''A'') (CHR ''F'')])]])]"

definition RE_PATTERN_C_COMMENTS :: rx where
  "RE_PATTERN_C_COMMENTS = rseq [RLit ''/*'', RStar (ralt [RNotIn [CI (CHR ''*'')],
     rseq [RLit ''*'', RNLook (RLit ''/'')]]), RLit ''*/'']"

definition RE_PATTERN_CLEANSE_LINE_C_COMMENTS :: rx where
  "RE_PATTERN_CLEANSE_LINE_C_COMMENTS = RGrp 1 (ralt
     [rseq [RStar RSp, RE_PATTERN_C_COMMENTS, RStar RSp, REol],
      rseq [RE_PATTERN_C_COMMENTS, RPlus RSp],
      rseq [RPlus RSp, RE_PATTERN_C_COMMENTS, RLook (RIn [CNWord])],
      RE_PATTERN_C_COMMENTS])"

definition LEADING_SPACE_PAT :: rx where
  "LEADING_SPACE_PAT = rseq [RBol, RGrp 1 (RStar RSp), RNSp]"

definition RAW_STRING_PAT :: rx where
  "RAW_STRING_PAT = rseq [RBol, RGrp 1 (RLazy RAny), RWordB, ralt [RLit ''R'', RLit ''u8R'',
     RLit ''uR'', RLit ''UR'', RLit ''LR''], RLit [dq], RGrp 2 (RStar (RNotIn [CSpace, CI bs,
     CI (CHR ''(''), CI (CHR '')'')])), RLit ''('', RGrp 3 (RStar RAny), REol]"

definition IN_COMMENT_PAT :: rx where
  "IN_COMMENT_PAT = rseq [RBol, RStar (RGrp 1 (ralt [RNotIn [CI sq, CI dq], rseq [RLit [sq],
     RStar (RGrp 2 (ralt [rseq [RLit [bs], RAny], RNotIn [CI sq]])), RLit [sq]], rseq [RLit [dq],
     RStar (RGrp 3 (ralt [rseq [RLit [bs], RAny], RNotIn [CI dq]])), RLit [dq]]])), RLit ''//'']"

definition QUOTE_PAT :: rx where
  "QUOTE_PAT = rseq [RBol, RGrp 1 (RStar (RNotIn [CI sq, CI dq])), RGrp 2 (RIn [CI sq, CI dq]),
     RGrp 3 (RStar RAny), REol]"

definition DIGIT_SEPARATOR_PAT :: rx where
  "DIGIT_SEPARATOR_PAT = rseq [RWordB, ralt [rseq [RLit ''0'', ROpt (RIn [CI (CHR ''b''),
     CI (CHR ''B''), CI (CHR ''x''), CI (CHR ''X'')])], RIn [CR (CHR ''1'') (CHR ''9'')]],
     RStar (RIn [CR (CHR ''0'') (CHR ''9''), CR (CHR ''a'') (CHR ''f''),
     CR (CHR ''A'') (CHR ''F'')]), REol]"

definition LITERAL_PAT :: rx where
  "LITERAL_PAT = rseq [RBol, RGrp 1 (RStar (rseq [ROpt (RLit [sq]),
     RIn [CR (CHR ''0'') (CHR ''9''), CR (CHR ''a'') (CHR ''z''), CR (CHR ''A'') (CHR ''Z''),
     CI (CHR ''_'')]])), RGrp 2 (RStar RAny), REol]"

subsection \<open>String constants\<close>

definition IsCppString :: "string \<Rightarrow> bool" where
  "IsCppString line =
     (let l = py_replace [bs, bs] ''XX'' line
      in (int (py_count [dq] l) - int (py_count [bs, dq] l) - int (py_count [sq, dq, sq] l)) mod 2 = 1)"

subsection \<open>Raw strings\<close>

lemma RAW_STRING_length:
  assumes "Match RAW_STRING_PAT line = Some m"
  shows "length (grp m 1) + length (grp m 2) + length (grp m 3) + 3 \<le> length line"
proof -
  from assms obtain st where "reach RAW_STRING_PAT ([], line, []) st"
    "m = mk_mobj ([], line, []) st" by (rule Match_mem)
  then show ?thesis by (auto simp: RAW_STRING_PAT_def reach_simps)
qed

lemma slice_from_find_length:
  assumes "py_find s sub \<ge> 0"
  shows "length (slice_from s (py_find s sub + int (length sub))) + length sub \<le> length s"
proof -
  obtain u v where s: "s = u @ sub @ v" and f: "py_find s sub = int (length u)"
    using assms by (rule py_find_occurs)
  have "slice_from s (int (length u + length sub)) = v" unfolding slice_from_nat s by simp
  then show ?thesis using s f by simp
qed

text \<open>
  The inner loop: the line with its raw strings replaced, and the closing delimiter of the one
  that is still open at the end of the line.
\<close>

function raw_loop :: "string \<Rightarrow> string \<times> string option" where
  "raw_loop line =
     (case Match RAW_STRING_PAT line of
        None \<Rightarrow> (line, None)
      | Some matched \<Rightarrow>
          if matches IN_COMMENT_PAT (grp matched 1) then (line, None)
          else (let delimiter = '')'' @ grp matched 2 @ [dq];
                    end_pos = py_find (grp matched 3) delimiter
                in if end_pos \<ge> 0 then
                     raw_loop (grp matched 1 @ [dq, dq] @
                       slice_from (grp matched 3) (end_pos + int (length delimiter)))
                   else (grp matched 1 @ [dq, dq], Some delimiter)))"
  by pat_completeness auto

termination
proof (relation "measure length")
  fix line x delimiter and end_pos :: int
  assume x: "Match RAW_STRING_PAT line = Some x" "\<not> matches IN_COMMENT_PAT (grp x 1)"
    and d: "delimiter = '')'' @ grp x 2 @ [dq]"
    and e: "end_pos = py_find (grp x 3) delimiter" "0 \<le> end_pos"
  have "length (slice_from (grp x 3) (end_pos + int (length delimiter))) + length delimiter
      \<le> length (grp x 3)"
    using e slice_from_find_length by simp
  then show "(grp x 1 @ [dq, dq] @ slice_from (grp x 3) (end_pos + int (length delimiter)), line)
      \<in> measure length"
    using RAW_STRING_length [OF x(1)] d by simp
qed simp

declare raw_loop.simps [simp del]

text \<open>
  The outer loop carries the open delimiter; \<open>None\<close> would be the failure of
  \<open>leading_space.group(1)\<close> when there is no match.
\<close>

fun CleanseRaw_loop :: "string option \<Rightarrow> string list \<Rightarrow> string list option" where
  "CleanseRaw_loop delimiter [] = Some []"
| "CleanseRaw_loop None (line # raw_lines) =
     (case raw_loop line of (line', delimiter') \<Rightarrow>
        map_option (\<lambda>ls. line' # ls) (CleanseRaw_loop delimiter' raw_lines))"
| "CleanseRaw_loop (Some delimiter) (line # raw_lines) =
     (let end_pos = py_find line delimiter
      in if end_pos \<ge> 0 then
           (case Match LEADING_SPACE_PAT line of
              None \<Rightarrow> None
            | Some leading_space \<Rightarrow>
                (case raw_loop (grp leading_space 1 @ [dq, dq] @
                         slice_from line (end_pos + int (length delimiter))) of
                   (line', delimiter') \<Rightarrow>
                     map_option (\<lambda>ls. line' # ls) (CleanseRaw_loop delimiter' raw_lines)))
         else map_option (\<lambda>ls. [dq, dq] # ls) (CleanseRaw_loop (Some delimiter) raw_lines))"

definition CleanseRawStrings :: "string list \<Rightarrow> string list option" where
  "CleanseRawStrings raw_lines = CleanseRaw_loop None raw_lines"

subsection \<open>Comments over several lines\<close>

definition comment_opens :: "string \<Rightarrow> bool" where
  "comment_opens line =
     (startswith (ustrip line) ''/*'' \<and> py_find_from (ustrip line) ''*/'' 2 < 0)"

definition comment_closes :: "string \<Rightarrow> bool" where
  "comment_closes line = endswith (ustrip line) ''*/''"

function FindNextMultiLineCommentStart :: "string list \<Rightarrow> nat \<Rightarrow> nat" where
  "FindNextMultiLineCommentStart lines lineix =
     (if lineix < length lines then
        (if comment_opens (lines ! lineix) then lineix
         else FindNextMultiLineCommentStart lines (lineix + 1))
      else length lines)"
  by pat_completeness auto
termination by (relation "measure (\<lambda>(lines, lineix). length lines - lineix)") auto

function FindNextMultiLineCommentEnd :: "string list \<Rightarrow> nat \<Rightarrow> nat" where
  "FindNextMultiLineCommentEnd lines lineix =
     (if lineix < length lines then
        (if comment_closes (lines ! lineix) then lineix
         else FindNextMultiLineCommentEnd lines (lineix + 1))
      else length lines)"
  by pat_completeness auto
termination by (relation "measure (\<lambda>(lines, lineix). length lines - lineix)") auto

declare FindNextMultiLineCommentStart.simps [simp del] FindNextMultiLineCommentEnd.simps [simp del]

definition RemoveMultiLineCommentsFromRange :: "string list \<Rightarrow> nat \<Rightarrow> nat \<Rightarrow> string list" where
  "RemoveMultiLineCommentsFromRange lines b e = fold (\<lambda>i ls. ls[i := ''/**/'']) [b..<e] lines"

lemma FindStart_range:
  "lineix \<le> length lines \<Longrightarrow> lineix \<le> FindNextMultiLineCommentStart lines lineix \<and>
     FindNextMultiLineCommentStart lines lineix \<le> length lines"
  by (induction lines lineix rule: FindNextMultiLineCommentStart.induct)
     (subst (1 2) FindNextMultiLineCommentStart.simps, auto)

lemma FindEnd_range:
  "lineix \<le> length lines \<Longrightarrow> lineix \<le> FindNextMultiLineCommentEnd lines lineix \<and>
     FindNextMultiLineCommentEnd lines lineix \<le> length lines"
  by (induction lines lineix rule: FindNextMultiLineCommentEnd.induct)
     (subst (1 2) FindNextMultiLineCommentEnd.simps, auto)

lemma RemoveRange_length [simp]:
  "length (RemoveMultiLineCommentsFromRange lines b e) = length lines"
proof -
  have "length (fold (\<lambda>i ls. ls[i := ''/**/'']) is lines) = length lines" for "is"
    by (induction "is" arbitrary: lines) auto
  then show ?thesis by (simp add: RemoveMultiLineCommentsFromRange_def)
qed

text \<open>The lines after the loop and what it reports.\<close>

function RemoveMultiLineComments_from :: "nat \<Rightarrow> string list \<Rightarrow> string list \<times> action list" where
  "RemoveMultiLineComments_from lineix lines =
     (if lineix < length lines then
        (let lineix_begin = FindNextMultiLineCommentStart lines lineix
         in if lineix_begin \<ge> length lines then (lines, [])
            else (let lineix_end = FindNextMultiLineCommentEnd lines lineix_begin
                  in if lineix_end \<ge> length lines then
                       (lines, [Report (int lineix_begin + 1) ''readability/multiline_comment'' 5
                          ''Could not find end of multi-line comment''])
                     else RemoveMultiLineComments_from (lineix_end + 1)
                       (RemoveMultiLineCommentsFromRange lines lineix_begin (lineix_end + 1))))
      else (lines, []))"
  by pat_completeness auto
termination
proof (relation "measure (\<lambda>(lineix, lines). length lines - lineix)")
  fix lineix and lines :: "string list" and b e :: nat
  assume "lineix < length lines" "b = FindNextMultiLineCommentStart lines lineix"
    "\<not> length lines \<le> b" "e = FindNextMultiLineCommentEnd lines b" "\<not> length lines \<le> e"
  then show "((e + 1, RemoveMultiLineCommentsFromRange lines b (e + 1)), lineix, lines)
      \<in> measure (\<lambda>(lineix, lines). length lines - lineix)"
    using FindStart_range [of lineix lines] FindEnd_range [of b lines] by auto
qed simp

declare RemoveMultiLineComments_from.simps [simp del]

definition RemoveMultiLineComments :: "string list \<Rightarrow> string list \<times> action list" where
  "RemoveMultiLineComments lines = RemoveMultiLineComments_from 0 lines"

subsection \<open>Comments within a line\<close>

definition CleanseComments :: "string \<Rightarrow> string" where
  "CleanseComments line =
     (let commentpos = py_find line ''//'';
          line' = (if commentpos \<noteq> -1 \<and> \<not> IsCppString (slice_to line commentpos)
                   then urstrip (slice_to line commentpos) else line)
      in re_sub RE_PATTERN_CLEANSE_LINE_C_COMMENTS (\<lambda>_. []) line')"

subsection \<open>Collapsing strings\<close>

lemma QUOTE_groups:
  assumes "Match QUOTE_PAT s = Some m"
  shows "length (grp m 1) + length (grp m 3) < length s" "list_all (in_cset (CNeg [CI nl])) (grp m 3)"
proof -
  from assms obtain st where "reach QUOTE_PAT ([], s, []) st" "m = mk_mobj ([], s, []) st"
    by (rule Match_mem)
  then show "length (grp m 1) + length (grp m 3) < length s" "list_all (in_cset (CNeg [CI nl])) (grp m 3)"
    by (auto simp: QUOTE_PAT_def reach_simps)
qed

lemma LITERAL_length:
  assumes "Match LITERAL_PAT s = Some m"
  shows "length (grp m 2) \<le> length s"
proof -
  from assms obtain st where "reach LITERAL_PAT ([], s, []) st" "m = mk_mobj ([], s, []) st"
    by (rule Match_mem)
  then show ?thesis by (auto simp: LITERAL_PAT_def reach_simps)
qed

lemma LITERAL_matches:
  assumes "list_all (in_cset (CNeg [CI nl])) s"
  shows "\<exists>m. Match LITERAL_PAT s = Some m"
proof -
  have "reach LITERAL_PAT ([], s, []) (rev s, [], [(2, 0, s), (1, 0, [])])"
    using assms reach_star_stop by (auto simp: LITERAL_PAT_def reach_simps)
  then show ?thesis unfolding Match_Some_iff by blast
qed

lemma DIGIT_SEPARATOR_nonempty: "searches DIGIT_SEPARATOR_PAT s \<Longrightarrow> s \<noteq> []"
  by (auto simp: searches_reach DIGIT_SEPARATOR_PAT_def reach_simps)

lemma slice_from_find1_length:
  "py_find s [c] \<ge> 0 \<Longrightarrow> length (slice_from s (py_find s [c] + 1)) < length s"
  using slice_from_find_length [of s "[c]"] by simp

text \<open>
  The loop, whose accumulator \<open>collapsed\<close> only grows at the end and so is the prefix of its
  result here; \<open>None\<close> would be the failure of \<open>match_literal.group(1)\<close>.
\<close>

function collapse_loop :: "string \<Rightarrow> string option" where
  "collapse_loop elided =
     (case Match QUOTE_PAT elided of
        None \<Rightarrow> Some elided
      | Some m \<Rightarrow>
          (let head = grp m 1; quote = grp m 2; tail = grp m 3
           in if quote = [dq] then
                (let second_quote = py_find tail [dq]
                 in if second_quote \<ge> 0 then
                      map_option (\<lambda>r. head @ [dq, dq] @ r)
                        (collapse_loop (slice_from tail (second_quote + 1)))
                    else Some elided)
              else if searches DIGIT_SEPARATOR_PAT head then
                (case Match LITERAL_PAT (sq # tail) of
                   None \<Rightarrow> None
                 | Some match_literal \<Rightarrow>
                     map_option (\<lambda>r. head @ py_replace [sq] [] (grp match_literal 1) @ r)
                       (collapse_loop (grp match_literal 2)))
              else
                (let second_quote = py_find tail [sq]
                 in if second_quote \<ge> 0 then
                      map_option (\<lambda>r. head @ [sq, sq] @ r)
                        (collapse_loop (slice_from tail (second_quote + 1)))
                    else Some elided)))"
  by pat_completeness auto

termination
proof (relation "measure length")
  fix elided x x1 x2 x3 and i :: int
  assume x: "Match QUOTE_PAT elided = Some x" "x3 = grp x 3" and i: "i = py_find x3 [dq]" "0 \<le> i"
  show "(slice_from x3 (i + 1), elided) \<in> measure length"
    using slice_from_find1_length [of x3 dq] QUOTE_groups(1) [OF x(1)] x(2) i by simp
next
  fix elided x x1 x2 x3 and i :: int
  assume x: "Match QUOTE_PAT elided = Some x" "x3 = grp x 3" and i: "i = py_find x3 [sq]" "0 \<le> i"
  show "(slice_from x3 (i + 1), elided) \<in> measure length"
    using slice_from_find1_length [of x3 sq] QUOTE_groups(1) [OF x(1)] x(2) i by simp
next
  fix elided x x1 x2 x3 y
  assume x: "Match QUOTE_PAT elided = Some x" "x1 = grp x 1" "x3 = grp x 3"
    and d: "searches DIGIT_SEPARATOR_PAT x1" and y: "Match LITERAL_PAT (sq # x3) = Some y"
  show "(grp y 2, elided) \<in> measure length"
    using LITERAL_length [OF y] QUOTE_groups(1) [OF x(1)] x(2,3) DIGIT_SEPARATOR_nonempty [OF d]
    by (simp add: length_greater_0_conv [symmetric] del: length_greater_0_conv)
qed simp

declare collapse_loop.simps [simp del]

definition CollapseStrings :: "string \<Rightarrow> string option" where
  "CollapseStrings elided =
     (if matches RE_PATTERN_INCLUDE elided then Some elided
      else collapse_loop (re_sub RE_PATTERN_CLEANSE_LINE_ESCAPES (\<lambda>_. []) elided))"

subsection \<open>The four copies of a file\<close>

record cleansed_lines =
  elided :: "string list"
  lines :: "string list"
  raw_lines :: "string list"
  lines_without_raw_strings :: "string list"

fun collapse_all :: "string list \<Rightarrow> string list option" where
  "collapse_all [] = Some []"
| "collapse_all (l # ls) =
     (case CollapseStrings l of None \<Rightarrow> None
      | Some e \<Rightarrow> map_option (\<lambda>es. CleanseComments e # es) (collapse_all ls))"

definition CleansedLines :: "string list \<Rightarrow> cleansed_lines option" where
  "CleansedLines ls =
     (case CleanseRawStrings ls of None \<Rightarrow> None
      | Some without_raw \<Rightarrow>
          (case collapse_all without_raw of None \<Rightarrow> None
           | Some es \<Rightarrow> Some \<lparr>elided = es, lines = map CleanseComments without_raw,
               raw_lines = ls, lines_without_raw_strings = without_raw\<rparr>))"

definition NumLines :: "cleansed_lines \<Rightarrow> nat" where
  "NumLines cl = length (raw_lines cl)"


subsection \<open>The cleansing never fails and keeps the number of lines\<close>

lemma raw_loop_delimiter:
  "snd (raw_loop line) = Some d \<Longrightarrow> \<exists>w. d = CHR '')'' # w"
  by (induction line rule: raw_loop.induct)
     (subst (asm) (2) raw_loop.simps, auto simp: Let_def split: option.splits if_splits)

lemma LEADING_SPACE_matches:
  assumes "c \<in> set s" "\<not> is_ws c"
  shows "\<exists>m. Match LEADING_SPACE_PAT s = Some m"
proof -
  have "dropWhile is_ws s \<noteq> []" using assms by (auto simp: dropWhile_eq_Nil_conv)
  then obtain d v where dv: "dropWhile is_ws s = d # v" "\<not> is_ws d"
    by (metis hd_dropWhile list.exhaust_sel list.sel(1))
  let ?w = "takeWhile is_ws s"
  have s: "s = ?w @ d # v" using dv(1) takeWhile_dropWhile_id [of is_ws s] by simp
  have "list_all (in_cset (CPos [CSpace])) ?w" by (auto simp: list_all_iff dest: set_takeWhileD)
  moreover have "in_cset (CPos [CNSpace]) d" using dv(2) by simp
  ultimately have "reach LEADING_SPACE_PAT ([], s, []) (d # rev ?w, v, [(1, 0, ?w)])"
    using s unfolding LEADING_SPACE_PAT_def by (simp add: reach_simps)
  then show ?thesis unfolding Match_Some_iff by blast
qed

lemma CleanseRaw_loop_total:
  "(\<And>d. delim = Some d \<Longrightarrow> CHR '')'' \<in> set d) \<Longrightarrow>
     \<exists>ls'. CleanseRaw_loop delim ls = Some ls' \<and> length ls' = length ls"
proof (induction delim ls rule: CleanseRaw_loop.induct)
  case (1 delim)
  show ?case by simp
next
  case (2 line ls)
  obtain line' d' where r: "raw_loop line = (line', d')" by force
  then have "CHR '')'' \<in> set d" if "d' = Some d" for d using raw_loop_delimiter [of line d] that by auto
  then show ?case using "2.IH" [OF r [symmetric]] r by auto
next
  case (3 delim line ls)
  show ?case
  proof (cases "py_find line delim \<ge> 0")
    case False
    then show ?thesis using "3.IH"(2) [OF refl] "3.prems" by (auto simp: Let_def)
  next
    case True
    then obtain u v where "line = u @ delim @ v" by (rule py_find_occurs)
    then have "CHR '')'' \<in> set line" using "3.prems" by auto
    then obtain m where m: "Match LEADING_SPACE_PAT line = Some m"
      using LEADING_SPACE_matches [of "CHR '')''" line] by (auto simp: is_ws_def)
    obtain line' d' where r: "raw_loop (grp m 1 @ [dq, dq] @
        slice_from line (py_find line delim + int (length delim))) = (line', d')" by force
    then have "CHR '')'' \<in> set d" if "d' = Some d" for d
      using raw_loop_delimiter [of _ d] that by (metis list.set_intros(1) snd_conv)
    then show ?thesis using "3.IH"(1) [OF refl True m r [symmetric]] True m r by (auto simp: Let_def)
  qed
qed

lemma CleanseRawStrings_total:
  "\<exists>ls'. CleanseRawStrings ls = Some ls' \<and> length ls' = length ls"
  unfolding CleanseRawStrings_def by (rule CleanseRaw_loop_total) simp

lemma collapse_loop_total: "\<exists>r. collapse_loop s = Some r"
proof (induction s rule: collapse_loop.induct)
  case (1 s)
  show ?case
  proof (cases "Match QUOTE_PAT s")
    case None
    then show ?thesis by (subst collapse_loop.simps) simp
  next
    case (Some m)
    have "list_all (in_cset (CNeg [CI nl])) (sq # grp m 3)" using QUOTE_groups(2) [OF Some] by simp
    then obtain l where l: "Match LITERAL_PAT (sq # grp m 3) = Some l" using LITERAL_matches by blast
    note IH = "1.IH" [OF Some refl refl refl]
    show ?thesis
      using IH(1) [OF _ refl] IH(2) [OF _ _ l] IH(3) [OF _ _ refl]
      by (subst collapse_loop.simps) (auto simp: Some l Let_def)
  qed
qed

lemma CollapseStrings_total: "\<exists>e. CollapseStrings s = Some e"
  using collapse_loop_total by (simp add: CollapseStrings_def)

lemma collapse_all_total: "\<exists>es. collapse_all ls = Some es \<and> length es = length ls"
  by (induction ls) (use CollapseStrings_total in \<open>auto split: option.split\<close>)

text \<open>C11: Splitting a file into its four cleansed copies never raises an exception, whatever the
  lines hold, and the four copies have as many lines as the file.\<close>

theorem CleansedLines_total:
  "\<exists>cl. CleansedLines ls = Some cl \<and> raw_lines cl = ls \<and> length (elided cl) = length ls \<and>
     length (lines cl) = length ls \<and> length (lines_without_raw_strings cl) = length ls \<and>
     NumLines cl = length ls"
proof -
  obtain w where w: "CleanseRawStrings ls = Some w" "length w = length ls"
    using CleanseRawStrings_total by blast
  obtain es where "collapse_all w = Some es" "length es = length w"
    using collapse_all_total by blast
  with w show ?thesis by (simp add: CleansedLines_def NumLines_def)
qed

subsection \<open>What the removals do\<close>

text \<open>
  A scanner that reads a line from left to right: a backslash takes the next character with it,
  any other double quote opens or closes a string.
\<close>

fun in_string :: "bool \<Rightarrow> string \<Rightarrow> bool" where
  "in_string b [] = b"
| "in_string b [c] = (if c = dq then \<not> b else b)"
| "in_string b (c # d # s) =
     (if c = bs then in_string b s
      else in_string (if c = dq then \<not> b else b) (d # s))"

definition quote_parity :: "string \<Rightarrow> int" where
  "quote_parity l = int (py_count [dq] l) - int (py_count [bs, dq] l)"

lemma odd_flip: "((1 + (i::int)) mod 2 = 1) \<longleftrightarrow> i mod 2 \<noteq> 1"
  by presburger

lemma quote_parity_plain:
  "list_all (\<lambda>c. c \<noteq> bs \<and> c \<noteq> dq) w \<Longrightarrow> quote_parity (w @ t) = quote_parity t"
  by (induction w) (simp_all add: quote_parity_def)

lemma in_string_parity:
  assumes "list_all (\<lambda>c. c \<noteq> bs \<and> c \<noteq> dq) rep"
  shows "in_string b s \<longleftrightarrow> (quote_parity (py_replace [bs, bs] rep s) mod 2 = 1) \<noteq> b"
proof (induction b s rule: in_string.induct)
  case (1 b)
  show ?case by (simp add: quote_parity_def)
next
  case (2 b c)
  show ?case by (auto simp: quote_parity_def startswith_def)
next
  case (3 b c d s)
  show ?case
  proof (cases "c = bs")
    case True
    show ?thesis
    proof (cases "d = bs")
      case True
      then show ?thesis using "3.IH"(1) \<open>c = bs\<close> quote_parity_plain [OF assms] by simp
    next
      case False
      then show ?thesis using "3.IH"(1) \<open>c = bs\<close> by (auto simp: quote_parity_def)
    qed
  next
    case False
    have r: "py_replace [bs, bs] rep (c # d # s) = c # py_replace [bs, bs] rep (d # s)"
      using False by simp
    have "quote_parity (c # t) = (if c = dq then 1 else 0) + quote_parity t" for t
      using False by (auto simp: quote_parity_def)
    then show ?thesis using "3.IH"(2) False unfolding r by (auto simp: odd_flip simp del: py_replace.simps)
  qed
qed

text \<open>
  The scanner that \<open>IsCppString\<close> amounts to: it steps over a backslash followed by a backslash or
  a double quote, and over the character constant made of a double quote between single quotes;
  any other double quote opens or closes a string.
\<close>

fun string_scan :: "bool \<Rightarrow> string \<Rightarrow> bool" where
  "string_scan b [] = b"
| "string_scan b (c # s) =
     (if c = bs \<and> (startswith s [bs] \<or> startswith s [dq]) then string_scan b (drop 1 s)
      else if c = sq \<and> startswith s [dq, sq] then string_scan b (drop 2 s)
      else string_scan (if c = dq then \<not> b else b) s)"

definition quote_balance :: "string \<Rightarrow> int" where
  "quote_balance l = int (py_count [dq] l) - int (py_count [bs, dq] l) - int (py_count [sq, dq, sq] l)"

lemma replace_Cons: "c \<noteq> bs \<or> \<not> startswith s [bs] \<Longrightarrow>
    py_replace [bs, bs] rep (c # s) = c # py_replace [bs, bs] rep s"
  by (auto simp: startswith_iff)

lemma replace_start:
  assumes "a \<noteq> bs" "a \<noteq> CHR ''X''"
  shows "startswith (py_replace [bs, bs] ''XX'' s) (a # p) \<longleftrightarrow>
     (\<exists>t. s = a # t \<and> startswith (py_replace [bs, bs] ''XX'' t) p)"
  using assms by (cases s) (auto simp: startswith_iff)

lemma replace_start_quotes:
  "startswith (py_replace [bs, bs] ''XX'' s) [dq] \<longleftrightarrow> startswith s [dq]"
  "startswith (py_replace [bs, bs] ''XX'' s) [dq, sq] \<longleftrightarrow> startswith s [dq, sq]"
  using replace_start [of dq s "[]"] replace_start [of dq s "[sq]"] replace_start [of sq _ "[]"]
  by (force simp: startswith_iff)+

lemma string_scan_balance:
  "string_scan b s \<longleftrightarrow> (quote_balance (py_replace [bs, bs] ''XX'' s) mod 2 = 1) \<noteq> b"
proof (induction b s rule: string_scan.induct)
  case (1 b)
  show ?case by (simp add: quote_balance_def)
next
  case (2 b c s)
  let ?r = "py_replace [bs, bs] ''XX''"
  consider (esc) t where "c = bs" "s = bs # t" | (quote) t where "c = bs" "s = dq # t"
    | (char) t where "c = sq" "s = dq # sq # t" | (toggle) "c = dq"
    | (plain) "c \<noteq> dq" "\<not> (c = bs \<and> (startswith s [bs] \<or> startswith s [dq]))" "\<not> (c = sq \<and> startswith s [dq, sq])"
    by (auto simp: startswith_iff)
  then show ?case
  proof cases
    case esc
    then show ?thesis using "2.IH"(1) by (simp add: quote_balance_def)
  next
    case quote
    then show ?thesis using "2.IH"(1) by (simp add: quote_balance_def)
  next
    case char
    then have "quote_balance (?r (c # s)) = quote_balance (?r t)" by (simp add: quote_balance_def)
    then show ?thesis using "2.IH"(2) char by simp
  next
    case toggle
    have "quote_balance (?r (c # s)) = 1 + quote_balance (?r s)"
      using toggle by (simp add: quote_balance_def)
    then show ?thesis using "2.IH"(3) toggle by (auto simp: odd_flip simp del: py_replace.simps)
  next
    case plain
    have r: "?r (c # s) = c # ?r s" using plain(2) by (intro replace_Cons) auto
    have "\<not> (c = bs \<and> startswith s [dq])" using plain(2) by blast
    then have q: "quote_balance (c # ?r s) = quote_balance (?r s)"
      using plain replace_start_quotes [of s] unfolding quote_balance_def
      by (simp only: py_count.simps startswith_Cons list.distinct if_False simp_thms)
    have "string_scan b (c # s) = string_scan b s" using plain by (simp only: string_scan.simps if_False)
    moreover have "string_scan b s \<longleftrightarrow> (quote_balance (?r s) mod 2 = 1) \<noteq> b"
      using "2.IH"(3) [OF plain(2,3)] plain(1) by (simp only: if_False)
    ultimately show ?thesis unfolding r q by simp
  qed
qed

text \<open>C12: For every line, the three counts of quotes tell exactly whether a scanner that reads the
  line from left to right ends inside a string.  The scanner steps over an escaped backslash, an
  escaped double quote and a double quote between single quotes, wherever they stand, and takes any
  other double quote as the beginning or the end of a string.\<close>

theorem IsCppString_scans: "IsCppString line \<longleftrightarrow> string_scan False line"
  by (simp add: IsCppString_def string_scan_balance quote_balance_def Let_def)

text \<open>
  The intended removal, on the list itself: lines are copied up to one that opens a comment;
  the lines from there to the first one that closes it are blanked; when no line closes it, the
  rest is left as it is and the opening line is reported.  \<open>n\<close> counts the lines before.
\<close>

function blank_comments :: "nat \<Rightarrow> string list \<Rightarrow> string list \<times> nat option" where
  "blank_comments n ls =
     (let code = takeWhile (\<lambda>l. \<not> comment_opens l) ls;
          rest = dropWhile (\<lambda>l. \<not> comment_opens l) ls;
          body = takeWhile (\<lambda>l. \<not> comment_closes l) rest
      in if rest = [] then (ls, None)
         else if length body = length rest then (ls, Some (n + length code))
         else (case blank_comments (n + length code + length body + 1) (drop (length body + 1) rest) of
                 (tail, r) \<Rightarrow> (code @ replicate (length body + 1) ''/**/'' @ tail, r)))"
  by pat_completeness auto
termination
proof (relation "measure (\<lambda>(n, ls). length ls)")
  fix n and ls code rest body :: "string list"
  assume "code = takeWhile (\<lambda>l. \<not> comment_opens l) ls" "rest = dropWhile (\<lambda>l. \<not> comment_opens l) ls"
    "rest \<noteq> []"
  then have "length rest \<le> length ls" "0 < length rest" by (simp_all add: length_dropWhile_le)
  then show "((n + length code + length body + 1, drop (length body + 1) rest), n, ls)
      \<in> measure (\<lambda>(n, ls). length ls)" unfolding in_measure split_conv length_drop by linarith
qed simp

declare blank_comments.simps [simp del]

lemma FindStart_takeWhile:
  "n \<le> length ls \<Longrightarrow> FindNextMultiLineCommentStart ls n =
     n + length (takeWhile (\<lambda>l. \<not> comment_opens l) (drop n ls))"
proof (induction ls n rule: FindNextMultiLineCommentStart.induct)
  case (1 ls n)
  then show ?case
    by (subst FindNextMultiLineCommentStart.simps)
       (auto simp: Cons_nth_drop_Suc [symmetric])
qed

lemma FindEnd_takeWhile:
  "n \<le> length ls \<Longrightarrow> FindNextMultiLineCommentEnd ls n =
     n + length (takeWhile (\<lambda>l. \<not> comment_closes l) (drop n ls))"
proof (induction ls n rule: FindNextMultiLineCommentEnd.induct)
  case (1 ls n)
  then show ?case
    by (subst FindNextMultiLineCommentEnd.simps)
       (auto simp: Cons_nth_drop_Suc [symmetric])
qed

lemma RemoveRange_split:
  "b \<le> e \<Longrightarrow> e \<le> length ls \<Longrightarrow>
     RemoveMultiLineCommentsFromRange ls b e = take b ls @ replicate (e - b) ''/**/'' @ drop e ls"
proof (induction e)
  case 0
  then show ?case by (simp add: RemoveMultiLineCommentsFromRange_def)
next
  case (Suc e)
  show ?case
  proof (cases "b = Suc e")
    case True
    then show ?thesis by (simp add: RemoveMultiLineCommentsFromRange_def)
  next
    case False
    then have IH: "RemoveMultiLineCommentsFromRange ls b e =
        take b ls @ replicate (e - b) ''/**/'' @ drop e ls" using Suc by simp
    have "RemoveMultiLineCommentsFromRange ls b (Suc e) =
        (RemoveMultiLineCommentsFromRange ls b e)[e := ''/**/'']"
      using False Suc.prems by (simp add: RemoveMultiLineCommentsFromRange_def)
    moreover have "drop e ls = ls ! e # drop (Suc e) ls" "Suc e - b = Suc (e - b)"
      using False Suc.prems by (simp_all add: Cons_nth_drop_Suc Suc_diff_le)
    ultimately show ?thesis
      using False Suc.prems by (simp add: IH list_update_append replicate_app_Cons_same)
  qed
qed

definition comment_reports :: "nat option \<Rightarrow> action list" where
  "comment_reports r = (case r of None \<Rightarrow> []
     | Some k \<Rightarrow> [Report (int k + 1) ''readability/multiline_comment'' 5
         ''Could not find end of multi-line comment''])"


lemma RemoveMultiLineComments_from_blank:
  "n \<le> length ls \<Longrightarrow> RemoveMultiLineComments_from n ls =
     (case blank_comments n (drop n ls) of (tail, r) \<Rightarrow> (take n ls @ tail, comment_reports r))"
proof (induction n ls rule: RemoveMultiLineComments_from.induct)
  case (1 n ls)
  define b where "b = FindNextMultiLineCommentStart ls n"
  define e where "e = FindNextMultiLineCommentEnd ls b"
  let ?code = "takeWhile (\<lambda>l. \<not> comment_opens l) (drop n ls)"
  let ?rest = "dropWhile (\<lambda>l. \<not> comment_opens l) (drop n ls)"
  let ?body = "takeWhile (\<lambda>l. \<not> comment_closes l) ?rest"
  have b: "b = n + length ?code" using "1.prems" FindStart_takeWhile b_def by simp
  have rest: "?rest = drop b ls" unfolding b dropWhile_eq_drop by (simp add: add.commute)
  have b_le: "b \<le> length ls" using FindStart_range [OF "1.prems"] b_def by simp
  have e: "e = b + length ?body" using b_le FindEnd_takeWhile e_def rest by simp
  have code: "take b ls = take n ls @ ?code"
    unfolding b take_add by (metis takeWhile_eq_take)
  consider "b = length ls" | "b < length ls" "e = length ls" | "n < length ls" "b < length ls" "e < length ls"
    using b_le b FindEnd_range [OF b_le] e_def by linarith
  then show ?case
  proof cases
    case 1
    then have "blank_comments n (drop n ls) = (drop n ls, None)"
      using rest by (subst blank_comments.simps) (simp only: Let_def drop_all order_refl if_True simp_thms)
    then show ?thesis using 1
      by (subst RemoveMultiLineComments_from.simps)
         (simp add: Let_def b_def [symmetric] comment_reports_def)
  next
    case 2
    then have "?rest \<noteq> []" "length ?body = length ?rest" using rest e by simp_all
    then have "blank_comments n (drop n ls) = (drop n ls, Some b)"
      unfolding b by (subst blank_comments.simps) (simp only: Let_def if_True if_False simp_thms)
    moreover have "n < length ls" using 2 b by simp
    ultimately show ?thesis using 2
      by (subst RemoveMultiLineComments_from.simps)
         (simp add: Let_def b_def [symmetric] e_def [symmetric] comment_reports_def)
  next
    case True: 3
    let ?ls = "RemoveMultiLineCommentsFromRange ls b (e + 1)"
    have ls: "?ls = take n ls @ ?code @ replicate (length ?body + 1) ''/**/'' @ drop (e + 1) ls"
      using RemoveRange_split [of b "e + 1" ls] True e code by simp
    have dr: "drop (e + 1) ?ls = drop (e + 1) ls" "take (e + 1) ?ls =
        take n ls @ ?code @ replicate (length ?body + 1) ''/**/''"
      unfolding ls using True e b by simp_all
    have "RemoveMultiLineComments_from n ls = RemoveMultiLineComments_from (e + 1) ?ls"
      using True by (subst RemoveMultiLineComments_from.simps)
        (simp add: Let_def b_def [symmetric] e_def [symmetric])
    also have "\<dots> = (case blank_comments (e + 1) (drop (e + 1) ls) of
        (tail, r) \<Rightarrow> (take (e + 1) ?ls @ tail, comment_reports r))"
      using "1.IH" [OF _ b_def _ e_def] True dr(1) by simp
    also have "\<dots> = (case blank_comments n (drop n ls) of (tail, r) \<Rightarrow> (take n ls @ tail, comment_reports r))"
    proof -
      have "?rest \<noteq> []" "length ?body \<noteq> length ?rest" "n + length ?code + length ?body + 1 = e + 1"
        "drop (length ?body + 1) ?rest = drop (e + 1) ls" using rest True e b by (simp_all add: ac_simps)
      then have "blank_comments n (drop n ls) = (case blank_comments (e + 1) (drop (e + 1) ls) of
          (tail, r) \<Rightarrow> (?code @ replicate (length ?body + 1) ''/**/'' @ tail, r))"
        by (subst blank_comments.simps) (simp only: Let_def if_False)
      then show ?thesis unfolding dr(2) by (simp split: prod.split)
    qed
    finally show ?thesis .
  qed
qed

text \<open>C13: The loops over line numbers that blank out comments over several lines do, in place,
  exactly the removal described on the list of lines, and report exactly the unclosed comment.\<close>

theorem RemoveMultiLineComments_refines:
  "RemoveMultiLineComments ls =
     (fst (blank_comments 0 ls), comment_reports (snd (blank_comments 0 ls)))"
  unfolding RemoveMultiLineComments_def
  by (simp add: RemoveMultiLineComments_from_blank split: prod.split)


lemma QUOTE_none: "sq \<notin> set s \<Longrightarrow> dq \<notin> set s \<Longrightarrow> Match QUOTE_PAT s = None"
proof (rule ccontr)
  assume s: "sq \<notin> set s" "dq \<notin> set s" and "Match QUOTE_PAT s \<noteq> None"
  then obtain st where "reach QUOTE_PAT ([], s, []) st" using Match_Some_iff by blast
  then show False using s by (auto simp: QUOTE_PAT_def reach_simps)
qed

lemma py_find_char_none: "c \<notin> set s \<Longrightarrow> py_find s [c] = -1"
  unfolding py_find_minus by (auto simp: startswith_iff)

lemma py_find_char: "c \<notin> set u \<Longrightarrow> py_find (u @ c # v) [c] = int (length u)"
  unfolding py_find_split
  by (intro exI [of _ u] exI [of _ "c # v"])
     (auto simp: startswith_iff append_eq_append_conv2 append_eq_Cons_conv)


text \<open>
  The escape sequences that are removed: a backslash before one of the characters of
  \<open>simple_escapes\<close>, before digits, or before x and hexadecimal digits.
\<close>

definition is_hex :: "char \<Rightarrow> bool" where
  "is_hex c = (is_digit c \<or> 97 \<le> ord c \<and> ord c \<le> 102 \<or> 65 \<le> ord c \<and> ord c \<le> 70)"

definition simple_escapes :: string where
  "simple_escapes = ''abfnrtv?'' @ [dq, bs, sq]"

fun escape_length :: "string \<Rightarrow> nat" where
  "escape_length (c # d # s) =
     (if c \<noteq> bs then 0
      else if d \<in> set simple_escapes then 2
      else if is_digit d then 2 + length (takeWhile is_digit s)
      else if d = CHR ''x'' \<and> s \<noteq> [] \<and> is_hex (hd s) then 2 + length (takeWhile is_hex s)
      else 0)"
| "escape_length s = 0"

definition drop_escapes :: "string \<Rightarrow> string" where
  "drop_escapes s = cut_matches escape_length s"
lemma escape_length_le: "escape_length s \<le> length s"
  by (cases s rule: escape_length.cases) (auto simp: length_takeWhile_le)

lemma hex_set: "in_cset (CPos [CR (CHR ''0'') (CHR ''9''), CR (CHR ''a'') (CHR ''f''), CR (CHR ''A'') (CHR ''F'')]) = is_hex"
  by (intro ext) (simp add: is_hex_def is_digit_def ord_def)

lemma digit_set: "in_cset (CPos [CDigit]) = is_digit"
  by (intro ext) simp

lemma simple_set:
  "in_cset (CPos [CI (CHR ''a''), CI (CHR ''b''), CI (CHR ''f''), CI (CHR ''n''), CI (CHR ''r''), CI (CHR ''t''),
     CI (CHR ''v''), CI (CHR ''?''), CI dq, CI bs, CI sq]) d \<longleftrightarrow> d \<in> set simple_escapes"
  by (simp add: simple_escapes_def)

text \<open>Names for the parts of the patterns.\<close>

definition SIMPLE_ESC :: rx where
  "SIMPLE_ESC = RIn [CI (CHR ''a''), CI (CHR ''b''), CI (CHR ''f''), CI (CHR ''n''), CI (CHR ''r''), CI (CHR ''t''),
     CI (CHR ''v''), CI (CHR ''?''), CI dq, CI bs, CI sq]"
definition HEX :: rx where
  "HEX = RIn [CR (CHR ''0'') (CHR ''9''), CR (CHR ''a'') (CHR ''f''), CR (CHR ''A'') (CHR ''F'')]"
lemma ESC_def: "RE_PATTERN_CLEANSE_LINE_ESCAPES =
   RSeq (RLit [bs]) (RGrp 1 (RAlt SIMPLE_ESC (RAlt (RPlus (RIn [CDigit])) (RSeq (RLit ''x'') (RPlus HEX)))))"
  by (simp add: RE_PATTERN_CLEANSE_LINE_ESCAPES_def SIMPLE_ESC_def HEX_def)

lemma escape_first:
  assumes "first (RAlt SIMPLE_ESC (RAlt (RPlus (RIn [CDigit])) (RSeq (RLit ''x'') (RPlus HEX))))
     (bs # pre, w @ t, []) (rev w @ bs # pre, t, cs)"
  shows "\<exists>cs. first RE_PATTERN_CLEANSE_LINE_ESCAPES (pre, bs # w @ t, []) (rev w @ bs # pre, t, cs)"
proof -
  have "first (RLit [bs]) (pre, [bs] @ w @ t, []) (rev [bs] @ pre, w @ t, [])" by (rule first_lit)
  then have "first (RLit [bs]) (pre, bs # w @ t, []) (bs # pre, w @ t, [])" by simp
  from first_seq [OF this first_grp [OF assms, of 1]] show ?thesis unfolding ESC_def close_grp.simps by blast
qed

lemma escape_digits:
  assumes "d \<notin> set simple_escapes" "is_digit d"
  shows "\<exists>cs. first RE_PATTERN_CLEANSE_LINE_ESCAPES (pre, bs # d # s, [])
     (rev (d # takeWhile is_digit s) @ bs # pre, dropWhile is_digit s, cs)"
proof -
  let ?w = "d # takeWhile is_digit s" and ?t = "dropWhile is_digit s"
  have "fails SIMPLE_ESC (bs # pre, ?w @ ?t, [])"
    using assms by (simp add: fails_reach SIMPLE_ESC_def reach_simps simple_set del: in_cset.simps)
  moreover have "first (RPlus (RIn [CDigit])) (bs # pre, ?w @ ?t, []) (rev ?w @ bs # pre, ?t, [])"
    using assms takeWhile_split [where P = is_digit and s = s] by (intro first_plus_set) (auto simp: list_all_iff)
  ultimately have "\<exists>cs. first RE_PATTERN_CLEANSE_LINE_ESCAPES (pre, bs # ?w @ ?t, []) (rev ?w @ bs # pre, ?t, cs)"
    by (intro escape_first first_alt2 first_alt1)
  then show ?thesis by simp
qed

lemma escape_hex:
  assumes "s \<noteq> []" "is_hex (hd s)" "CHR ''x'' \<notin> set simple_escapes" "\<not> is_digit (CHR ''x'')"
  shows "\<exists>cs. first RE_PATTERN_CLEANSE_LINE_ESCAPES (pre, bs # CHR ''x'' # s, [])
     (rev (CHR ''x'' # takeWhile is_hex s) @ bs # pre, dropWhile is_hex s, cs)"
proof -
  let ?w = "takeWhile is_hex s" and ?t = "dropWhile is_hex s"
  have "?w \<noteq> []" using assms by (cases s) auto
  then have "first (RPlus HEX) (CHR ''x'' # bs # pre, ?w @ ?t, []) (rev ?w @ CHR ''x'' # bs # pre, ?t, [])"
    unfolding HEX_def using takeWhile_split [where P = is_hex and s = s]
    by (intro first_plus_set) (auto simp: hex_set simp del: in_cset.simps)
  moreover have "first (RLit ''x'') (bs # pre, ''x'' @ ?w @ ?t, []) (rev ''x'' @ bs # pre, ?w @ ?t, [])"
    by (rule first_lit)
  ultimately have "first (RSeq (RLit ''x'') (RPlus HEX)) (bs # pre, (''x'' @ ?w) @ ?t, [])
      (rev (''x'' @ ?w) @ bs # pre, ?t, [])" by (auto intro: first_seq)
  moreover have "fails SIMPLE_ESC (bs # pre, (''x'' @ ?w) @ ?t, [])"
    using assms by (simp add: fails_reach SIMPLE_ESC_def reach_simps simple_set del: in_cset.simps)
  moreover have "fails (RPlus (RIn [CDigit])) (bs # pre, (''x'' @ ?w) @ ?t, [])"
    using assms by (simp add: fails_reach reach_simps)
  ultimately have "\<exists>cs. first RE_PATTERN_CLEANSE_LINE_ESCAPES (pre, bs # (''x'' @ ?w) @ ?t, [])
      (rev (''x'' @ ?w) @ bs # pre, ?t, cs)"
    by (intro escape_first first_alt2)
  then show ?thesis by simp
qed

lemma escape_none:
  assumes "escape_length post = 0"
  shows "fails RE_PATTERN_CLEANSE_LINE_ESCAPES (pre, post, [])"
proof -
  have "\<not> reach RE_PATTERN_CLEANSE_LINE_ESCAPES (pre, post, []) st" for st
    using assms by (cases post rule: escape_length.cases)
      (auto simp: ESC_def SIMPLE_ESC_def HEX_def reach_simps hex_set simple_set digit_set
        simp del: in_cset.simps split: if_splits)
  then show ?thesis by (simp add: fails_reach)
qed

lemma escape_match:
  "if escape_length post = 0 then fails RE_PATTERN_CLEANSE_LINE_ESCAPES (pre, post, [])
   else \<exists>cs. first RE_PATTERN_CLEANSE_LINE_ESCAPES (pre, post, [])
     (rev (take (escape_length post) post) @ pre, drop (escape_length post) post, cs)"
proof (cases "escape_length post = 0")
  case True
  then show ?thesis by (simp add: escape_none)
next
  case False
  then obtain d s where post: "post = bs # d # s"
    by (cases post rule: escape_length.cases) (auto split: if_splits)
  consider (simple) "d \<in> set simple_escapes" | (digit) "d \<notin> set simple_escapes" "is_digit d"
    | (hex) "d = CHR ''x''" "s \<noteq> []" "is_hex (hd s)" "d \<notin> set simple_escapes" "\<not> is_digit d"
    using False post by (auto split: if_splits)
  then show ?thesis
  proof cases
    case simple
    then have "first SIMPLE_ESC (bs # pre, [d] @ s, []) (rev [d] @ bs # pre, s, [])"
      unfolding SIMPLE_ESC_def using first_set simple_set by simp
    from escape_first [OF first_alt1 [OF this]] show ?thesis using False post simple by (simp add: numeral_2_eq_2)
  next
    case digit
    then show ?thesis using False post escape_digits [OF digit, of pre s]
      by (simp add: numeral_2_eq_2 flip: takeWhile_eq_take dropWhile_eq_drop)
  next
    case hex
    then show ?thesis using False post escape_hex [of s pre]
      by (simp add: numeral_2_eq_2 flip: takeWhile_eq_take dropWhile_eq_drop)
  qed
qed

lemma re_sub_escapes: "re_sub RE_PATTERN_CLEANSE_LINE_ESCAPES (\<lambda>_. []) s = drop_escapes s"
  unfolding drop_escapes_def by (rule re_sub_cut [OF escape_match escape_length_le])

text \<open>
  A single quote behind a number is a digit separator.  The number is the word, in the sense of
  identifier characters, that the text before the quote ends with; \<open>number_tail\<close> reads on from
  the quote and splits off the further digits, without their separators.
\<close>

definition ending_word :: "string \<Rightarrow> string" where
  "ending_word s = rev (takeWhile is_word (rev s))"

fun number_word :: "string \<Rightarrow> bool" where
  "number_word [] = False"
| "number_word (c # s) =
     (if c = CHR ''0'' \<and> s \<noteq> [] \<and> hd s \<in> set ''bBxX'' then list_all is_hex (tl s)
      else is_digit c \<and> list_all is_hex s)"

fun number_tail :: "string \<Rightarrow> string \<times> string" where
  "number_tail [] = ([], [])"
| "number_tail [c] = (if is_word c then ([c], []) else ([], [c]))"
| "number_tail (c # d # s) =
     (if is_word c then apfst ((#) c) (number_tail (d # s))
      else if c = sq \<and> is_word d then apfst ((#) d) (number_tail s)
      else ([], c # d # s))"

lemma number_tail_length: "length (snd (number_tail s)) \<le> length s"
  by (induction s rule: number_tail.induct) auto

lemma hex_word: "is_hex c \<Longrightarrow> is_word c"
  by (auto simp: is_hex_def is_word_def is_lower_def is_upper_def)

lemma number_word_chars: "number_word w \<Longrightarrow> list_all is_word w"
proof (induction w rule: number_word.induct)
  case (2 c s)
  have "list_all is_word ''0bBxX''" by code_simp
  then show ?case using 2 hex_word
    by (cases s) (auto simp: list_all_iff is_word_def split: if_splits)
qed simp

lemma ending_word_split:
  assumes "list_all is_word w" "u = [] \<or> \<not> is_word (last u)"
  shows "ending_word (u @ w) = w"
proof -
  have "takeWhile is_word (rev w @ rev u) = rev w @ takeWhile is_word (rev u)"
    using assms(1) by (intro takeWhile_append2) (auto simp: list_all_iff)
  moreover have "takeWhile is_word (rev u) = []" using assms(2) by (cases u rule: rev_cases) auto
  ultimately show ?thesis by (simp add: ending_word_def)
qed

lemma ending_word_ends:
  obtains u where "s = u @ ending_word s" "u = [] \<or> \<not> is_word (last u)"
proof -
  have "s = rev (dropWhile is_word (rev s)) @ ending_word s"
    by (metis ending_word_def rev_append rev_rev_ident takeWhile_dropWhile_id)
  moreover have "rev (dropWhile is_word (rev s)) = [] \<or> \<not> is_word (last (rev (dropWhile is_word (rev s))))"
    using hd_dropWhile [of is_word "rev s"] by (auto simp: last_rev)
  ultimately show ?thesis by (rule that)
qed

definition NUMBER_START :: rx where
  "NUMBER_START = RAlt (RSeq (RLit ''0'') (ROpt (RIn [CI (CHR ''b''), CI (CHR ''B''), CI (CHR ''x''), CI (CHR ''X'')])))
     (RIn [CR (CHR ''1'') (CHR ''9'')])"

lemma DIGIT_def: "DIGIT_SEPARATOR_PAT = RSeq RWordB (RSeq NUMBER_START (RSeq (RStar HEX) REol))"
  by (simp add: DIGIT_SEPARATOR_PAT_def NUMBER_START_def HEX_def)

lemma hex_end:
  assumes "nl \<notin> set v"
  shows "(\<exists>st. reach (RSeq (RStar HEX) REol) (pre, v, cs) st) \<longleftrightarrow> list_all is_hex v"
  using assms by (auto simp: HEX_def reach_simps hex_set simp del: in_cset.simps) (metis append_Nil2)

lemma number_start:
  "reach NUMBER_START (pre, v, cs) st \<longleftrightarrow>
     (\<exists>t. v = CHR ''0'' # t \<and> st = (CHR ''0'' # pre, t, cs)) \<or>
     (\<exists>c t. v = CHR ''0'' # c # t \<and> c \<in> set ''bBxX'' \<and> st = (c # CHR ''0'' # pre, t, cs)) \<or>
     (\<exists>c t. v = c # t \<and> c \<noteq> CHR ''0'' \<and> is_digit c \<and> st = (c # pre, t, cs))"
proof -
  have "in_cset (CPos [CR (CHR ''1'') (CHR ''9'')]) c \<longleftrightarrow> c \<noteq> CHR ''0'' \<and> is_digit c" for c
  proof -
    have "list_all (\<lambda>c. in_cset (CPos [CR (CHR ''1'') (CHR ''9'')]) c \<longleftrightarrow> c \<noteq> CHR ''0'' \<and> is_digit c) Enum.enum"
      by code_simp
    then show ?thesis by (simp only: list_all_iff enum_UNIV UNIV_I ball_UNIV)
  qed
  moreover have "in_cset (CPos [CI (CHR ''b''), CI (CHR ''B''), CI (CHR ''x''), CI (CHR ''X'')]) c \<longleftrightarrow> c \<in> set ''bBxX''" for c
    by simp
  ultimately show ?thesis
    by (auto simp: NUMBER_START_def reach_simps simp del: in_cset.simps)
qed

lemma ex_number_start:
  "(\<exists>st. reach NUMBER_START (pre, v, cs) st \<and> P st) \<longleftrightarrow>
     (\<exists>t. v = CHR ''0'' # t \<and> P (CHR ''0'' # pre, t, cs)) \<or>
     (\<exists>c t. v = CHR ''0'' # c # t \<and> c \<in> set ''bBxX'' \<and> P (c # CHR ''0'' # pre, t, cs)) \<or>
     (\<exists>c t. v = c # t \<and> c \<noteq> CHR ''0'' \<and> is_digit c \<and> P (c # pre, t, cs))"
  unfolding number_start by blast

lemma number_word_alt:
  "number_word v \<longleftrightarrow> (\<exists>t. v = CHR ''0'' # t \<and> list_all is_hex t) \<or>
     (\<exists>c t. v = CHR ''0'' # c # t \<and> c \<in> set ''bBxX'' \<and> list_all is_hex t) \<or>
     (\<exists>c t. v = c # t \<and> c \<noteq> CHR ''0'' \<and> is_digit c \<and> list_all is_hex t)"
proof (cases v)
  case (Cons c s)
  show ?thesis
  proof (cases "c = CHR ''0'' \<and> s \<noteq> [] \<and> hd s \<in> set ''bBxX''")
    case True
    then have "list_all is_hex s \<Longrightarrow> list_all is_hex (tl s)" by (cases s) simp_all
    then show ?thesis using True Cons by (cases s) auto
  next
    case False
    have "is_digit (CHR ''0'')" by code_simp
    with False have "number_word v \<longleftrightarrow> is_digit c \<and> list_all is_hex s"
      unfolding Cons by (simp only: number_word.simps if_False)
    then show ?thesis using False Cons \<open>is_digit (CHR ''0'')\<close>
      by (cases "c = CHR ''0''") (auto simp del: number_word.simps)
  qed
qed simp


lemma DIGIT_SEPARATOR_at:
  assumes "nl \<notin> set v"
  shows "(\<exists>st. reach DIGIT_SEPARATOR_PAT (pre, v, []) st) \<longleftrightarrow> number_word v \<and> \<not> head_word pre"
proof -
  have "(\<exists>st. reach DIGIT_SEPARATOR_PAT (pre, v, []) st) \<longleftrightarrow> head_word pre \<noteq> head_word v \<and>
     (\<exists>st1. reach NUMBER_START (pre, v, []) st1 \<and> (\<exists>st. reach (RSeq (RStar HEX) REol) st1 st))"
    unfolding DIGIT_def reach_seq [of RWordB] reach_seq [of NUMBER_START] reach_wordb by blast
  also have "\<dots> \<longleftrightarrow> head_word pre \<noteq> head_word v \<and> number_word v"
  proof -
    let ?P = "\<lambda>st1. \<exists>st. reach (RSeq (RStar HEX) REol) st1 st"
    have P: "?P (p, t, []) \<longleftrightarrow> list_all is_hex t" if "v = u @ t" for u p t
      using assms that by (intro hex_end) simp
    have "(\<exists>t. v = CHR ''0'' # t \<and> ?P (CHR ''0'' # pre, t, [])) \<longleftrightarrow> (\<exists>t. v = CHR ''0'' # t \<and> list_all is_hex t)"
      using P [of "[CHR ''0'']"] by (metis append_Cons append_Nil)
    moreover have "(\<exists>c t. v = CHR ''0'' # c # t \<and> c \<in> set ''bBxX'' \<and> ?P (c # CHR ''0'' # pre, t, [])) \<longleftrightarrow>
        (\<exists>c t. v = CHR ''0'' # c # t \<and> c \<in> set ''bBxX'' \<and> list_all is_hex t)"
      using P [of "[CHR ''0'', _]"] by (metis append_Cons append_Nil)
    moreover have "(\<exists>c t. v = c # t \<and> c \<noteq> CHR ''0'' \<and> is_digit c \<and> ?P (c # pre, t, [])) \<longleftrightarrow>
        (\<exists>c t. v = c # t \<and> c \<noteq> CHR ''0'' \<and> is_digit c \<and> list_all is_hex t)"
      using P [of "[_]"] by (metis append_Cons append_Nil)
    ultimately show ?thesis unfolding ex_number_start number_word_alt by (simp only:)
  qed
  also have "\<dots> \<longleftrightarrow> number_word v \<and> \<not> head_word pre"
    using number_word_chars [of v] by (cases v) (auto simp: head_word_def)
  finally show ?thesis .
qed

lemma DIGIT_SEPARATOR_iff:
  assumes "nl \<notin> set s"
  shows "searches DIGIT_SEPARATOR_PAT s \<longleftrightarrow> number_word (ending_word s)"
proof
  assume "searches DIGIT_SEPARATOR_PAT s"
  then obtain u v where s: "s = u @ v" "number_word v" "\<not> head_word (rev u)"
    unfolding searches_reach using DIGIT_SEPARATOR_at assms by (metis UnI2 set_append)
  then have "u = [] \<or> \<not> is_word (last u)" by (cases u rule: rev_cases) (auto simp: head_word_def)
  with s show "number_word (ending_word s)" using ending_word_split [OF number_word_chars] by simp
next
  assume n: "number_word (ending_word s)"
  obtain u where u: "s = u @ ending_word s" "u = [] \<or> \<not> is_word (last u)" by (rule ending_word_ends)
  then have "\<not> head_word (rev u)" by (cases u rule: rev_cases) (auto simp: head_word_def)
  moreover have "nl \<notin> set (ending_word s)" using assms u(1) by (metis UnI2 set_append)
  ultimately have "\<exists>st. reach DIGIT_SEPARATOR_PAT (rev u, ending_word s, []) st" using n DIGIT_SEPARATOR_at by blast
  with u(1) show "searches DIGIT_SEPARATOR_PAT s" unfolding searches_reach by blast
qed

definition LITERAL_STEP :: rx where
  "LITERAL_STEP = RSeq (ROpt (RLit [sq])) (RIn [CR (CHR ''0'') (CHR ''9''), CR (CHR ''a'') (CHR ''z''), CR (CHR ''A'') (CHR ''Z''),
     CI (CHR ''_'')])"

lemma word_set: "in_cset (CPos [CR (CHR ''0'') (CHR ''9''), CR (CHR ''a'') (CHR ''z''), CR (CHR ''A'') (CHR ''Z''),
     CI (CHR ''_'')]) = is_word"
  by (intro ext) (auto simp: is_word_def is_digit_def is_lower_def is_upper_def ord_def)

lemma LITERAL_def: "LITERAL_PAT = RSeq RBol (RSeq (RGrp 1 (RStar LITERAL_STEP)) (RSeq (RGrp 2 (RStar RAny)) REol))"
  by (simp add: LITERAL_PAT_def LITERAL_STEP_def)

lemma first_word: "is_word c \<Longrightarrow> first (RIn [CR (CHR ''0'') (CHR ''9''), CR (CHR ''a'') (CHR ''z''), CR (CHR ''A'') (CHR ''Z''),
     CI (CHR ''_'')]) (pre, c # s, cs) (c # pre, s, cs)"
  by (rule first_set) (simp add: word_set del: in_cset.simps)

lemma step_word: "is_word c \<Longrightarrow> first LITERAL_STEP (pre, c # s, cs) (c # pre, s, cs)"
proof -
  assume c: "is_word c"
  moreover have "\<not> is_word sq" by code_simp
  ultimately have "fails (RLit [sq]) (pre, c # s, cs)" by (intro fails_lit) (auto simp: startswith_def)
  then have "first (ROpt (RLit [sq])) (pre, c # s, cs) (pre, c # s, cs)" by (intro first_alt2 first_eps)
  then show ?thesis
    unfolding LITERAL_STEP_def by (rule first_seq [OF _ first_word [OF c]])
qed

lemma step_quote: "is_word d \<Longrightarrow> first LITERAL_STEP (pre, sq # d # s, cs) (d # sq # pre, s, cs)"
proof -
  assume d: "is_word d"
  have "first (RLit [sq]) (pre, [sq] @ d # s, cs) (rev [sq] @ pre, d # s, cs)" by (rule first_lit)
  then have "first (ROpt (RLit [sq])) (pre, sq # d # s, cs) (sq # pre, d # s, cs)" by (intro first_alt1) simp
  then show ?thesis
    unfolding LITERAL_STEP_def by (rule first_seq [OF _ first_word [OF d]])
qed

lemma step_fails:
  "\<not> (s \<noteq> [] \<and> is_word (hd s)) \<Longrightarrow> \<not> (\<exists>d t. s = sq # d # t \<and> is_word d) \<Longrightarrow> fails LITERAL_STEP (pre, s, cs)"
  by (auto simp: fails_reach LITERAL_STEP_def reach_simps word_set simp del: in_cset.simps)

lemma word_not_sq: "\<not> is_word sq"
  by code_simp

lemma literal_star:
  "\<exists>w. s = w @ snd (number_tail s) \<and> filter (\<lambda>c. c \<noteq> sq) w = fst (number_tail s) \<and>
     first (RStar LITERAL_STEP) (pre, s, cs) (rev w @ pre, snd (number_tail s), cs)"
proof (induction s arbitrary: pre rule: number_tail.induct)
  case 1
  show ?case by (auto intro: first_star_stop step_fails)
next
  case (2 c)
  show ?case
  proof (cases "is_word c")
    case True
    then have "c \<noteq> sq" using word_not_sq by blast
    have "first (RStar LITERAL_STEP) (c # pre, [], cs) (c # pre, [], cs)" by (auto intro: first_star_stop step_fails)
    from first_star_more [OF step_word [OF True] _ this] show ?thesis
      using True \<open>c \<noteq> sq\<close> by (intro exI [of _ "[c]"]) (simp add: moved_def)
  next
    case False
    then have "fails LITERAL_STEP (pre, [c], cs)" by (intro step_fails) auto
    then show ?thesis using False first_star_stop by simp
  qed
next
  case (3 c d s)
  consider (word) "is_word c" | (quote) "\<not> is_word c" "c = sq" "is_word d"
    | (stop) "\<not> is_word c" "\<not> (c = sq \<and> is_word d)" by blast
  then show ?case
  proof cases
    case word
    then have "c \<noteq> sq" using word_not_sq by blast
    obtain w where w: "d # s = w @ snd (number_tail (d # s))" "filter (\<lambda>c. c \<noteq> sq) w = fst (number_tail (d # s))"
      "first (RStar LITERAL_STEP) (c # pre, d # s, cs) (rev w @ c # pre, snd (number_tail (d # s)), cs)"
      using "3.IH"(1) [OF word] by blast
    from first_star_more [OF step_word [OF word] _ w(3)] show ?thesis
      using word w(1,2) \<open>c \<noteq> sq\<close> by (intro exI [of _ "c # w"]) (simp add: moved_def)
  next
    case quote
    then have "d \<noteq> sq" using word_not_sq by blast
    obtain w where w: "s = w @ snd (number_tail s)" "filter (\<lambda>c. c \<noteq> sq) w = fst (number_tail s)"
      "first (RStar LITERAL_STEP) (d # sq # pre, s, cs) (rev w @ d # sq # pre, snd (number_tail s), cs)"
      using "3.IH"(2) quote by blast
    from first_star_more [OF step_quote [OF quote(3)] _ w(3)] show ?thesis
      using quote w(1,2) \<open>d \<noteq> sq\<close> by (intro exI [of _ "c # d # w"]) (simp add: moved_def)
  next
    case stop
    then show ?thesis by (auto intro!: first_star_stop step_fails)
  qed
qed

lemma replace_filter: "py_replace [c] [] s = filter (\<lambda>x. x \<noteq> c) s"
  by (induction s) (simp_all add: startswith_Cons)

text \<open>
  The collapse, on a text without escapes.  The first quote ends a piece of code.  A digit
  separator is dropped with the ones that follow in the same number; any other quote opens a
  literal that reaches to the next quote of the same kind and is emptied; when there is none the
  rest is left as it is.
\<close>

definition is_quote :: "char \<Rightarrow> bool" where
  "is_quote c = (c = sq \<or> c = dq)"

function blank_literals :: "string \<Rightarrow> string" where
  "blank_literals s =
     (let code = takeWhile (\<lambda>c. \<not> is_quote c) s
      in case dropWhile (\<lambda>c. \<not> is_quote c) s of
           [] \<Rightarrow> s
         | q # rest \<Rightarrow>
             (if q = sq \<and> number_word (ending_word code) then
                (case number_tail (sq # rest) of (ds, after) \<Rightarrow> code @ ds @ blank_literals after)
              else (case dropWhile (\<lambda>c. c \<noteq> q) rest of
                      [] \<Rightarrow> s
                    | _ # after \<Rightarrow> code @ [q, q] @ blank_literals after)))"
  by pat_completeness auto
termination
proof (relation "measure length")
  fix s code q rest ds after
  assume a: "code = takeWhile (\<lambda>c. \<not> is_quote c) s" "dropWhile (\<lambda>c. \<not> is_quote c) s = q # rest"
    "q = sq \<and> number_word (ending_word code)" "(ds, after) = number_tail (sq # rest)"
  have "code \<noteq> []" using a(3) by (auto simp: ending_word_def)
  moreover have "length s = length code + Suc (length rest)"
    using a(1,2) by (metis length_Cons length_append takeWhile_dropWhile_id)
  moreover have "length after \<le> Suc (length rest)" using number_tail_length [of "sq # rest"] unfolding a(4) [symmetric] by simp
  ultimately show "(after, s) \<in> measure length" by (simp add: length_greater_0_conv [symmetric] del: length_greater_0_conv)
next
  fix s code q rest c after
  assume a: "code = takeWhile (\<lambda>c. \<not> is_quote c) s" "dropWhile (\<lambda>c. \<not> is_quote c) s = q # rest"
    "dropWhile (\<lambda>c. c \<noteq> q) rest = c # after"
  have "length (q # rest) \<le> length s" "length (c # after) \<le> length rest"
    unfolding a(2,3) [symmetric] by (rule length_dropWhile_le)+
  then show "(after, s) \<in> measure length" by simp
qed simp

declare blank_literals.simps [simp del]

lemma QUOTE_match:
  assumes "list_all (\<lambda>c. \<not> is_quote c) h" "is_quote q" "nl \<notin> set t"
  obtains m where "Match QUOTE_PAT (h @ q # t) = Some m" "grp m 1 = h" "grp m 2 = [q]" "grp m 3 = t"
proof -
  have h: "list_all (in_cset (CNeg [CI sq, CI dq])) h" using assms(1) by (auto simp: list_all_iff is_quote_def)
  have t: "list_all (in_cset (CNeg [CI nl])) t" using assms(3) by (auto simp: list_all_iff)
  have q: "in_cset (CPos [CI sq, CI dq]) q" "\<not> in_cset (CNeg [CI sq, CI dq]) q" using assms(2) by (auto simp: is_quote_def)
  let ?c1 = "[(1, 0, h)]" and ?c2 = "[(2, length h, [q]), (1, 0, h)]"
  have "first (RGrp 1 (RStar (RNotIn [CI sq, CI dq]))) ([], h @ q # t, []) (rev h, q # t, ?c1)"
    using first_grp [OF first_star_set [OF h, of "q # t" "[]" "[]"], of 1] q(2) by simp
  moreover have "first (RGrp 2 (RIn [CI sq, CI dq])) (rev h, q # t, ?c1) (q # rev h, t, ?c2)"
    using first_grp [OF first_set [OF q(1), of "rev h" t ?c1], of 2] by simp
  moreover have "first (RGrp 3 (RStar RAny)) (q # rev h, t, ?c2)
      (rev t @ q # rev h, [], (3, Suc (length h), t) # ?c2)"
    using first_grp [OF first_star_set [OF t, of "[]" "q # rev h" ?c2], of 3] by simp
  ultimately have "first QUOTE_PAT ([], h @ q # t, [])
      (rev t @ q # rev h, [], (3, Suc (length h), t) # ?c2)"
    unfolding QUOTE_PAT_def rseq.simps by (blast intro: first_intros)
  show ?thesis by (rule that [OF Match_first [OF \<open>first QUOTE_PAT _ _\<close>]]) simp_all
qed

lemma LITERAL_match:
  assumes "nl \<notin> set s"
  obtains m where "Match LITERAL_PAT s = Some m" "py_replace [sq] [] (grp m 1) = fst (number_tail s)"
    "grp m 2 = snd (number_tail s)"
proof -
  let ?t = "snd (number_tail s)"
  obtain w where w: "s = w @ ?t" "filter (\<lambda>c. c \<noteq> sq) w = fst (number_tail s)"
    "first (RStar LITERAL_STEP) ([], s, []) (rev w @ [], ?t, [])" using literal_star by blast
  have t: "list_all (in_cset (CNeg [CI nl])) ?t"
  proof -
    have "nl \<notin> set ?t" using assms w(1) by (metis UnI2 set_append)
    then show ?thesis by (auto simp: list_all_iff)
  qed
  have tk: "take (length s - length ?t) s = w" by (metis w(1) append_eq_conv_conj diff_add_inverse2 length_append)
  have "first (RGrp 1 (RStar LITERAL_STEP)) ([], s, []) (rev w, ?t, [(1, 0, w)])"
    using first_grp [OF w(3), of 1] tk by simp
  moreover have "first (RGrp 2 (RStar RAny)) (rev w, ?t, [(1, 0, w)])
      (rev ?t @ rev w, [], [(2, length w, ?t), (1, 0, w)])"
    using first_grp [OF first_star_set [OF t, of "[]" "rev w" "[(1, 0, w)]"], of 2] by simp
  ultimately have "first LITERAL_PAT ([], s, []) (rev ?t @ rev w, [], [(2, length w, ?t), (1, 0, w)])"
    unfolding LITERAL_def by (blast intro: first_intros)
  show ?thesis by (rule that [OF Match_first [OF \<open>first LITERAL_PAT _ _\<close>]]) (simp_all add: replace_filter w(2))
qed

lemma dropWhile_second:
  assumes "dropWhile (\<lambda>x. x \<noteq> c) s = d # after"
  shows "py_find s [c] \<ge> 0" "slice_from s (py_find s [c] + 1) = after"
proof -
  let ?u = "takeWhile (\<lambda>x. x \<noteq> c) s"
  have "d = c" using hd_dropWhile [of "\<lambda>x. x \<noteq> c" s] assms by auto
  then have s: "s = ?u @ c # after" using assms by (metis takeWhile_dropWhile_id)
  moreover have "c \<notin> set ?u" by (auto dest: set_takeWhileD)
  ultimately have f: "py_find s [c] = int (length ?u)" by (metis py_find_char)
  then show "py_find s [c] \<ge> 0" by simp
  show "slice_from s (py_find s [c] + 1) = after"
    using slice_from_nat [of s "length ?u + 1"] f s
    by (metis append_eq_conv_conj drop_Suc_Cons drop_drop drop0 of_nat_1 of_nat_add plus_1_eq_Suc)
qed

lemma no_second: "dropWhile (\<lambda>x. x \<noteq> c) s = [] \<Longrightarrow> \<not> py_find s [c] \<ge> 0"
  using py_find_char_none [of c s] by (auto simp: dropWhile_eq_Nil_conv)

lemma collapse_separator:
  assumes "Match QUOTE_PAT s = Some m" "grp m 1 = code" "grp m 2 = [sq]" "grp m 3 = rest"
    "searches DIGIT_SEPARATOR_PAT code" "Match LITERAL_PAT (sq # rest) = Some l"
  shows "collapse_loop s = map_option (\<lambda>r. code @ py_replace [sq] [] (grp l 1) @ r) (collapse_loop (grp l 2))"
  using assms by (subst collapse_loop.simps) (simp add: Let_def)

lemma blank_separator:
  assumes "dropWhile (\<lambda>c. \<not> is_quote c) s = sq # rest" "number_word (ending_word (takeWhile (\<lambda>c. \<not> is_quote c) s))"
  shows "blank_literals s = takeWhile (\<lambda>c. \<not> is_quote c) s @ fst (number_tail (sq # rest)) @
     blank_literals (snd (number_tail (sq # rest)))"
  using assms by (subst blank_literals.simps) (simp only: Let_def list.case if_True simp_thms case_prod_beta)

lemma collapse_quoted:
  assumes "Match QUOTE_PAT s = Some m" "grp m 1 = code" "grp m 2 = [q]" "grp m 3 = rest"
    "q = sq \<or> q = dq" "\<not> (q = sq \<and> searches DIGIT_SEPARATOR_PAT code)"
  shows "collapse_loop s = (if py_find rest [q] \<ge> 0
     then map_option (\<lambda>r. code @ [q, q] @ r) (collapse_loop (slice_from rest (py_find rest [q] + 1)))
     else Some s)"
  using assms(5)
proof
  assume "q = dq"
  then show ?thesis using assms(1-4) by (subst collapse_loop.simps) (simp add: Let_def)
next
  assume "q = sq"
  then show ?thesis using assms(1-4,6) by (subst collapse_loop.simps) (simp add: Let_def)
qed

lemma blank_quoted:
  assumes "dropWhile (\<lambda>c. \<not> is_quote c) s = q # rest"
    "\<not> (q = sq \<and> number_word (ending_word (takeWhile (\<lambda>c. \<not> is_quote c) s)))"
  shows "blank_literals s = (case dropWhile (\<lambda>c. c \<noteq> q) rest of [] \<Rightarrow> s
     | _ # after \<Rightarrow> takeWhile (\<lambda>c. \<not> is_quote c) s @ [q, q] @ blank_literals after)"
  using assms by (subst blank_literals.simps) (simp only: Let_def list.case if_False)

lemma collapse_loop_literals: "nl \<notin> set s \<Longrightarrow> collapse_loop s = Some (blank_literals s)"
proof (induction s rule: blank_literals.induct)
  case (1 s)
  define code where "code = takeWhile (\<lambda>c. \<not> is_quote c) s"
  have code: "list_all (\<lambda>c. \<not> is_quote c) code" by (auto simp: code_def list_all_iff dest: set_takeWhileD)
  show ?case
  proof (cases "dropWhile (\<lambda>c. \<not> is_quote c) s")
    case Nil
    then have "Match QUOTE_PAT s = None" by (intro QUOTE_none) (auto simp: dropWhile_eq_Nil_conv is_quote_def)
    moreover have "blank_literals s = s" using Nil by (subst blank_literals.simps) (simp only: Let_def list.case)
    ultimately show ?thesis by (subst collapse_loop.simps) simp
  next
    case (Cons q rest)
    have s: "s = code @ q # rest" using Cons by (metis code_def takeWhile_dropWhile_id)
    have q: "is_quote q" using hd_dropWhile [of "\<lambda>c. \<not> is_quote c" s] Cons by auto
    have nl: "nl \<notin> set code" "nl \<notin> set (sq # rest)" using "1.prems" s by auto
    obtain m where m: "Match QUOTE_PAT s = Some m" "grp m 1 = code" "grp m 2 = [q]" "grp m 3 = rest"
      using QUOTE_match [OF code q, of rest] nl(2) s by auto
    note IH = "1.IH" [OF code_def Cons]
    show ?thesis
    proof (cases "q = sq \<and> number_word (ending_word code)")
      case True
      obtain l where l: "Match LITERAL_PAT (sq # rest) = Some l"
        "py_replace [sq] [] (grp l 1) = fst (number_tail (sq # rest))" "grp l 2 = snd (number_tail (sq # rest))"
        using LITERAL_match [OF nl(2)] by blast
      have "nl \<notin> set (snd (number_tail (sq # rest)))" using literal_star [of "sq # rest"] nl(2) by (metis UnI2 set_append)
      then have "collapse_loop (grp l 2) = Some (blank_literals (grp l 2))"
        using IH(1) [OF True surjective_pairing [symmetric]] l(3) by simp
      then show ?thesis
        using True l collapse_separator [OF m(1,2) _ m(4) _ l(1)] m(3) DIGIT_SEPARATOR_iff [OF nl(1)]
          blank_separator [of s rest] Cons by (simp add: code_def [symmetric] del: number_tail.simps)
    next
      case False
      have "\<not> (q = sq \<and> searches DIGIT_SEPARATOR_PAT code)" using False DIGIT_SEPARATOR_iff [OF nl(1)] by simp
      note eqs = collapse_quoted [OF m q [unfolded is_quote_def] this]
        blank_quoted [OF Cons False [unfolded code_def], folded code_def]
      show ?thesis
      proof (cases "dropWhile (\<lambda>c. c \<noteq> q) rest")
        case Nil
        then show ?thesis unfolding eqs Nil using no_second [OF Nil] by (simp only: list.case if_False)
      next
        case second: (Cons d after)
        have "nl \<notin> set after" using nl(2) second by (metis list.set_intros(2) set_dropWhileD)
        then have "collapse_loop after = Some (blank_literals after)" using IH(2) [OF False second] by simp
        then show ?thesis unfolding eqs using dropWhile_second [OF second] second by simp
      qed
    qed
  qed
qed

lemma drop_escapes_set: "set (drop_escapes s) \<subseteq> set s"
proof -
  have "set (cut_matches L s) \<subseteq> set s" for L
  proof (induction L s rule: cut_matches.induct)
    case (2 L c s)
    then show ?case
      using set_drop_subset [of "L (c # s)" "c # s"] by (cases "L (c # s) = 0") (auto simp: cut_matches.simps(2))
  qed simp
  then show ?thesis by (simp add: drop_escapes_def)
qed

text \<open>C14: Collapsing the strings of a line leaves an include line as it is.  Any other line loses
  its escape sequences first; then every closed literal, in double or in single quotes, is emptied,
  the digit separators of a number are dropped, an unclosed literal is kept with what follows, and
  everything else is kept.  Lines hold no line break.\<close>

theorem CollapseStrings_blanks_literals:
  assumes "nl \<notin> set s"
  shows "CollapseStrings s =
     Some (if matches RE_PATTERN_INCLUDE s then s else blank_literals (drop_escapes s))"
proof -
  have "nl \<notin> set (drop_escapes s)" using assms drop_escapes_set by blast
  then show ?thesis by (simp add: CollapseStrings_def re_sub_escapes collapse_loop_literals)
qed

theorem CollapseStrings_blanks_literals_witness:
  "CollapseStrings (''f(1'' @ [sq] @ ''000, '' @ [sq, bs, sq, sq] @ '', '' @ [dq] @ ''a'' @ [bs, dq] @ ''b'' @ [dq] @ '');'') =
     Some (''f(1000, '' @ [sq, sq] @ '', '' @ [dq, dq] @ '');'')"
proof -
  let ?s = "''f(1'' @ [sq] @ ''000, '' @ [sq, bs, sq, sq] @ '', '' @ [dq] @ ''a'' @ [bs, dq] @ ''b'' @ [dq] @ '');''"
  have "nl \<notin> set ?s" by code_simp
  moreover have "\<not> matches RE_PATTERN_INCLUDE ?s" by code_simp
  moreover have "blank_literals (drop_escapes ?s) = ''f(1000, '' @ [sq, sq] @ '', '' @ [dq, dq] @ '');''" by code_simp
  ultimately show ?thesis using CollapseStrings_blanks_literals [of ?s] by simp
qed

lemma py_find_slashes:
  assumes "\<not> contains ''//'' (code @ ''/'')"
  shows "py_find (code @ ''//'' @ rest) ''//'' = int (length code)"
proof -
  have "\<not> startswith v' ''//''"
    if eq: "code @ ''//'' @ rest = u' @ v'" and len: "length u' < length code" for u' v'
  proof
    assume "startswith v' ''//''"
    then obtain w where "v' = ''//'' @ w" by (auto simp: startswith_iff)
    with eq have "(code @ ''/'') @ ''/'' @ rest = (u' @ ''//'') @ w" by simp
    moreover have "length (u' @ ''//'') \<le> length (code @ ''/'')" using len by simp
    ultimately have "prefix (u' @ ''//'') (code @ ''/'')"
      by (metis prefixI prefix_length_prefix)
    then show False using assms unfolding contains_iff prefix_def by (metis append.assoc)
  qed
  then show ?thesis
    unfolding py_find_split by (intro exI [of _ code] exI [of _ "''//'' @ rest"]) auto
qed

lemma C_COMMENTS_infix:
  assumes "searches RE_PATTERN_CLEANSE_LINE_C_COMMENTS s"
  shows "contains ''/*'' s"
proof -
  have c: "sublist ''/*'' post"
    if "reach RE_PATTERN_C_COMMENTS (pre, post, cs) st" for pre post cs st
    using that by (auto simp: RE_PATTERN_C_COMMENTS_def reach_simps sublist_code)
  have l: "sublist x (zs @ ys)" "sublist x (z # ys)" if "sublist x ys" for x ys zs :: string and z
    using that unfolding sublist_def by (metis append.assoc, metis append_Cons)
  from assms obtain u v st where "s = u @ v"
    "reach RE_PATTERN_CLEANSE_LINE_C_COMMENTS (rev u, v, []) st"
    unfolding searches_reach by blast
  then have "sublist ''/*'' s"
    unfolding RE_PATTERN_CLEANSE_LINE_C_COMMENTS_def reach_grp_general ralt.simps
      rseq.simps reach_alt reach_seq
    by (auto simp: reach_simps dest!: c) (meson l)+
  then show ?thesis unfolding contains_iff sublist_def .
qed

text \<open>C15: A comment from the two slashes on is removed with the blanks before it, when the code
  before them has no comment of its own and does not end inside a string.\<close>

theorem CleanseComments_line_comment:
  assumes "\<not> contains ''//'' (code @ ''/'')" "\<not> contains ''/*'' code" "\<not> IsCppString code"
  shows "CleanseComments (code @ ''//'' @ rest) = urstrip code"
proof -
  have f: "py_find (code @ ''//'' @ rest) ''//'' = int (length code)"
    using assms(1) by (rule py_find_slashes)
  obtain w where w: "code = urstrip code @ w"
    unfolding urstrip_def rstrip_by_def
    by (metis rev_append rev_rev_ident takeWhile_dropWhile_id)
  have "\<not> contains ''/*'' (urstrip code)"
    using assms(2) w unfolding contains_iff by (metis append.assoc)
  then have "\<not> searches RE_PATTERN_CLEANSE_LINE_C_COMMENTS (urstrip code)"
    using C_COMMENTS_infix by blast
  then show ?thesis
    using assms(3) unfolding CleanseComments_def f Let_def by (simp add: re_sub_no_match)
qed

theorem CleanseComments_line_comment_witness:
  "CleanseComments ''x = 1;  // one'' = ''x = 1;''"
proof -
  have "\<not> contains ''//'' (''x = 1;  '' @ ''/'')" "\<not> contains ''/*'' ''x = 1;  ''"
    "\<not> IsCppString ''x = 1;  ''" "urstrip ''x = 1;  '' = ''x = 1;''" by code_simp+
  then show ?thesis using CleanseComments_line_comment [of "''x = 1;  ''" "'' one''"] by simp
qed

end
