(* ===== verification/Expressions.thy ===== *)
theory Expressions
  imports Cleanse
begin

text \<open>
  Matching of brackets over the cleansed lines (tools/scripts/cpplint.py, lines 1519 to 1753):
  \<open>FindEndOfExpressionInLine\<close>, \<open>CloseExpression\<close> and their mirror images.  The nesting stack is
  a string with its top at the head.  A scan of one line answers, as in the source, with a
  position and a stack, where \<open>None\<close> for the stack means that the search is over.
\<close>

definition OPERATOR_PAT :: rx where
  "OPERATOR_PAT = rseq [RWordB, RLit ''operator'', RStar RSp, REol]"

definition SHIFT_PAT :: rx where
  "SHIFT_PAT = rseq [RLit ''<'', RIn [CI (CHR ''<''), CI (CHR ''='')]]"

definition GE_PAT :: rx where
  "GE_PAT = rseq [RSp, RLit ''>='', RSp]"

subsection \<open>Scanning forward\<close>

text \<open>What one character does: go on with a stack (over one more character for \<open>Skip\<close>), give
  up, or close the expression.\<close>

datatype scan = Go string | Skip string | Fail | Close

definition bracket_pair :: "char \<Rightarrow> char \<Rightarrow> bool" where
  "bracket_pair a b = (a = CHR ''('' \<and> b = CHR '')'' \<or> a = CHR ''['' \<and> b = CHR '']'' \<or>
     a = CHR ''{'' \<and> b = CHR ''}'')"

definition fwd_char :: "string \<Rightarrow> nat \<Rightarrow> char \<Rightarrow> string \<Rightarrow> scan" where
  "fwd_char line i char stack =
     (if char \<in> set ''([{'' then Go (char # stack)
      else if char = CHR ''<'' then
        (if i > 0 \<and> line ! (i - 1) = CHR ''<'' then
           (if stack \<noteq> [] \<and> hd stack = CHR ''<'' then
              (if tl stack = [] then Fail else Go (tl stack))
            else Go stack)
         else if i > 0 \<and> searches OPERATOR_PAT (take i line) then Go stack
         else Go (CHR ''<'' # stack))
      else if char \<in> set '')]}'' then
        (let stack' = dropWhile (\<lambda>c. c = CHR ''<'') stack
         in if stack' = [] then Fail
            else if bracket_pair (hd stack') char then
              (if tl stack' = [] then Close else Go (tl stack'))
            else Fail)
      else if char = CHR ''>'' then
        (if i > 0 \<and> (line ! (i - 1) = CHR ''-'' \<or> searches OPERATOR_PAT (take (i - 1) line))
         then Go stack
         else if stack \<noteq> [] \<and> hd stack = CHR ''<'' then
           (if tl stack = [] then Close else Go (tl stack))
         else Go stack)
      else if char = CHR '';'' then
        (let stack' = dropWhile (\<lambda>c. c = CHR ''<'') stack
         in if stack' = [] then Fail else Go stack')
      else Go stack)"

text \<open>The loop over the characters from position i on.\<close>

fun fwd_scan :: "string \<Rightarrow> nat \<Rightarrow> string \<Rightarrow> string \<Rightarrow> int \<times> string option" where
  "fwd_scan line i stack [] = (-1, Some stack)"
| "fwd_scan line i stack (char # chars) =
     (case fwd_char line i char stack of
        Go stack' \<Rightarrow> fwd_scan line (i + 1) stack' chars
      | Skip stack' \<Rightarrow> fwd_scan line (i + 1) stack' chars
      | Fail \<Rightarrow> (-1, None)
      | Close \<Rightarrow> (int i + 1, None))"

definition FindEndOfExpressionInLine :: "string \<Rightarrow> nat \<Rightarrow> string \<Rightarrow> int \<times> string option" where
  "FindEndOfExpressionInLine line startpos stack = fwd_scan line startpos stack (drop startpos line)"

text \<open>
  The loop over the following lines; \<open>num_lines\<close> is \<open>clean_lines.NumLines()\<close>, the number of
  elided lines.
\<close>

fun close_loop :: "nat \<Rightarrow> string \<Rightarrow> nat \<Rightarrow> string option \<Rightarrow> string list \<Rightarrow> string \<times> nat \<times> int" where
  "close_loop num_lines line linenum stack [] = (line, num_lines, -1)"
| "close_loop num_lines line linenum stack (next_line # rest) =
     (if stack = None \<or> stack = Some [] then (line, num_lines, -1)
      else (case FindEndOfExpressionInLine next_line 0 (the stack) of (end_pos, stack') \<Rightarrow>
        if end_pos > -1 then (next_line, linenum + 1, end_pos)
        else close_loop num_lines next_line (linenum + 1) stack' rest))"

definition CloseExpression :: "cleansed_lines \<Rightarrow> nat \<Rightarrow> nat \<Rightarrow> (string \<times> nat \<times> int) option" where
  "CloseExpression clean_lines linenum pos =
     (if linenum < length (elided clean_lines) then
        (let line = elided clean_lines ! linenum
         in if pos < length line then
              (if line ! pos \<notin> set ''({[<'' \<or> matches SHIFT_PAT (drop pos line) then
                 Some (line, NumLines clean_lines, -1)
               else (case FindEndOfExpressionInLine line pos [] of (end_pos, stack) \<Rightarrow>
                 if end_pos > -1 then Some (line, linenum, end_pos)
                 else Some (close_loop (NumLines clean_lines) line linenum stack
                        (drop (linenum + 1) (elided clean_lines)))))
            else None)
      else None)"

subsection \<open>Scanning backward\<close>

definition bwd_char :: "string \<Rightarrow> nat \<Rightarrow> char \<Rightarrow> string \<Rightarrow> scan" where
  "bwd_char line i char stack =
     (if char \<in> set '')]}'' then Go (char # stack)
      else if char = CHR ''>'' then
        (if i > 0 \<and> (line ! (i - 1) = CHR ''-'' \<or> matches GE_PAT (drop (i - 1) line) \<or>
              searches OPERATOR_PAT (take i line))
         then Skip stack
         else Go (CHR ''>'' # stack))
      else if char = CHR ''<'' then
        (if i > 0 \<and> line ! (i - 1) = CHR ''<'' then Skip stack
         else if stack \<noteq> [] \<and> hd stack = CHR ''>'' then
           (if tl stack = [] then Close else Go (tl stack))
         else Go stack)
      else if char \<in> set ''([{'' then
        (let stack' = dropWhile (\<lambda>c. c = CHR ''>'') stack
         in if stack' = [] then Fail
            else if bracket_pair char (hd stack') then
              (if tl stack' = [] then Close else Go (tl stack'))
            else Fail)
      else if char = CHR '';'' then
        (let stack' = dropWhile (\<lambda>c. c = CHR ''>'') stack
         in if stack' = [] then Fail else Go stack')
      else Go stack)"

text \<open>\<open>bwd_scan line stack n\<close> is the loop at position n - 1, which counts down.\<close>

fun bwd_scan :: "string \<Rightarrow> string \<Rightarrow> nat \<Rightarrow> int \<times> string option" where
  "bwd_scan line stack 0 = (-1, Some stack)"
| "bwd_scan line stack (Suc i) =
     (case bwd_char line i (line ! i) stack of
        Go stack' \<Rightarrow> bwd_scan line stack' i
      | Skip stack' \<Rightarrow> bwd_scan line stack' (i - 1)
      | Fail \<Rightarrow> (-1, None)
      | Close \<Rightarrow> (int i, None))"

text \<open>Called with \<open>endpos\<close> below the length of the line; it is -1 on an empty line.\<close>

definition FindStartOfExpressionInLine :: "string \<Rightarrow> int \<Rightarrow> string \<Rightarrow> int \<times> string option" where
  "FindStartOfExpressionInLine line endpos stack = bwd_scan line stack (nat (endpos + 1))"

text \<open>The loop over the preceding lines, nearest first.\<close>

fun open_loop :: "string \<Rightarrow> nat \<Rightarrow> string option \<Rightarrow> string list \<Rightarrow> string \<times> nat \<times> int" where
  "open_loop line linenum stack [] = (line, 0, -1)"
| "open_loop line linenum stack (prev_line # rest) =
     (if stack = None \<or> stack = Some [] then (line, 0, -1)
      else (case FindStartOfExpressionInLine prev_line (int (length prev_line) - 1) (the stack) of
        (start_pos, stack') \<Rightarrow>
          if start_pos > -1 then (prev_line, linenum - 1, start_pos)
          else open_loop prev_line (linenum - 1) stack' rest))"

definition ReverseCloseExpression ::
    "cleansed_lines \<Rightarrow> nat \<Rightarrow> nat \<Rightarrow> (string \<times> nat \<times> int) option" where
  "ReverseCloseExpression clean_lines linenum pos =
     (if linenum < length (elided clean_lines) then
        (let line = elided clean_lines ! linenum
         in if pos < length line then
              (if line ! pos \<notin> set '')}]>'' then Some (line, 0, -1)
               else (case FindStartOfExpressionInLine line (int pos) [] of (start_pos, stack) \<Rightarrow>
                 if start_pos > -1 then Some (line, linenum, start_pos)
                 else Some (open_loop line linenum stack
                        (rev (take linenum (elided clean_lines))))))
            else None)
      else None)"


subsection \<open>Nested brackets and abstract scanners\<close>

text \<open>
  \<open>nested pair plain w\<close>: w is made of plain characters and of brackets that pair off.
\<close>

inductive nested :: "(char \<Rightarrow> char \<Rightarrow> bool) \<Rightarrow> (char \<Rightarrow> bool) \<Rightarrow> string \<Rightarrow> bool"
  for pair :: "char \<Rightarrow> char \<Rightarrow> bool" and plain :: "char \<Rightarrow> bool" where
  nested_nil: "nested pair plain []"
| nested_plain: "plain c \<Longrightarrow> nested pair plain w \<Longrightarrow> nested pair plain (c # w)"
| nested_wrap: "pair a b \<Longrightarrow> nested pair plain w \<Longrightarrow> nested pair plain v \<Longrightarrow>
    nested pair plain (a # w @ b # v)"

lemma nested_append: "nested pair plain u \<Longrightarrow> nested pair plain v \<Longrightarrow> nested pair plain (u @ v)"
  by (induction rule: nested.induct) (auto intro: nested.intros)

lemma nested_rev: "nested pair plain w \<Longrightarrow> nested (\<lambda>a b. pair b a) plain (rev w)"
proof (induction rule: nested.induct)
  case (nested_plain c w)
  then show ?case using nested_append [OF _ nested.nested_plain [OF _ nested.nested_nil]] by simp
next
  case (nested_wrap a b w v)
  then have "nested (\<lambda>a b. pair b a) plain (b # rev w @ a # [])"
    by (intro nested.nested_wrap nested.nested_nil)
  then show ?case using nested_append nested_wrap.IH(2) by fastforce
qed (simp add: nested.nested_nil)

text \<open>
  A run of a scanner over a text: \<open>Inr\<close> the stack at the end, \<open>Inl (Some k)\<close> when the k-th
  character closes the expression, \<open>Inl None\<close> when the scanner gives up.
\<close>

fun delay :: "nat \<Rightarrow> nat option + string \<Rightarrow> nat option + string" where
  "delay n (Inl (Some k)) = Inl (Some (n + k))"
| "delay n r = r"

fun run :: "(char \<Rightarrow> string \<Rightarrow> scan) \<Rightarrow> string \<Rightarrow> string \<Rightarrow> nat option + string" where
  "run step s [] = Inr s"
| "run step s (c # cs) =
     (case step c s of Go s' \<Rightarrow> delay 1 (run step s' cs) | Skip s' \<Rightarrow> delay 1 (run step s' cs)
      | Fail \<Rightarrow> Inl None | Close \<Rightarrow> Inl (Some 1))"

lemma delay_delay [simp]: "delay m (delay n r) = delay (m + n) r"
  by (cases "(n, r)" rule: delay.cases) auto

lemma delay_zero [simp]: "delay 0 r = r"
  by (cases "(0 :: nat, r)" rule: delay.cases) auto

lemma delay_Inr_iff [simp]: "delay n r = Inr s \<longleftrightarrow> r = Inr s"
  by (cases "(n, r)" rule: delay.cases) auto

lemma delay_None_iff [simp]: "delay n r = Inl None \<longleftrightarrow> r = Inl None"
  by (cases "(n, r)" rule: delay.cases) auto

lemma delay_Some_iff: "delay n r = Inl (Some k) \<longleftrightarrow> (\<exists>j. r = Inl (Some j) \<and> k = n + j)"
  by (cases "(n, r)" rule: delay.cases) auto

lemma run_append:
  "run step s (u @ v) =
     (case run step s u of Inr s' \<Rightarrow> delay (length u) (run step s' v) | Inl r \<Rightarrow> Inl r)"
proof (induction u arbitrary: s)
  case (Cons c u)
  have "delay 1 (case run step s' u of Inr s'' \<Rightarrow> delay (length u) (run step s'' v) | Inl r \<Rightarrow> Inl r) =
      (case delay 1 (run step s' u) of Inr s'' \<Rightarrow> delay (length (c # u)) (run step s'' v) | Inl r \<Rightarrow> Inl r)"
    for s'
    by (cases "(1 :: nat, run step s' u)" rule: delay.cases) auto
  then show ?case using Cons by (simp split: scan.split)
qed simp

lemma run_bound: "run step s u = Inl (Some k) \<Longrightarrow> 0 < k \<and> k \<le> length u"
  by (induction u arbitrary: s k) (auto simp: delay_Some_iff split: scan.splits dest!: spec)

text \<open>
  The contract of a scanner on a class of brackets: openers are pushed, a closer that pairs with
  the top of the stack pops it, plain characters change nothing.
\<close>

locale bracket_scan =
  fixes pair :: "char \<Rightarrow> char \<Rightarrow> bool" and plain :: "char \<Rightarrow> bool"
    and step :: "char \<Rightarrow> string \<Rightarrow> scan"
  assumes open_step: "pair a b \<Longrightarrow> step a s = Go (a # s)"
    and close_step: "pair a b \<Longrightarrow> step b (a # s) = (if s = [] then Close else Go s)"
    and other_close: "pair a b \<Longrightarrow> pair c d \<Longrightarrow> \<not> pair c b \<Longrightarrow> step b (c # s) = Fail"
    and plain_step: "plain c \<Longrightarrow> step c s = Go s"
begin

lemma run_nested:
  "nested pair plain w \<Longrightarrow> s \<noteq> [] \<Longrightarrow> run step s (w @ v) = delay (length w) (run step s v)"
proof (induction arbitrary: s v rule: nested.induct)
  case (nested_wrap a b w u)
  have "run step s ((a # w @ b # u) @ v) = delay 1 (run step (a # s) (w @ b # u @ v))"
    using open_step [OF nested_wrap.hyps(1)] by simp
  also have "\<dots> = delay (Suc (length w)) (run step (a # s) (b # u @ v))"
    using nested_wrap.IH(1) by simp
  also have "\<dots> = delay (Suc (Suc (length w))) (run step s (u @ v))"
    using close_step [OF nested_wrap.hyps(1)] nested_wrap.prems by simp
  also have "\<dots> = delay (length (a # w @ b # u)) (run step s v)"
    using nested_wrap.IH(2) [OF nested_wrap.prems] by simp
  finally show ?case .
qed (simp_all add: plain_step)

lemma run_expression:
  assumes "pair a b" "nested pair plain w"
  shows "run step [] (a # w @ b # v) = Inl (Some (length w + 2))"
  using run_nested [OF assms(2), of "[a]"] open_step [OF assms(1)] close_step [OF assms(1), of "[]"]
  by simp

text \<open>A run that closes has read, for each bracket on the stack, a nested text and its closer.\<close>

fun closed_by :: "string \<Rightarrow> string \<Rightarrow> bool" where
  "closed_by [] u = (u = [])"
| "closed_by (a # s) u = (\<exists>w b v. u = w @ b # v \<and> pair a b \<and> nested pair plain w \<and> closed_by s v)"

definition allowed :: "char \<Rightarrow> bool" where
  "allowed c = (plain c \<or> (\<exists>b. pair c b) \<or> (\<exists>a. pair a c))"

lemma closed_by_plain: "s \<noteq> [] \<Longrightarrow> plain c \<Longrightarrow> closed_by s u \<Longrightarrow> closed_by s (c # u)"
  by (cases s) (auto, metis append_Cons nested.nested_plain)

lemma closed_by_open:
  assumes "s \<noteq> []" "closed_by (c # s) u"
  shows "closed_by s (c # u)"
proof -
  obtain a s' where s: "s = a # s'" using assms(1) by (cases s) auto
  from assms(2) s obtain w b w' b' v where "u = w @ b # w' @ b' # v" "pair c b" "nested pair plain w"
    "pair a b'" "nested pair plain w'" "closed_by s' v" by auto
  then show ?thesis
    using nested.nested_wrap [of pair c b plain w w'] s
    by (auto intro!: exI [of _ "c # w @ b # w'"])
qed

lemma run_closed_by:
  assumes "run step s u = Inl (Some (length u))" "s \<noteq> []"
    and "\<forall>c \<in> set s. \<exists>b. pair c b" and "list_all allowed u"
  shows "closed_by s u"
  using assms
proof (induction u arbitrary: s)
  case Nil
  then show ?case by simp
next
  case (Cons c u)
  from Cons.prems(4) consider "plain c" | b where "pair c b" | a where "pair a c" 
    by (auto simp: allowed_def)
  then show ?case
  proof cases
    case 1
    then show ?thesis using Cons plain_step [OF 1] closed_by_plain by (auto simp: delay_Some_iff)
  next
    case 2
    then have "closed_by (c # s) u"
      using Cons.prems Cons.IH [of "c # s"] open_step [OF 2] by (auto simp: delay_Some_iff)
    then show ?thesis using closed_by_open Cons.prems(2) by blast
  next
    case 3
    obtain t s' where s: "s = t # s'" using Cons.prems(2) by (cases s) auto
    then obtain d where d: "pair t d" using Cons.prems(3) by auto
    have tc: "pair t c"
      using other_close [OF 3 d] Cons.prems(1) s by (cases "pair t c") auto
    show ?thesis
    proof (cases "s' = []")
      case True
      then have "u = []" using Cons.prems(1) close_step [OF tc] s by simp
      then show ?thesis using True s tc nested.nested_nil by auto
    next
      case False
      then have "closed_by s' u"
        using Cons.prems Cons.IH [of s'] close_step [OF tc] s by (auto simp: delay_Some_iff)
      then show ?thesis using s tc nested.nested_nil by (auto intro!: exI [of _ "[]"])
    qed
  qed
qed

lemma run_stack_nonempty:
  assumes "run step s u = Inr s'" "s \<noteq> []"
    and "\<forall>c \<in> set s. \<exists>b. pair c b" and "list_all allowed u"
  shows "s' \<noteq> [] \<and> (\<forall>c \<in> set s'. \<exists>b. pair c b)"
  using assms
proof (induction u arbitrary: s)
  case (Cons c u)
  from Cons.prems(4) consider "plain c" | b where "pair c b" | a where "pair a c" 
    by (auto simp: allowed_def)
  then show ?case
  proof cases
    case 1
    then show ?thesis using Cons plain_step [OF 1] by auto
  next
    case 2
    have "run step (c # s) u = Inr s'" using Cons.prems(1) open_step [OF 2] by simp
    moreover have "\<forall>d \<in> set (c # s). \<exists>b. pair d b" using 2 Cons.prems(3) by auto
    moreover have "list_all allowed u" using Cons.prems(4) by simp
    ultimately show ?thesis by (intro Cons.IH [of "c # s"]) blast+
  next
    case 3
    obtain t s1 where s: "s = t # s1" using Cons.prems(2) by (cases s) auto
    then obtain d where d: "pair t d" using Cons.prems(3) by auto
    have tc: "pair t c" using other_close [OF 3 d] Cons.prems(1) s by (cases "pair t c") auto
    show ?thesis
      using Cons.prems Cons.IH [of s1] close_step [OF tc, of s1] s by (auto split: if_splits)
  qed
qed simp


lemma nested_allowed: "nested pair plain w \<Longrightarrow> list_all allowed w"
  by (induction rule: nested.induct) (auto simp: allowed_def)

text \<open>
  A run that closes exactly at the end of a text passes through every proper prefix with a
  stack that is not empty.
\<close>

lemma run_prefix:
  assumes "run step s (u @ v) = Inl (Some (length (u @ v)))" "v \<noteq> []" "s \<noteq> []"
    and "\<forall>c \<in> set s. \<exists>b. pair c b" and "list_all allowed (u @ v)"
  obtains s' where "run step s u = Inr s'" "s' \<noteq> []" "\<forall>c \<in> set s'. \<exists>b. pair c b"
    "run step s' v = Inl (Some (length v))"
proof (cases "run step s u")
  case (Inl r)
  then have "run step s u = Inl (Some (length u + length v))" using assms(1) by (simp add: run_append)
  then have "length u + length v \<le> length u" using run_bound by blast
  then show ?thesis using assms(2) by simp
next
  case (Inr s')
  moreover have "s' \<noteq> [] \<and> (\<forall>c \<in> set s'. \<exists>b. pair c b)"
    using run_stack_nonempty [OF Inr assms(3,4)] assms(5) by simp
  moreover have "run step s' v = Inl (Some (length v))"
    using assms(1) Inr by (auto simp: run_append delay_Some_iff)
  ultimately show ?thesis using that by blast
qed

end

subsection \<open>The two scanners keep the contract\<close>

definition plain_char :: "char \<Rightarrow> bool" where
  "plain_char c = (c \<notin> set ''([{<>)]};'')"

lemma bracket_pairE:
  assumes "bracket_pair a b"
  obtains "a = CHR ''(''" "b = CHR '')''" | "a = CHR ''[''" "b = CHR '']''" | "a = CHR ''{''" "b = CHR ''}''"
  using assms unfolding bracket_pair_def by blast

lemma bracket_pair_right:
  "bracket_pair a b \<Longrightarrow> bracket_pair a' b \<Longrightarrow> a = a'" "bracket_pair a b \<Longrightarrow> bracket_pair a b' \<Longrightarrow> b = b'"
  by (elim bracket_pairE; simp)+

lemma fwd_char_simps:
  "bracket_pair a b \<Longrightarrow> fwd_char line i a s = Go (a # s)"
  "bracket_pair a b \<Longrightarrow> bracket_pair c d \<Longrightarrow>
     fwd_char line i b (c # s) = (if bracket_pair c b then if s = [] then Close else Go s else Fail)"
  "bracket_pair a b \<Longrightarrow> fwd_char line i b [] = Fail"
  "plain_char c \<Longrightarrow> fwd_char line i c s = Go s"
  by (elim bracket_pairE; simp add: fwd_char_def bracket_pair_def)+
     (simp add: fwd_char_def plain_char_def)

lemma bwd_char_simps:
  "bracket_pair a b \<Longrightarrow> bwd_char line i b s = Go (b # s)"
  "bracket_pair a b \<Longrightarrow> bracket_pair c d \<Longrightarrow>
     bwd_char line i a (d # s) = (if bracket_pair a d then if s = [] then Close else Go s else Fail)"
  "bracket_pair a b \<Longrightarrow> bwd_char line i a [] = Fail"
  "plain_char c \<Longrightarrow> bwd_char line i c s = Go s"
  by (elim bracket_pairE; simp add: bwd_char_def bracket_pair_def)+
     (simp add: bwd_char_def plain_char_def)

interpretation fwd: bracket_scan bracket_pair plain_char "fwd_char [] 0"
  by unfold_locales (simp_all add: fwd_char_simps)

interpretation bwd: bracket_scan "\<lambda>a b. bracket_pair b a" plain_char "bwd_char [] 0"
  by unfold_locales (simp_all add: bwd_char_simps)

lemma plain_or_bracket:
  "c \<notin> set ''<>;'' \<longleftrightarrow> plain_char c \<or> (\<exists>b. bracket_pair c b) \<or> (\<exists>a. bracket_pair a c)"
proof
  assume "c \<notin> set ''<>;''"
  then show "plain_char c \<or> (\<exists>b. bracket_pair c b) \<or> (\<exists>a. bracket_pair a c)"
    unfolding plain_char_def bracket_pair_def by simp metis
next
  assume "plain_char c \<or> (\<exists>b. bracket_pair c b) \<or> (\<exists>a. bracket_pair a c)"
  then show "c \<notin> set ''<>;''"
    by (elim disjE exE bracket_pairE) (simp_all add: plain_char_def)
qed

lemma allowed_char:
  "fwd.allowed c \<longleftrightarrow> c \<notin> set ''<>;''" "bwd.allowed c \<longleftrightarrow> c \<notin> set ''<>;''"
  unfolding plain_or_bracket fwd.allowed_def bwd.allowed_def by blast+

lemma fwd_char_context: "fwd.allowed c \<Longrightarrow> fwd_char line i c s = fwd_char [] 0 c s"
  by (simp add: allowed_char fwd_char_def)

lemma bwd_char_context: "bwd.allowed c \<Longrightarrow> bwd_char line i c s = bwd_char [] 0 c s"
  by (simp add: allowed_char bwd_char_def)

lemma bwd_char_no_skip: "bwd.allowed c \<Longrightarrow> bwd_char [] 0 c s \<noteq> Skip s'"
  by (simp add: bwd_char_def Let_def)

lemma fwd_char_no_skip: "fwd_char line i c s \<noteq> Skip s'"
  by (simp add: fwd_char_def Let_def)

lemma fwd_scan_run:
  "list_all fwd.allowed u \<Longrightarrow> fwd_scan line i s (u @ v) =
     (case run (fwd_char [] 0) s u of
        Inr s' \<Rightarrow> fwd_scan line (i + length u) s' v
      | Inl None \<Rightarrow> (-1, None) | Inl (Some k) \<Rightarrow> (int (i + k), None))"
proof (induction u arbitrary: i s)
  case (Cons c u)
  have c: "fwd_char line i c s = fwd_char [] 0 c s"
    using Cons.prems by (intro fwd_char_context) simp
  show ?case
  proof (cases "fwd_char [] 0 c s")
    case (Go s')
    then show ?thesis
      using Cons c by (cases "(1 :: nat, run (fwd_char [] 0) s' u)" rule: delay.cases) auto
  qed (use c fwd_char_no_skip in auto)
qed simp

lemma bwd_scan_run:
  "n \<le> length line \<Longrightarrow> k \<le> n \<Longrightarrow> list_all bwd.allowed (take k (rev (take n line))) \<Longrightarrow>
     bwd_scan line s n =
     (case run (bwd_char [] 0) s (take k (rev (take n line))) of
        Inr s' \<Rightarrow> bwd_scan line s' (n - k)
      | Inl None \<Rightarrow> (-1, None) | Inl (Some j) \<Rightarrow> (int (n - j), None))"
proof (induction k arbitrary: n s)
  case (Suc k)
  then obtain m where n: "n = Suc m" "m < length line" "k \<le> m" by (cases n) auto
  have r: "rev (take n line) = line ! m # rev (take m line)"
    using n by (simp add: take_Suc_conv_app_nth)
  have al: "bwd.allowed (line ! m)" "list_all bwd.allowed (take k (rev (take m line)))"
    using Suc.prems(3) r by simp_all
  have c: "bwd_char line m (line ! m) s = bwd_char [] 0 (line ! m) s"
    using bwd_char_context [OF al(1)] .
  show ?case
  proof (cases "bwd_char [] 0 (line ! m) s")
    case (Go s')
    then show ?thesis
      using Suc.IH [of m s'] n al(2) c r
      by (cases "(1 :: nat, run (bwd_char [] 0) s' (take k (rev (take m line))))" rule: delay.cases) auto
  qed (use c r n bwd_char_no_skip [OF al(1)] in auto)
qed simp

subsection \<open>Expressions over several lines\<close>

text \<open>The text from position i of line n up to, but not including, position p of line m.\<close>

definition text_between :: "string list \<Rightarrow> nat \<Rightarrow> nat \<Rightarrow> nat \<Rightarrow> nat \<Rightarrow> string" where
  "text_between ls n i m p =
     (if n = m then drop i (take p (ls ! n))
      else drop i (ls ! n) @ concat (take (m - n - 1) (drop (n + 1) ls)) @ take p (ls ! m))"

lemma FindEnd_found:
  assumes "run (fwd_char [] 0) s (take p l) = Inl (Some p)" "p \<le> length l" "list_all fwd.allowed (take p l)"
  shows "FindEndOfExpressionInLine l 0 s = (int p, None)"
  using fwd_scan_run [OF assms(3), of l 0 s "drop p l"] assms(1)
  by (simp add: FindEndOfExpressionInLine_def)

lemma FindEnd_open:
  assumes "run (fwd_char [] 0) s l = Inr s'" "list_all fwd.allowed l"
  shows "FindEndOfExpressionInLine l 0 s = (-1, Some s')"
  using fwd_scan_run [OF assms(2), of l 0 s "[]"] assms(1) by (simp add: FindEndOfExpressionInLine_def)

lemma close_loop_found:
  assumes "run (fwd_char [] 0) s (concat ws @ take p l) = Inl (Some (length (concat ws @ take p l)))"
    and "0 < p" "p \<le> length l" "s \<noteq> []" "\<forall>c \<in> set s. \<exists>b. bracket_pair c b"
    and "list_all fwd.allowed (concat ws @ take p l)"
  shows "close_loop num line n (Some s) (ws @ l # mls) = (l, n + length ws + 1, int p)"
  using assms
proof (induction ws arbitrary: s line n)
  case Nil
  then show ?case using FindEnd_found [of s p l] by simp
next
  case (Cons x ws)
  have "concat ws @ take p l \<noteq> []" using Cons.prems(2,3) by (cases l) auto
  then obtain s' where s': "run (fwd_char [] 0) s x = Inr s'" "s' \<noteq> []"
    "\<forall>c \<in> set s'. \<exists>b. bracket_pair c b"
    "run (fwd_char [] 0) s' (concat ws @ take p l) = Inl (Some (length (concat ws @ take p l)))"
    using fwd.run_prefix [of s x "concat ws @ take p l"] Cons.prems by auto
  have "FindEndOfExpressionInLine x 0 s = (-1, Some s')"
    using FindEnd_open [OF s'(1)] Cons.prems(6) by simp
  then show ?case using Cons.IH [OF s'(4) Cons.prems(2,3) s'(2,3)] Cons.prems(4,6) by simp
qed

lemma FindStart_found:
  assumes "run (bwd_char [] 0) s (take k (rev l)) = Inl (Some k)" "k \<le> length l"
    and "list_all bwd.allowed (take k (rev l))"
  shows "FindStartOfExpressionInLine l (int (length l) - 1) s = (int (length l - k), None)"
  using bwd_scan_run [of "length l" l k s] assms by (simp add: FindStartOfExpressionInLine_def)

lemma FindStart_open:
  assumes "run (bwd_char [] 0) s (rev l) = Inr s'" "list_all bwd.allowed (rev l)"
  shows "FindStartOfExpressionInLine l (int (length l) - 1) s = (-1, Some s')"
  using bwd_scan_run [of "length l" l "length l" s] assms by (simp add: FindStartOfExpressionInLine_def)

lemma open_loop_found:
  assumes "run (bwd_char [] 0) s (concat (map rev ws) @ take k (rev l)) =
      Inl (Some (length (concat (map rev ws) @ take k (rev l))))"
    and "0 < k" "k \<le> length l" "s \<noteq> []" "\<forall>c \<in> set s. \<exists>b. bracket_pair b c"
    and "list_all bwd.allowed (concat (map rev ws) @ take k (rev l))"
  shows "open_loop line n (Some s) (ws @ l # mls) = (l, n - length ws - 1, int (length l - k))"
  using assms
proof (induction ws arbitrary: s line n)
  case Nil
  then show ?case using FindStart_found [of s k l] by simp
next
  case (Cons x ws)
  have "concat (map rev ws) @ take k (rev l) \<noteq> []" using Cons.prems(2,3) by (cases l) auto
  then obtain s' where s': "run (bwd_char [] 0) s (rev x) = Inr s'" "s' \<noteq> []"
    "\<forall>c \<in> set s'. \<exists>b. bracket_pair b c"
    "run (bwd_char [] 0) s' (concat (map rev ws) @ take k (rev l)) =
       Inl (Some (length (concat (map rev ws) @ take k (rev l))))"
    using bwd.run_prefix [of s "rev x" "concat (map rev ws) @ take k (rev l)"] Cons.prems by auto
  have "FindStartOfExpressionInLine x (int (length x) - 1) s = (-1, Some s')"
    using FindStart_open [OF s'(1)] Cons.prems(6) by simp
  then show ?case using Cons.IH [OF s'(4) Cons.prems(2,3) s'(2,3)] Cons.prems(4,6) by simp
qed

lemma SHIFT_head: "matches SHIFT_PAT s \<Longrightarrow> \<exists>t. s = CHR ''<'' # t"
  by (auto simp: matches_reach SHIFT_PAT_def reach_simps)

lemma elided_split:
  assumes "n < m" "m < length ls"
  shows "drop (n + 1) ls = take (m - n - 1) (drop (n + 1) ls) @ ls ! m # drop (m + 1) ls"
    and "rev (take m ls) = rev (take (m - n - 1) (drop (n + 1) ls)) @ ls ! n # rev (take n ls)"
proof -
  have "drop (n + 1) ls = take (m - n - 1) (drop (n + 1) ls) @ drop (m - n - 1) (drop (n + 1) ls)"
    by (rule append_take_drop_id [symmetric])
  also have "drop (m - n - 1) (drop (n + 1) ls) = ls ! m # drop (m + 1) ls"
    using assms by (simp add: Cons_nth_drop_Suc)
  finally show "drop (n + 1) ls = take (m - n - 1) (drop (n + 1) ls) @ ls ! m # drop (m + 1) ls" .
  have "take m ls = take (n + 1) ls @ take (m - n - 1) (drop (n + 1) ls)"
    using assms take_add [of "n + 1" "m - n - 1" ls] by simp
  then show "rev (take m ls) = rev (take (m - n - 1) (drop (n + 1) ls)) @ ls ! n # rev (take n ls)"
    using assms by (simp add: take_Suc_conv_app_nth)
qed

lemma CloseExpression_found:
  assumes "n \<le> m" "m < length (elided cl)" "i < length (elided cl ! n)" "0 < p"
    and "p \<le> length (elided cl ! m)"
    and T: "text_between (elided cl) n i m p = a # w @ [b]"
    and "bracket_pair a b" "nested bracket_pair plain_char w"
  shows "CloseExpression cl n i = Some (elided cl ! m, m, int p)"
proof -
  let ?f = "fwd_char [] 0" and ?l = "elided cl ! n"
  have R: "run ?f [] (a # w @ b # v) = Inl (Some (length w + 2))" for v
    using fwd.run_expression [OF assms(7,8)] .
  have al: "list_all fwd.allowed (a # w @ [b])"
    using fwd.nested_allowed [OF assms(8)] assms(7) by (auto simp: fwd.allowed_def)
  obtain v where v: "drop i ?l = a # v"
  proof -
    have "drop i ?l \<noteq> []" using assms(3) by simp
    then obtain c v where "drop i ?l = c # v" by (cases "drop i ?l") auto
    moreover from this have "c = a"
      using T assms(3) by (cases "n = m") (auto simp: text_between_def drop_take take_Cons' split: if_splits)
    ultimately show ?thesis using that by blast
  qed
  then have a: "?l ! i = a" by (metis assms(3) nth_via_drop)
  have ok: "\<not> (?l ! i \<notin> set ''({[<'' \<or> matches SHIFT_PAT (drop i ?l))"
    using assms(7) a v SHIFT_head [of "drop i ?l"] by (auto elim!: bracket_pairE)
  show ?thesis
  proof (cases "n = m")
    case True
    then have tx: "drop i (take p ?l) = a # w @ [b]" using T by (simp add: text_between_def)
    then have "length (drop i (take p ?l)) = length w + 2" by simp
    then have len: "p - i = length w + 2" "p \<le> length ?l" using assms(5) True by simp_all
    then have "drop i ?l = (a # w @ [b]) @ drop p ?l"
      unfolding tx [symmetric] by (metis append_take_drop_id drop_append drop_eq_Nil drop_drop
          diff_is_0_eq drop0 length_take min.absorb2 nat_le_linear zero_neq_numeral add_is_0)
    then show ?thesis
      using fwd_scan_run [OF al, of ?l i "[]" "drop p ?l"] R [of "[]"] assms(2,3) True ok len
      by (simp add: CloseExpression_def FindEndOfExpressionInLine_def)
  next
    case False
    let ?ws = "take (m - n - 1) (drop (n + 1) (elided cl))" and ?m = "elided cl ! m"
    have nm: "n < m" using False assms(1) by simp
    have tx: "a # v @ concat ?ws @ take p ?m = a # w @ [b]"
      using T v False by (simp add: text_between_def)
    have ne: "concat ?ws @ take p ?m \<noteq> []" using assms(4,5) by (cases ?m) auto
    have r: "run ?f [a] (v @ concat ?ws @ take p ?m) = Inl (Some (length (v @ concat ?ws @ take p ?m)))"
      using R [of "[]"] tx fwd_char_simps(1) [OF assms(7)] by (auto simp: delay_Some_iff)
    have al': "list_all fwd.allowed (a # v)" "list_all fwd.allowed (v @ concat ?ws @ take p ?m)"
      using al unfolding tx [symmetric] by simp_all
    obtain s where s: "run ?f [a] v = Inr s" "s \<noteq> []" "\<forall>c \<in> set s. \<exists>b. bracket_pair c b"
      "run ?f s (concat ?ws @ take p ?m) = Inl (Some (length (concat ?ws @ take p ?m)))"
      using fwd.run_prefix [OF r ne _ _ al'(2)] assms(7) by auto
    have "FindEndOfExpressionInLine ?l i [] = (-1, Some s)"
      using fwd_scan_run [OF al'(1), of ?l i "[]" "[]"] s(1) v fwd_char_simps(1) [OF assms(7)]
      by (simp add: FindEndOfExpressionInLine_def)
    moreover have "close_loop (NumLines cl) ?l n (Some s) (drop (n + 1) (elided cl)) = (?m, m, int p)"
      using close_loop_found [OF s(4) assms(4,5) s(2,3), of "NumLines cl" ?l n "drop (m + 1) (elided cl)"]
        al'(2) elided_split(1) [OF nm assms(2)] nm assms(2) by simp
    ultimately show ?thesis
      using assms(2,3) nm ok by (simp add: CloseExpression_def Let_def)
  qed
qed


lemma ReverseCloseExpression_found:
  assumes "n \<le> m" "m < length (elided cl)" "i < length (elided cl ! n)" "0 < p"
    and "p \<le> length (elided cl ! m)"
    and T: "text_between (elided cl) n i m p = a # w @ [b]"
    and "bracket_pair a b" "nested bracket_pair plain_char w"
  shows "ReverseCloseExpression cl m (p - 1) = Some (elided cl ! n, n, int i)"
proof -
  let ?f = "bwd_char [] 0" and ?l = "elided cl ! n" and ?m = "elided cl ! m"
  have nw: "nested (\<lambda>a b. bracket_pair b a) plain_char (rev w)" using nested_rev [OF assms(8)] .
  have R: "run ?f [] (b # rev w @ a # v) = Inl (Some (length w + 2))" for v
    using bwd.run_expression [OF assms(7) nw] by simp
  have al: "list_all bwd.allowed (b # rev w @ [a])"
    using bwd.nested_allowed [OF nw] assms(7) by (auto simp: bwd.allowed_def)
  have dl: "length (drop i ?l) = length ?l - i" "0 < length ?l - i" using assms(3) by simp_all
  obtain v where v: "take p ?m = v @ [b]"
  proof -
    have "take p ?m \<noteq> []" using assms(4,5) by (cases ?m) auto
    then obtain v c where "take p ?m = v @ [c]" by (metis rev_exhaust)
    moreover have "c = b"
    proof (cases "n = m")
      case True
      then have "drop i (v @ [c]) = a # w @ [b]" using T \<open>take p ?m = v @ [c]\<close> by (simp add: text_between_def)
      moreover from this have "i < length (v @ [c])" by (metis drop_eq_Nil leI list.distinct(1))
      ultimately show ?thesis using last_drop [of i "v @ [c]"] by simp
    next
      case False
      then have "(drop i ?l @ concat (take (m - n - 1) (drop (n + 1) (elided cl))) @ v) @ [c] = (a # w) @ [b]"
        using T \<open>take p ?m = v @ [c]\<close> by (simp add: text_between_def)
      then show ?thesis unfolding append1_eq_conv by blast
    qed
    ultimately show ?thesis using that by blast
  qed
  then have "length (take p ?m) = Suc (length v)" by simp
  then have pv: "p = Suc (length v)" using assms(5) by simp
  then have pb: "?m ! (p - 1) = b"
    using nth_take [of "length v" p ?m] v by (metis diff_Suc_1 lessI nth_append_length)
  have ok: "?m ! (p - 1) \<in> set '')}]>''" using pb assms(7) by (auto elim!: bracket_pairE)
  have np: "nat (int (p - 1) + 1) = p" using assms(4) by simp
  show ?thesis
  proof (cases "n = m")
    case True
    then have tx: "drop i (take p ?m) = a # w @ [b]" using T by (simp add: text_between_def)
    then have "length (drop i (take p ?m)) = length w + 2" by simp
    then have len: "p - i = length w + 2" "p \<le> length ?m" using assms(5) by simp_all
    have "take (p - i) (rev (take p ?m)) = b # rev w @ [a]"
      using arg_cong [OF tx, of rev] len by (simp add: rev_drop)
    then have "bwd_scan ?m [] p = (int (p - (length w + 2)), None)"
      using bwd_scan_run [OF len(2), of "p - i" "[]"] al R [of "[]"] len(1) by simp
    moreover have "p - (length w + 2) = i" using len by linarith
    ultimately have "FindStartOfExpressionInLine ?m (int (p - 1)) [] = (int i, None)"
      unfolding FindStartOfExpressionInLine_def np by simp
    then show ?thesis
      using assms(2-5) True ok by (simp add: ReverseCloseExpression_def Let_def)
  next
    case False
    let ?ws = "take (m - n - 1) (drop (n + 1) (elided cl))" and ?k = "length ?l - i"
    let ?rest = "concat (map rev (rev ?ws)) @ take ?k (rev ?l)"
    have nm: "n < m" using False assms(1) by simp
    have "drop i ?l @ concat ?ws @ v @ [b] = a # w @ [b]"
      using T v False by (simp add: text_between_def)
    then have tx: "b # rev v @ ?rest = b # rev w @ [a]"
      using arg_cong [of "drop i ?l @ concat ?ws @ v @ [b]" "a # w @ [b]" rev]
      by (simp add: rev_concat rev_map rev_drop)
    have "?l \<noteq> []" using assms(3) by (cases ?l) simp_all
    then have ne: "?rest \<noteq> []" using dl(2) by simp
    have r: "run ?f [b] (rev v @ ?rest) = Inl (Some (length (rev v @ ?rest)))"
      using R [of "[]"] tx bwd_char_simps(1) [OF assms(7)] by (auto simp: delay_Some_iff)
    have al': "list_all bwd.allowed (b # rev v)" "list_all bwd.allowed (rev v @ ?rest)"
      using al unfolding tx [symmetric] by simp_all
    obtain s where s: "run ?f [b] (rev v) = Inr s" "s \<noteq> []" "\<forall>c \<in> set s. \<exists>b. bracket_pair b c"
      "run ?f s ?rest = Inl (Some (length ?rest))"
      using bwd.run_prefix [OF r ne _ _ al'(2)] assms(7) by auto
    have tv: "take p (rev (take p ?m)) = b # rev v" using v pv by simp
    have "bwd_scan ?m [] p = (-1, Some s)"
      using bwd_scan_run [OF assms(5), of p "[]"] al'(1) s(1) bwd_char_simps(1) [OF assms(7)]
      unfolding tv by simp
    then have "FindStartOfExpressionInLine ?m (int (p - 1)) [] = (-1, Some s)"
      unfolding FindStartOfExpressionInLine_def np .
    moreover have "open_loop ?m m (Some s) (rev (take m (elided cl))) = (?l, n, int i)"
      using open_loop_found [OF s(4) dl(2) _ s(2,3), of ?m m "rev (take n (elided cl))"]
        al'(2) elided_split(2) [OF nm assms(2)] nm assms(2,3) by simp
    ultimately show ?thesis
      using assms(2-5) nm ok by (simp add: ReverseCloseExpression_def Let_def)
  qed
qed


lemma fwd_scan_bound:
  "fwd_scan line i s cs = (p, r) \<Longrightarrow> p = -1 \<or> (int i < p \<and> p \<le> int (i + length cs))"
proof (induction cs arbitrary: i s)
  case (Cons c cs)
  show ?case
  proof (cases "fwd_char line i c s")
    case (Go s')
    then show ?thesis using Cons.IH [of "Suc i" s'] Cons.prems by auto
  next
    case (Skip s')
    then show ?thesis using Cons.IH [of "Suc i" s'] Cons.prems by auto
  qed (use Cons.prems in auto)
qed simp

lemma FindEnd_bound:
  "FindEndOfExpressionInLine line i s = (p, r) \<Longrightarrow> i \<le> length line \<Longrightarrow>
     p = -1 \<or> (int i < p \<and> p \<le> int (length line))"
  using fwd_scan_bound [of line i s "drop i line" p r] by (auto simp: FindEndOfExpressionInLine_def)

lemma close_loop_bound:
  "close_loop num line n stack rest = (l, m, p) \<Longrightarrow>
     p = -1 \<and> m = num \<or> (\<exists>k < length rest. m = n + k + 1 \<and> l = rest ! k \<and> 0 < p \<and> p \<le> int (length l))"
proof (induction rest arbitrary: line n stack)
  case (Cons x rest)
  show ?case
  proof (cases "stack = None \<or> stack = Some []")
    case True
    then show ?thesis using Cons.prems by auto
  next
    case False
    obtain e s' where e: "FindEndOfExpressionInLine x 0 (the stack) = (e, s')" by force
    show ?thesis
    proof (cases "e > -1")
      case True
      then have "l = x" "m = n + 1" "p = e" using Cons.prems False e by auto
      then show ?thesis using FindEnd_bound [OF e] True by (intro disjI2 exI [of _ 0]) auto
    next
      case f: False
      then have "close_loop num x (n + 1) s' rest = (l, m, p)" using Cons.prems False e by auto
      from Cons.IH [OF this] show ?thesis
      proof
        assume "\<exists>k<length rest. m = n + 1 + k + 1 \<and> l = rest ! k \<and> 0 < p \<and> p \<le> int (length l)"
        then obtain k where "k < length rest" "m = n + 1 + k + 1" "l = rest ! k" "0 < p" "p \<le> int (length l)"
          by blast
        then show ?thesis by (intro disjI2 exI [of _ "Suc k"]) simp
      qed simp
    qed
  qed
qed simp

lemma CloseExpression_bound:
  assumes "n < length (elided cl)" "i < length (elided cl ! n)"
  shows "\<exists>l m p. CloseExpression cl n i = Some (l, m, p) \<and>
     (p = -1 \<and> m = NumLines cl \<or>
      n \<le> m \<and> m < length (elided cl) \<and> l = elided cl ! m \<and> 0 < p \<and> p \<le> int (length l) \<and>
      (m = n \<longrightarrow> int i < p))"
proof -
  obtain e s where e: "FindEndOfExpressionInLine (elided cl ! n) i [] = (e, s)" by force
  obtain l m p where c: "close_loop (NumLines cl) (elided cl ! n) n s (drop (n + 1) (elided cl)) = (l, m, p)"
    by (metis prod_cases3)
  note b = FindEnd_bound [OF e] and cb = close_loop_bound [OF c]
  show ?thesis
  proof (cases "elided cl ! n ! i \<notin> set ''({[<'' \<or> matches SHIFT_PAT (drop i (elided cl ! n)) \<or> e > -1")
    case True
    then show ?thesis using assms b e by (auto simp: CloseExpression_def Let_def)
  next
    case False
    then have "CloseExpression cl n i = Some (l, m, p)"
      using assms e c by (auto simp: CloseExpression_def Let_def)
    then show ?thesis using cb assms by (auto simp: algebra_simps)
  qed
qed

subsection \<open>Properties\<close>

text \<open>C16: From an opening parenthesis, bracket or brace whose matching closer lies on the same or
  on a later line, with a nested text in between that has no angle bracket and no semicolon,
  the forward search answers with the position just after that closer, and the backward search
  from the closer answers with the position of the opener.\<close>

theorem CloseExpression_round_trip:
  assumes "n \<le> m" "m < length (elided cl)" "i < length (elided cl ! n)" "0 < p"
    and "p \<le> length (elided cl ! m)"
    and "text_between (elided cl) n i m p = a # w @ [b]"
    and "bracket_pair a b" "nested bracket_pair plain_char w"
  shows "CloseExpression cl n i = Some (elided cl ! m, m, int p) \<and>
     ReverseCloseExpression cl m (p - 1) = Some (elided cl ! n, n, int i)"
  using CloseExpression_found [OF assms] ReverseCloseExpression_found [OF assms] by blast

theorem CloseExpression_round_trip_witness:
  "\<exists>cl. elided cl = [''f(a,'', '' g(b))'' ] \<and>
     CloseExpression cl 0 1 = Some ('' g(b))'', 1, 6) \<and>
     ReverseCloseExpression cl 1 5 = Some (''f(a,'', 0, 1)"
proof -
  let ?cl = "\<lparr>elided = [''f(a,'', '' g(b))''], lines = [''f(a,'', '' g(b))''],
    raw_lines = [''f(a,'', '' g(b))''], lines_without_raw_strings = [''f(a,'', '' g(b))'']\<rparr>"
  have "nested bracket_pair plain_char (''a, g'' @ CHR ''('' # ''b'' @ CHR '')'' # [])"
    unfolding append.simps
    by (intro nested.nested_plain nested.nested_wrap [of bracket_pair _ _ _ "''b''" "[]", simplified]
        nested.nested_nil) (simp_all add: plain_char_def bracket_pair_def)
  then show ?thesis
    using CloseExpression_round_trip [of 0 1 ?cl 1 6 "CHR ''(''" "''a, g(b)''" "CHR '')''"]
    by (intro exI [of _ ?cl]) (simp add: text_between_def bracket_pair_def)
qed

text \<open>C17: Whatever the lines hold, a search from a position of the file does not fail, and it answers
  either that there is no closer, with the number of lines and -1, or with a line of the file not
  before the start and a position on it, beyond the start when it is the same line.\<close>

theorem CloseExpression_in_bounds:
  assumes "n < length (elided cl)" "i < length (elided cl ! n)"
  shows "\<exists>l m p. CloseExpression cl n i = Some (l, m, p) \<and>
     (p = -1 \<and> m = NumLines cl \<or>
      n \<le> m \<and> m < length (elided cl) \<and> l = elided cl ! m \<and> 0 < p \<and> p \<le> int (length l) \<and>
      (m = n \<longrightarrow> int i < p))"
  using CloseExpression_bound [OF assms] .

theorem CloseExpression_in_bounds_witness:
  "\<exists>cl l m p. CloseExpression cl 0 1 = Some (l, m, p) \<and> NumLines cl = 1"
  using CloseExpression_in_bounds [of 0 "\<lparr>elided = [''f(x)''], lines = [''f(x)''],
    raw_lines = [''f(x)''], lines_without_raw_strings = [''f(x)'']\<rparr>" 1]
  by (fastforce simp: NumLines_def)

end
