(* ===== verification/File_Info.thy ===== *)
theory File_Info
  imports Regex
begin

text \<open>
  File names: the functions of \<open>os.path\<close> that the linter uses, on a POSIX system, the class
  \<open>FileInfo\<close>, \<open>PathSplitToList\<close> and \<open>GetHeaderGuardCPPVariable\<close> (tools/scripts/cpplint.py,
  lines 692 to 695, 1097 to 1185 and 1784 to 1877).  The current directory \<open>cwd\<close> and the file
  system, of which only \<open>exists\<close> is asked, are parameters.
\<close>

subsection \<open>Paths\<close>

definition sep :: char where "sep = CHR ''/''"

definition all_sep :: "string \<Rightarrow> bool" where
  "all_sep s = list_all (\<lambda>c. c = sep) s"

text \<open>\<open>os.path.split\<close>: what follows the last separator, and what precedes it without the
  separators at its end, unless it is made of separators only.\<close>

definition path_split :: "string \<Rightarrow> string \<times> string" where
  "path_split p =
     (let i = nat (py_rfind p sep + 1);
          head = take i p; tail = drop i p
      in (if head \<noteq> [] \<and> \<not> all_sep head then rstrip_by (\<lambda>c. c = sep) head else head, tail))"

definition dirname :: "string \<Rightarrow> string" where
  "dirname p = fst (path_split p)"

definition path_join2 :: "string \<Rightarrow> string \<Rightarrow> string" where
  "path_join2 path b =
     (if startswith b ''/'' then b
      else if path = [] \<or> endswith path ''/'' then path @ b
      else path @ ''/'' @ b)"

fun path_join :: "string \<Rightarrow> string list \<Rightarrow> string" where
  "path_join a [] = a"
| "path_join a (b # ps) = path_join (path_join2 a b) ps"

text \<open>\<open>os.path.splitext\<close>: a dot that leads the last component does not start an extension.\<close>

definition splitext :: "string \<Rightarrow> string \<times> string" where
  "splitext p =
     (let sep_index = py_rfind p sep; dot_index = py_rfind p (CHR ''.'')
      in if dot_index > sep_index \<and>
            (\<exists>c \<in> set (slice p (sep_index + 1) dot_index). c \<noteq> CHR ''.'')
         then (slice_to p dot_index, slice_from p dot_index)
         else (p, []))"

fun norm_comps :: "bool \<Rightarrow> string list \<Rightarrow> string list \<Rightarrow> string list" where
  "norm_comps initial_slashes [] new_comps = rev new_comps"
| "norm_comps initial_slashes (part # comps) new_comps =
     (if part = [] \<or> part = ''.'' then norm_comps initial_slashes comps new_comps
      else if part \<noteq> ''..'' \<or> (\<not> initial_slashes \<and> new_comps = []) \<or>
              (new_comps \<noteq> [] \<and> hd new_comps = ''..'')
      then norm_comps initial_slashes comps (part # new_comps)
      else norm_comps initial_slashes comps (tl new_comps))"

definition normpath :: "string \<Rightarrow> string" where
  "normpath path =
     (if path = [] then ''.''
      else (let initial_slashes =
                  (if startswith path ''/'' then
                     (if startswith path ''//'' \<and> \<not> startswith path ''///'' then 2 else 1)
                   else (0 :: nat));
                path' = replicate initial_slashes sep @
                  py_join ''/'' (norm_comps (initial_slashes > 0) (split_char sep path) [])
            in if path' = [] then ''.'' else path'))"

definition abspath :: "string \<Rightarrow> string \<Rightarrow> string" where
  "abspath cwd path =
     normpath (if startswith path ''/'' then path else path_join2 cwd path)"

text \<open>\<open>os.path.commonprefix\<close> of two strings compares them character by character.\<close>

fun commonprefix :: "string \<Rightarrow> string \<Rightarrow> string" where
  "commonprefix (c # s) (d # t) = (if c = d then c # commonprefix s t else [])"
| "commonprefix s t = []"

subsection \<open>Facts about paths\<close>

lemma rfind_at_none: "c \<notin> set s \<Longrightarrow> rfind_at i c s r = r"
  by (induction s arbitrary: i r) auto

lemma rfind_at_last:
  "c \<notin> set v \<Longrightarrow> rfind_at i c (u @ c # v) r = int (i + length u)"
  by (induction u arbitrary: i r) (auto simp: rfind_at_none)

lemma path_split_none: "sep \<notin> set p \<Longrightarrow> path_split p = ([], p)"
  by (simp add: path_split_def py_rfind_def rfind_at_none Let_def)

lemma path_split_sep:
  assumes "sep \<notin> set v"
  shows "path_split (u @ sep # v) =
     (if all_sep u then u @ [sep] else rstrip_by (\<lambda>c. c = sep) u, v)"
proof -
  have "nat (py_rfind (u @ sep # v) sep + 1) = length u + 1"
    using rfind_at_last [OF assms, of 0 u] by (simp add: py_rfind_def)
  moreover have "rstrip_by (\<lambda>c. c = sep) (u @ [sep]) = rstrip_by (\<lambda>c. c = sep) u"
    by (simp add: rstrip_by_def)
  ultimately show ?thesis by (simp add: path_split_def all_sep_def Let_def)
qed

lemma path_cases:
  obtains "sep \<notin> set p" | u v where "p = u @ sep # v" "sep \<notin> set v"
  by (metis split_list_last)

lemma prefix_rstrip: "prefix (rstrip_by P s) s"
  unfolding rstrip_by_def
  by (metis prefixI rev_append rev_rev_ident takeWhile_dropWhile_id)

lemma dirname_prefix: "prefix (dirname p) p"
proof (cases p rule: path_cases)
  case 1
  then show ?thesis by (simp add: dirname_def path_split_none)
next
  case (2 u v)
  then show ?thesis
    using prefix_rstrip [of "\<lambda>c. c = sep" u] by (auto simp: dirname_def path_split_sep intro: prefix_prefix)
qed

lemma dirname_shorter: "dirname p \<noteq> p \<Longrightarrow> length (dirname p) < length p"
  using dirname_prefix [of p] prefix_length_less strict_prefixI by blast

lemma split_head_shorter: "fst (path_split p) \<noteq> p \<Longrightarrow> length (fst (path_split p)) < length p"
  using dirname_shorter by (simp add: dirname_def)

subsection \<open>FileInfo\<close>

definition IsSourceExtension :: "string \<Rightarrow> bool" where
  "IsSourceExtension s = (s \<in> set [''c'', ''cc'', ''cpp'', ''cxx''])"

definition FullName :: "string \<Rightarrow> string \<Rightarrow> string" where
  "FullName cwd filename = py_replace [bs] ''/'' (abspath cwd filename)"

text \<open>
  The search for the top of a Subversion checkout.  It does not stop at the root of the file
  system, so that it may run forever: then it has the value \<open>None\<close>.
\<close>

partial_function (option) svn_top :: "(string \<Rightarrow> bool) \<Rightarrow> string \<Rightarrow> string \<Rightarrow> string option" where
  "svn_top exists root_dir one_up_dir =
     (if exists (path_join2 one_up_dir ''.svn'')
      then svn_top exists (dirname root_dir) (dirname one_up_dir)
      else Some root_dir)"

definition has_vcs :: "(string \<Rightarrow> bool) \<Rightarrow> string \<Rightarrow> bool" where
  "has_vcs exists dir = (exists (path_join2 dir ''.git'') \<or> exists (path_join2 dir ''.hg'') \<or>
     exists (path_join2 dir ''.svn''))"

text \<open>The search for the topmost directory, below the root, with a repository in it.\<close>

function vcs_top :: "(string \<Rightarrow> bool) \<Rightarrow> string \<Rightarrow> string \<Rightarrow> string" where
  "vcs_top exists root_dir current_dir =
     (if current_dir \<noteq> dirname current_dir then
        vcs_top exists (if has_vcs exists current_dir then current_dir else root_dir)
          (dirname current_dir)
      else root_dir)"
  by pat_completeness auto
termination
  by (relation "measure (\<lambda>(exists, root_dir, current_dir). length current_dir)")
     (auto intro!: dirname_shorter)

declare vcs_top.simps [simp del]

definition RepositoryName :: "(string \<Rightarrow> bool) \<Rightarrow> string \<Rightarrow> string \<Rightarrow> string option" where
  "RepositoryName exists cwd filename =
     (let fullname = FullName cwd filename; project_dir = dirname fullname
      in if \<not> exists fullname then Some fullname
         else if exists (path_join2 project_dir ''.svn'') then
           (case svn_top exists project_dir (dirname project_dir) of
              None \<Rightarrow> None
            | Some root_dir \<Rightarrow>
                Some (drop (length (commonprefix root_dir project_dir) + 1) fullname))
         else (let root_dir = vcs_top exists project_dir project_dir
               in if has_vcs exists root_dir
                  then Some (drop (length (commonprefix root_dir project_dir) + 1) fullname)
                  else Some fullname))"

text \<open>\<open>Split\<close> and the operations on its parts; they all rest on the repository name.\<close>

definition fi_Split :: "(string \<Rightarrow> bool) \<Rightarrow> string \<Rightarrow> string \<Rightarrow> (string \<times> string \<times> string) option" where
  "fi_Split exists cwd filename =
     (case RepositoryName exists cwd filename of
        None \<Rightarrow> None
      | Some googlename \<Rightarrow>
          (case path_split googlename of (project, rest) \<Rightarrow> Some (project, splitext rest)))"

definition BaseName :: "(string \<Rightarrow> bool) \<Rightarrow> string \<Rightarrow> string \<Rightarrow> string option" where
  "BaseName exists cwd filename = map_option (\<lambda>(p, b, e). b) (fi_Split exists cwd filename)"

definition Extension :: "(string \<Rightarrow> bool) \<Rightarrow> string \<Rightarrow> string \<Rightarrow> string option" where
  "Extension exists cwd filename = map_option (\<lambda>(p, b, e). e) (fi_Split exists cwd filename)"

definition NoExtension :: "(string \<Rightarrow> bool) \<Rightarrow> string \<Rightarrow> string \<Rightarrow> string option" where
  "NoExtension exists cwd filename =
     map_option (\<lambda>(p, b, e). py_join ''/'' [p, b]) (fi_Split exists cwd filename)"

definition IsSource :: "(string \<Rightarrow> bool) \<Rightarrow> string \<Rightarrow> string \<Rightarrow> bool option" where
  "IsSource exists cwd filename =
     map_option (\<lambda>e. IsSourceExtension (drop 1 e)) (Extension exists cwd filename)"

subsection \<open>Header guards\<close>

function split_to_list :: "string \<Rightarrow> string list \<Rightarrow> string list" where
  "split_to_list path lst =
     (case path_split path of (head, tail) \<Rightarrow>
        if head = path then head # lst
        else if tail = path then tail # lst
        else split_to_list head (tail # lst))"
  by pat_completeness auto
termination
  by (relation "measure (\<lambda>(path, lst). length path)") (auto, metis fst_conv split_head_shorter)

declare split_to_list.simps [simp del]

text \<open>The list is collected last component first and then reversed.\<close>

definition PathSplitToList :: "string \<Rightarrow> string list" where
  "PathSplitToList path = split_to_list path []"

definition StripListPrefix :: "string list \<Rightarrow> string list \<Rightarrow> string list option" where
  "StripListPrefix lst pre = (if take (length pre) lst \<noteq> pre then None else Some (drop (length pre) lst))"

text \<open>The path of the file as the \<open>--root\<close> option wants it; the option is \<open>None\<close> when not given.\<close>

definition FixupPathFromRoot ::
    "string \<Rightarrow> string option \<Rightarrow> string \<Rightarrow> string \<Rightarrow> string" where
  "FixupPathFromRoot cwd root filename file_path_from_root =
     (case root of
        None \<Rightarrow> file_path_from_root
      | Some [] \<Rightarrow> file_path_from_root
      | Some r \<Rightarrow>
          (case StripListPrefix (PathSplitToList file_path_from_root) (PathSplitToList r) of
             Some (p # ps) \<Rightarrow> path_join p ps
           | _ \<Rightarrow>
               (case StripListPrefix (PathSplitToList (FullName cwd filename))
                       (PathSplitToList (abspath cwd r)) of
                  Some (p # ps) \<Rightarrow> path_join p ps
                | _ \<Rightarrow> file_path_from_root)))"

definition FLYMAKE_SUFFIX_PAT :: rx where
  "FLYMAKE_SUFFIX_PAT = rseq [RLit ''_flymake.h'', REol]"

definition FLYMAKE_DIR_PAT :: rx where
  "FLYMAKE_DIR_PAT = rseq [RLit ''/.flymake/'', RGrp 1 (RStar (RNotIn [CI (CHR ''/'')])), REol]"

definition NOT_ALNUM_PAT :: rx where
  "NOT_ALNUM_PAT = RNotIn [CR (CHR ''a'') (CHR ''z''), CR (CHR ''A'') (CHR ''Z''),
     CR (CHR ''0'') (CHR ''9'')]"

definition GetHeaderGuardCPPVariable ::
    "(string \<Rightarrow> bool) \<Rightarrow> string \<Rightarrow> string option \<Rightarrow> string \<Rightarrow> string option" where
  "GetHeaderGuardCPPVariable exists cwd root filename =
     (let f1 = re_sub FLYMAKE_SUFFIX_PAT (\<lambda>_. ''.h'') filename;
          f2 = re_sub FLYMAKE_DIR_PAT (\<lambda>m. ''/'' @ grp m 1) f1;
          f3 = py_replace ''c++'' ''cpp'' (py_replace ''C++'' ''cpp'' f2)
      in case RepositoryName exists cwd f3 of
           None \<Rightarrow> None
         | Some name \<Rightarrow>
             Some (py_upper (re_sub NOT_ALNUM_PAT (\<lambda>_. ''_'') (FixupPathFromRoot cwd root f3 name)) @ ''_''))"


subsection \<open>Facts about repository names\<close>

lemma svn_top_Some:
  assumes "svn_top exists root_dir d = Some r"
  shows "\<exists>k. \<not> exists (path_join2 ((dirname ^^ k) d) ''.svn'')"
proof (rule svn_top.raw_induct [where P = "\<lambda>exists root_dir d r.
    \<exists>k. \<not> exists (path_join2 ((dirname ^^ k) d) ''.svn'')", OF _ assms])
  fix svn and exists :: "string \<Rightarrow> bool" and root_dir d r :: string
  assume IH: "\<And>ex rt d r. svn ex rt d = Some r \<Longrightarrow>
      \<exists>k. \<not> (ex :: string \<Rightarrow> bool) (path_join2 ((dirname ^^ k) d) ''.svn'')"
    and r: "(if exists (path_join2 d ''.svn'') then svn exists (dirname root_dir) (dirname d)
      else Some root_dir) = Some r"
  show "\<exists>k. \<not> exists (path_join2 ((dirname ^^ k) d) ''.svn'')"
  proof (cases "exists (path_join2 d ''.svn'')")
    case True
    then have "svn exists (dirname root_dir) (dirname d) = Some r" using r by simp
    from IH [OF this] obtain k where "\<not> exists (path_join2 ((dirname ^^ k) (dirname d)) ''.svn'')" ..
    then show ?thesis by (intro exI [of _ "Suc k"]) (simp add: funpow_swap1)
  next
    case False
    then show ?thesis by (intro exI [of _ 0]) simp
  qed
qed

lemma svn_top_stops:
  "\<not> exists (path_join2 ((dirname ^^ k) d) ''.svn'') \<Longrightarrow> \<exists>r. svn_top exists root_dir d = Some r"
proof (induction k arbitrary: root_dir d)
  case 0
  then show ?case by (subst svn_top.simps) simp
next
  case (Suc k)
  then have "\<exists>r. svn_top exists (dirname root_dir) (dirname d) = Some r"
    by (simp add: funpow_swap1)
  then show ?case by (subst svn_top.simps) simp
qed

lemma svn_top_iff:
  "svn_top exists root_dir d = None \<longleftrightarrow> (\<forall>k. exists (path_join2 ((dirname ^^ k) d) ''.svn''))"
  using svn_top_Some svn_top_stops by (metis not_Some_eq)

text \<open>The directories from one upwards, up to the one that is its own parent.\<close>

function ancestors :: "string \<Rightarrow> string list" where
  "ancestors d = (if d \<noteq> dirname d then d # ancestors (dirname d) else [])"
  by pat_completeness auto
termination by (relation "measure length") (auto intro!: dirname_shorter)

declare ancestors.simps [simp del]

lemma vcs_top_last:
  "vcs_top exists r d = last (r # filter (has_vcs exists) (ancestors d))"
proof (induction exists r d rule: vcs_top.induct)
  case (1 exists r d)
  show ?case
  proof (cases "d \<noteq> dirname d")
    case True
    then show ?thesis
      using "1.IH" by (subst vcs_top.simps, subst ancestors.simps) simp
  next
    case False
    then show ?thesis by (subst vcs_top.simps, subst ancestors.simps) simp
  qed
qed

lemma all_sep_rstrip: "all_sep (rstrip_by (\<lambda>c. c = sep) u) \<Longrightarrow> all_sep u"
proof -
  let ?v = "takeWhile (\<lambda>c. c = sep) (rev u)"
  assume "all_sep (rstrip_by (\<lambda>c. c = sep) u)"
  moreover have "u = rstrip_by (\<lambda>c. c = sep) u @ rev ?v"
    unfolding rstrip_by_def by (metis rev_append rev_rev_ident takeWhile_dropWhile_id)
  moreover have "all_sep (rev ?v)" by (auto simp: all_sep_def list_all_iff dest: set_takeWhileD)
  ultimately show ?thesis by (metis all_sep_def list_all_append)
qed

lemma rstrip_then_sep:
  "\<exists>w. u @ sep # v = rstrip_by (\<lambda>c. c = sep) u @ sep # w"
proof -
  let ?t = "rev (takeWhile (\<lambda>c. c = sep) (rev u))"
  have u: "u = rstrip_by (\<lambda>c. c = sep) u @ ?t"
    unfolding rstrip_by_def by (metis rev_append rev_rev_ident takeWhile_dropWhile_id)
  have "\<exists>w. ?t @ sep # v = sep # w"
  proof (cases ?t)
    case (Cons c t)
    then have "c \<in> set (takeWhile (\<lambda>c. c = sep) (rev u))" by (metis list.set_intros(1) set_rev)
    then have "c = sep" by (rule set_takeWhileD [THEN conjunct2])
    then show ?thesis using Cons by simp
  qed simp
  then show ?thesis using u by (metis append.assoc)
qed

lemma dirname_split:
  assumes "\<not> all_sep (dirname p)"
  shows "\<exists>w. p = dirname p @ sep # w"
proof (cases p rule: path_cases)
  case 1
  then show ?thesis using assms by (simp add: dirname_def path_split_none all_sep_def)
next
  case (2 u v)
  then have "dirname p = rstrip_by (\<lambda>c. c = sep) u"
    using assms by (auto simp: dirname_def path_split_sep all_sep_def split: if_splits)
  then show ?thesis using rstrip_then_sep [of u v] 2 by simp
qed

lemma all_sep_dirname: "all_sep p \<Longrightarrow> all_sep (dirname p)"
  using dirname_prefix [of p] unfolding all_sep_def prefix_def by (metis list_all_append)

lemma dirname_all_sep: "all_sep p \<Longrightarrow> dirname p = p"
proof (cases p rule: path_cases)
  case 1
  moreover assume "all_sep p"
  ultimately have "p = []" by (cases p) (auto simp: all_sep_def)
  then show ?thesis by (simp add: dirname_def path_split_none)
next
  case (2 u v)
  moreover assume "all_sep p"
  ultimately have "all_sep u" "v = []" by (cases v; auto simp: all_sep_def)+
  then show ?thesis using 2 by (simp add: dirname_def path_split_sep)
qed

lemma ancestors_not_sep: "d \<in> set (ancestors p) \<Longrightarrow> \<not> all_sep d"
proof (induction p rule: ancestors.induct)
  case (1 p)
  then show ?case
    by (subst (asm) (2) ancestors.simps) (auto split: if_splits dest: dirname_all_sep)
qed

lemma ancestors_split:
  "d \<in> set (ancestors p) \<Longrightarrow> d = p \<or> (\<exists>w. p = d @ sep # w)"
proof (induction p rule: ancestors.induct)
  case (1 p)
  show ?case
  proof (cases "d = p")
    case False
    then have ne: "p \<noteq> dirname p" and d: "d \<in> set (ancestors (dirname p))"
      using "1.prems" by (subst (asm) ancestors.simps, simp split: if_splits)+
    have "\<not> all_sep (dirname p)"
      using "1.IH" [OF ne d] ancestors_not_sep [OF d] by (auto simp: all_sep_def)
    then obtain w where "p = dirname p @ sep # w" using dirname_split by blast
    moreover from "1.IH" [OF ne d] have "d = dirname p \<or> (\<exists>w'. dirname p = d @ sep # w')" .
    ultimately show ?thesis by (metis append.assoc append_Cons)
  qed simp
qed

lemma all_Suc: "(\<forall>k. P k) \<longleftrightarrow> P 0 \<and> (\<forall>k. P (Suc k))"
  by (metis not0_implies_Suc)

lemma commonprefix_append: "commonprefix s (s @ t) = s"
  by (induction s) simp_all

text \<open>C21: The name of a file within its repository is computed for every file, unless each directory
  from the file's up to the root of the file system holds a .svn entry, in which case the search
  for the top of the checkout never ends.\<close>

theorem RepositoryName_hangs_iff:
  "RepositoryName exists cwd f = None \<longleftrightarrow>
     exists (FullName cwd f) \<and>
     (\<forall>k. exists (path_join2 ((dirname ^^ Suc k) (FullName cwd f)) ''.svn''))"
proof -
  let ?p = "dirname (FullName cwd f)"
  have "(\<forall>k. exists (path_join2 ((dirname ^^ Suc k) (FullName cwd f)) ''.svn'')) \<longleftrightarrow>
      exists (path_join2 ?p ''.svn'') \<and>
      (\<forall>k. exists (path_join2 ((dirname ^^ k) (dirname ?p)) ''.svn''))"
    using all_Suc [of "\<lambda>k. exists (path_join2 ((dirname ^^ k) ?p) ''.svn'')"]
    by (simp add: funpow_swap1)
  then show ?thesis
    using svn_top_iff [of exists ?p "dirname ?p"]
    by (auto simp: RepositoryName_def Let_def split: option.splits)
qed

text \<open>C22: When the file's directory has no .svn entry and it or a directory above it, below the root,
  holds a repository, then the repository name is what follows the topmost such directory and
  one separator in the full name.\<close>

theorem RepositoryName_below_top:
  assumes "exists (FullName cwd f)" "\<not> exists (path_join2 (dirname (FullName cwd f)) ''.svn'')"
    and "filter (has_vcs exists) (ancestors (dirname (FullName cwd f))) = tops @ [root_dir]"
  shows "\<exists>name. RepositoryName exists cwd f = Some name \<and> FullName cwd f = root_dir @ ''/'' @ name"
proof -
  let ?f = "FullName cwd f" and ?p = "dirname (FullName cwd f)"
  have t: "vcs_top exists ?p ?p = root_dir" using assms(3) by (simp add: vcs_top_last)
  have "root_dir \<in> set (filter (has_vcs exists) (ancestors ?p))" using assms(3) by simp
  then have v: "has_vcs exists root_dir" and m: "root_dir \<in> set (ancestors ?p)" by auto
  obtain x where x: "?p = root_dir @ x" using ancestors_split [OF m] by auto
  have "\<not> all_sep ?p" using x ancestors_not_sep [OF m] by (auto simp: all_sep_def)
  then obtain w where "?f = ?p @ sep # w" using dirname_split by blast
  with ancestors_split [OF m] obtain w' where f: "?f = root_dir @ sep # w'"
    by (metis append.assoc append_Cons)
  have "commonprefix root_dir ?p = root_dir" using x commonprefix_append by metis
  then have "RepositoryName exists cwd f = Some w'"
    using assms(1,2) t v arg_cong [OF f, of "drop (length root_dir + 1)"]
    by (simp add: RepositoryName_def Let_def)
  then show ?thesis using f by (simp add: sep_def)
qed


lemma upper_char_alnum: "is_lower d \<or> is_upper d \<or> is_digit d \<Longrightarrow> is_upper (upper_char d) \<or> is_digit (upper_char d)"
  by (auto simp: upper_char_def is_lower_def is_upper_def is_digit_def ord_def)

lemma guard_char:
  assumes "c \<in> set (py_upper (re_sub NOT_ALNUM_PAT (\<lambda>_. ''_'') w))"
  shows "is_upper c \<or> is_digit c \<or> c = CHR ''_''"
proof -
  from assms obtain d where c: "c = upper_char d" and
    d: "d = CHR ''_'' \<or> is_lower d \<or> is_upper d \<or> is_digit d"
    by (auto simp: py_upper_def NOT_ALNUM_PAT_def re_sub_set is_lower_def is_upper_def is_digit_def ord_def
        split: if_splits)
  show ?thesis
  proof (cases "d = CHR ''_''")
    case True
    then show ?thesis unfolding c by (simp add: upper_char_def is_lower_def ord_def)
  next
    case False
    then show ?thesis using upper_char_alnum d c by blast
  qed
qed

lemma guard_var:
  assumes "GetHeaderGuardCPPVariable exists cwd root f = Some var"
  shows "list_all (\<lambda>c. is_upper c \<or> is_digit c \<or> c = CHR ''_'') var" "var \<noteq> []" "last var = CHR ''_''"
  using assms
  by (auto simp: GetHeaderGuardCPPVariable_def Let_def list_all_iff split: option.splits dest!: guard_char)

text \<open>C23: The macro name proposed for a header guard is made of capital letters, digits and
  underscores only and ends with an underscore.\<close>

theorem header_guard_is_identifier:
  assumes "GetHeaderGuardCPPVariable exists cwd root f = Some var"
  shows "list_all (\<lambda>c. is_upper c \<or> is_digit c \<or> c = CHR ''_'') var \<and> last var = CHR ''_''"
  using assms
  by (auto simp: GetHeaderGuardCPPVariable_def Let_def list_all_iff split: option.splits dest!: guard_char)


theorem header_guard_is_identifier_witness:
  "GetHeaderGuardCPPVariable (\<lambda>_. False) ''/r'' None ''a-b.h'' = Some ''_R_A_B_H_'' \<and>
     last ''_R_A_B_H_'' = CHR ''_''"
proof -
  have "GetHeaderGuardCPPVariable (\<lambda>_. False) ''/r'' None ''a-b.h'' = Some ''_R_A_B_H_''" by code_simp
  with header_guard_is_identifier [OF this] show ?thesis by simp
qed

theorem RepositoryName_below_top_witness:
  "\<exists>name. RepositoryName (\<lambda>p. p \<in> set [''/r/.git'', ''/r/s/a.h'']) ''/r'' ''s/a.h'' = Some name \<and>
     ''/r/s/a.h'' = ''/r'' @ ''/'' @ name"
proof -
  let ?ex = "\<lambda>p. p \<in> set [''/r/.git'', ''/r/s/a.h'']"
  have f: "FullName ''/r'' ''s/a.h'' = ''/r/s/a.h''" by code_simp
  have "?ex (FullName ''/r'' ''s/a.h'')" "\<not> ?ex (path_join2 (dirname (FullName ''/r'' ''s/a.h'')) ''.svn'')"
    "filter (has_vcs ?ex) (ancestors (dirname (FullName ''/r'' ''s/a.h''))) = [] @ [''/r'']"
    by code_simp+
  from RepositoryName_below_top [OF this] show ?thesis unfolding f .
qed

subsection \<open>Splitting a path into its components\<close>

lemma contains_append: "contains sub u \<Longrightarrow> contains sub (u @ v)"
  unfolding contains_iff by (metis append.assoc)

lemma path_split_join:
  assumes "\<not> contains ''//'' p" "path_split p = (head, tail)" "head \<noteq> p" "tail \<noteq> p"
  shows "path_join2 head tail = p \<and> \<not> contains ''//'' head"
proof (cases p rule: path_cases)
  case 1
  then show ?thesis using assms(2,4) by (simp add: path_split_none)
next
  case (2 u v)
  have last_u: "\<not> (\<exists>x. u = x @ [sep])"
  proof
    assume "\<exists>x. u = x @ [sep]"
    then obtain x where "p = x @ ''//'' @ v" using 2(1) by (auto simp: sep_def)
    then show False using assms(1) unfolding contains_iff by blast
  qed
  have "v = [] \<or> hd v \<noteq> sep" using 2(2) by (cases v) auto
  then have v: "\<not> startswith v ''/''" if "v \<noteq> []" using that by (cases v) (auto simp: sep_def)
  show ?thesis
  proof (cases "all_sep u")
    case True
    have "u = []"
      using last_u True by (cases u rule: rev_cases) (auto simp: all_sep_def)
    then have "head = [sep]" "tail = v" using assms(2) 2 True path_split_sep [OF 2(2), of "[]"] by simp_all
    moreover have "v \<noteq> []" using assms(3) \<open>u = []\<close> 2(1) calculation(1) by auto
    ultimately show ?thesis
      using v 2 \<open>u = []\<close> by (auto simp: path_join2_def sep_def endswith_def contains_iff Cons_eq_append_conv)
  next
    case False
    have "rstrip_by (\<lambda>c. c = sep) u = u"
      using last_u by (cases u rule: rev_cases) (auto simp: rstrip_by_def)
    then have h: "head = u" "tail = v" using assms(2) 2 False by (simp_all add: path_split_sep)
    have "u \<noteq> []" "\<not> endswith u ''/''" using False last_u by (auto simp: all_sep_def endswith_iff sep_def)
    moreover have "\<not> startswith v ''/''" using v by (cases "v = []") auto
    moreover have "\<not> contains ''//'' u" using assms(1) 2(1) contains_append by blast
    ultimately show ?thesis using h 2(1) by (simp add: path_join2_def sep_def)
  qed
qed

lemma split_to_list_join:
  "\<not> contains ''//'' p \<Longrightarrow> \<exists>x xs. split_to_list p lst = x # xs \<and> path_join x xs = path_join p lst"
proof (induction p lst rule: split_to_list.induct)
  case (1 p lst)
  obtain head tail where ht: "path_split p = (head, tail)" by force
  show ?case
  proof (cases "head = p \<or> tail = p")
    case True
    then show ?thesis using ht by (subst split_to_list.simps) auto
  next
    case False
    note j = path_split_join [OF "1.prems" ht]
    have "\<exists>x xs. split_to_list head (tail # lst) = x # xs \<and> path_join x xs = path_join head (tail # lst)"
      using "1.IH" [OF ht [symmetric]] False j by simp
    then show ?thesis using False ht j by (subst split_to_list.simps) simp
  qed
qed



end
