(* ===== verification/Include_State.thy ===== *)
theory Include_State
  imports Lint_Data
begin

text \<open>
  Class \<open>_IncludeState\<close> of tools/scripts/cpplint.py (lines 697 to 859): the headers seen so far and
  the section of the include block the file has reached.
\<close>

subsection \<open>Header kinds and sections\<close>

datatype header_type =
  C_SYS_HEADER | CPP_SYS_HEADER | LIKELY_MY_HEADER | POSSIBLE_MY_HEADER | OTHER_HEADER

datatype inc_section =
  INITIAL_SECTION | MY_H_SECTION | C_SECTION | CPP_SECTION | OTHER_H_SECTION

text \<open>The sections are the numbers 0 to 4 in the source and are compared as such.\<close>

fun section_num :: "inc_section \<Rightarrow> nat" where
  "section_num INITIAL_SECTION = 0"
| "section_num MY_H_SECTION = 1"
| "section_num C_SECTION = 2"
| "section_num CPP_SECTION = 3"
| "section_num OTHER_H_SECTION = 4"

lemma section_num_inject: "section_num a = section_num b \<longleftrightarrow> a = b"
  by (cases a; cases b) simp_all

instantiation inc_section :: linorder
begin

definition less_eq_inc_section :: "inc_section \<Rightarrow> inc_section \<Rightarrow> bool" where
  "less_eq_inc_section a b = (section_num a \<le> section_num b)"

definition less_inc_section :: "inc_section \<Rightarrow> inc_section \<Rightarrow> bool" where
  "less_inc_section a b = (section_num a < section_num b)"

instance
  by standard (auto simp: less_eq_inc_section_def less_inc_section_def section_num_inject)

end

lemmas section_ord = less_eq_inc_section_def less_inc_section_def

fun TYPE_NAMES :: "header_type \<Rightarrow> string" where
  "TYPE_NAMES C_SYS_HEADER = ''C system header''"
| "TYPE_NAMES CPP_SYS_HEADER = ''C++ system header''"
| "TYPE_NAMES LIKELY_MY_HEADER = ''header this file implements''"
| "TYPE_NAMES POSSIBLE_MY_HEADER = ''header this file may implement''"
| "TYPE_NAMES OTHER_HEADER = ''other header''"

fun SECTION_NAMES :: "inc_section \<Rightarrow> string" where
  "SECTION_NAMES INITIAL_SECTION = ''... nothing. (This can'' @ [sq] @ ''t be an error.)''"
| "SECTION_NAMES MY_H_SECTION = ''a header this file implements''"
| "SECTION_NAMES C_SECTION = ''C system header''"
| "SECTION_NAMES CPP_SECTION = ''C++ system header''"
| "SECTION_NAMES OTHER_H_SECTION = ''other header''"

subsection \<open>State and operations\<close>

record include_state =
  include_list :: "(string \<times> int) list list"
  cur_section :: inc_section
  last_header :: string

definition FindHeader :: "string \<Rightarrow> include_state \<Rightarrow> int" where
  "FindHeader header s =
     (case find (\<lambda>f. fst f = header) (concat (include_list s)) of
        None \<Rightarrow> -1 | Some f \<Rightarrow> snd f)"

text \<open>\<open>None\<close> is the IndexError of \<open>include_list[-1]\<close> on an empty list.\<close>

definition ResetSection :: "string \<Rightarrow> include_state \<Rightarrow> include_state option" where
  "ResetSection directive s =
     (let s1 = s\<lparr>cur_section := INITIAL_SECTION, last_header := []\<rparr>
      in if directive \<in> set [''if'', ''ifdef'', ''ifndef''] then
           Some (s1\<lparr>include_list := include_list s1 @ [[]]\<rparr>)
         else if directive \<in> set [''else'', ''elif''] then
           (if include_list s1 = [] then None
            else Some (s1\<lparr>include_list := butlast (include_list s1) @ [[]]\<rparr>))
         else Some s1)"

text \<open>The constructor sets the list and calls \<open>ResetSection('')\<close>, which fills the other fields.\<close>

definition init_include_state :: include_state where
  "init_include_state =
     \<lparr>include_list = [[]], cur_section = INITIAL_SECTION, last_header = []\<rparr>"

definition SetLastHeader :: "string \<Rightarrow> include_state \<Rightarrow> include_state" where
  "SetLastHeader header_path s = s\<lparr>last_header := header_path\<rparr>"

definition CanonicalizeAlphabeticalOrder :: "string \<Rightarrow> string" where
  "CanonicalizeAlphabeticalOrder header_path =
     py_lower (py_replace ''-'' ''_'' (py_replace ''-inl.h'' ''.h'' header_path))"

definition INCLUDE_LINE_PAT :: rx where
  "INCLUDE_LINE_PAT = rseq [RBol, RStar RSp, RLit ''#'', RStar RSp, RLit ''include'', RWordB]"

definition IsInAlphabeticalOrder :: "string list \<Rightarrow> int \<Rightarrow> string \<Rightarrow> include_state \<Rightarrow> bool option" where
  "IsInAlphabeticalOrder elided linenum header_path s =
     (if header_path < last_header s then
        (case py_index elided (linenum - 1) of
           None \<Rightarrow> None
         | Some prev \<Rightarrow> Some (\<not> matches INCLUDE_LINE_PAT prev))
      else Some True)"

text \<open>\<open>self.include_list[-1].append((include, linenum))\<close>, done by \<open>CheckIncludeLine\<close>.\<close>

definition AppendInclude :: "string \<Rightarrow> int \<Rightarrow> include_state \<Rightarrow> include_state option" where
  "AppendInclude header linenum s =
     (if include_list s = [] then None
      else Some (s\<lparr>include_list :=
        butlast (include_list s) @ [last (include_list s) @ [(header, linenum)]]\<rparr>))"

text \<open>
  The message (empty when the header is in order) and the new state.  An out-of-order system
  header leaves the section alone and clears the last header.
\<close>

definition CheckNextIncludeOrder :: "header_type \<Rightarrow> include_state \<Rightarrow> string \<times> include_state" where
  "CheckNextIncludeOrder t s =
     (let error_message = ''Found '' @ TYPE_NAMES t @ '' after '' @ SECTION_NAMES (cur_section s);
          last_section = cur_section s;
          wrong = (error_message, s\<lparr>last_header := []\<rparr>);
          move = (\<lambda>new. ([], s\<lparr>cur_section := new,
            last_header := (if last_section \<noteq> new then [] else last_header s)\<rparr>))
      in case t of
           C_SYS_HEADER \<Rightarrow> if cur_section s \<le> C_SECTION then move C_SECTION else wrong
         | CPP_SYS_HEADER \<Rightarrow> if cur_section s \<le> CPP_SECTION then move CPP_SECTION else wrong
         | LIKELY_MY_HEADER \<Rightarrow>
             move (if cur_section s \<le> MY_H_SECTION then MY_H_SECTION else OTHER_H_SECTION)
         | POSSIBLE_MY_HEADER \<Rightarrow>
             move (if cur_section s \<le> MY_H_SECTION then MY_H_SECTION else OTHER_H_SECTION)
         | OTHER_HEADER \<Rightarrow> move OTHER_H_SECTION)"

text \<open>The order checks of a block of includes, one after the other.\<close>

fun order_run :: "header_type list \<Rightarrow> include_state \<Rightarrow> include_state" where
  "order_run [] s = s"
| "order_run (t # ts) s = order_run ts (snd (CheckNextIncludeOrder t s))"

subsection \<open>Every reachable state has a current list\<close>

inductive inc_step :: "include_state \<Rightarrow> include_state \<Rightarrow> bool" where
  reset: "ResetSection d s = Some s' \<Longrightarrow> inc_step s s'"
| next_header: "inc_step s (snd (CheckNextIncludeOrder t s))"
| append: "AppendInclude h n s = Some s' \<Longrightarrow> inc_step s s'"
| set_last: "inc_step s (SetLastHeader h s)"

inductive inc_reachable :: "include_state \<Rightarrow> bool" where
  start: "inc_reachable init_include_state"
| step: "inc_reachable s \<Longrightarrow> inc_step s s' \<Longrightarrow> inc_reachable s'"

lemma CheckNext_list [simp]: "include_list (snd (CheckNextIncludeOrder t s)) = include_list s"
  by (simp add: CheckNextIncludeOrder_def Let_def split: header_type.split)

lemma AppendInclude_list:
  "AppendInclude h n s = Some s' \<Longrightarrow>
     include_list s' = butlast (include_list s) @ [last (include_list s) @ [(h, n)]]"
  unfolding AppendInclude_def by (simp only: split: if_splits) (drule sym, simp)+

lemma ResetSection_list:
  "ResetSection d s = Some s' \<Longrightarrow>
     include_list s' \<in> {include_list s @ [[]], butlast (include_list s) @ [[]], include_list s}"
  unfolding ResetSection_def Let_def by (simp only: split: if_splits) (drule sym, simp)+

lemma inc_step_list: "inc_step s s' \<Longrightarrow> include_list s \<noteq> [] \<Longrightarrow> include_list s' \<noteq> []"
proof (induction rule: inc_step.induct)
  case (reset d s s')
  then show ?case by (auto dest!: ResetSection_list)
qed (simp_all add: AppendInclude_list SetLastHeader_def)

lemma inc_reachable_list: "inc_reachable s \<Longrightarrow> include_list s \<noteq> []"
  by (induction rule: inc_reachable.induct) (auto simp: init_include_state_def dest: inc_step_list)

subsection \<open>The section reached\<close>

definition my_header :: "header_type \<Rightarrow> bool" where
  "my_header t = (t = LIKELY_MY_HEADER \<or> t = POSSIBLE_MY_HEADER)"

text \<open>
  A list of headers has entered the last section when it has an ordinary header, or one of the
  file's own headers after the leading block of those.
\<close>

definition entered_other :: "header_type list \<Rightarrow> bool" where
  "entered_other ts = (OTHER_HEADER \<in> set ts \<or> (\<exists>t \<in> set (dropWhile my_header ts). my_header t))"

definition section_reached :: "header_type list \<Rightarrow> inc_section" where
  "section_reached ts =
     (if entered_other ts then OTHER_H_SECTION
      else if CPP_SYS_HEADER \<in> set ts then CPP_SECTION
      else if C_SYS_HEADER \<in> set ts then C_SECTION
      else if ts \<noteq> [] then MY_H_SECTION
      else INITIAL_SECTION)"

lemma order_run_snoc: "order_run (ts @ [t]) s = snd (CheckNextIncludeOrder t (order_run ts s))"
  by (induction ts arbitrary: s) auto

lemma entered_other_snoc:
  "entered_other (ts @ [t]) \<longleftrightarrow>
     entered_other ts \<or> t = OTHER_HEADER \<or> (my_header t \<and> (\<exists>x \<in> set ts. \<not> my_header x))"
proof (cases "\<forall>x \<in> set ts. my_header x")
  case True
  then have e: "dropWhile my_header ts = []" "dropWhile my_header (ts @ [t]) = dropWhile my_header [t]"
    by (simp_all add: dropWhile_append)
  show ?thesis unfolding entered_other_def e using True by auto
next
  case False
  then have "dropWhile my_header (ts @ [t]) = dropWhile my_header ts @ [t]"
    by (auto simp: dropWhile_append)
  then show ?thesis using False by (auto simp: entered_other_def)
qed

lemma all_my_iff:
  "(\<exists>x \<in> set ts. \<not> my_header x) \<longleftrightarrow>
     C_SYS_HEADER \<in> set ts \<or> CPP_SYS_HEADER \<in> set ts \<or> OTHER_HEADER \<in> set ts"
  by (auto simp: my_header_def) (metis header_type.exhaust)

lemma order_run_section:
  "cur_section (order_run ts init_include_state) = section_reached ts"
proof (induction ts rule: rev_induct)
  case Nil
  show ?case by (simp add: init_include_state_def section_reached_def entered_other_def)
next
  case (snoc t ts)
  define s where "s = order_run ts init_include_state"
  have o: "\<not> entered_other ts \<longrightarrow> OTHER_HEADER \<notin> set ts" "\<not> entered_other []"
    "entered_other [t] \<longleftrightarrow> t = OTHER_HEADER"
    using entered_other_snoc [of "[]" t] by (simp_all add: entered_other_def)
  have IH: "cur_section s = section_reached ts" using snoc s_def by simp
  have my: "my_header LIKELY_MY_HEADER" "my_header POSSIBLE_MY_HEADER"
    "\<not> my_header C_SYS_HEADER" "\<not> my_header CPP_SYS_HEADER" "\<not> my_header OTHER_HEADER"
    by (simp_all add: my_header_def)
  show ?case
    unfolding order_run_snoc s_def [symmetric]
    by (cases t; cases "entered_other ts"; cases "CPP_SYS_HEADER \<in> set ts";
        cases "C_SYS_HEADER \<in> set ts"; cases "ts = []")
       (use o in \<open>simp_all add: CheckNextIncludeOrder_def IH section_reached_def section_ord
        entered_other_snoc all_my_iff my\<close>)
qed

lemma find_append:
  "find P (xs @ ys) = (case find P xs of None \<Rightarrow> find P ys | Some x \<Rightarrow> Some x)"
  by (induction xs) auto

lemma AppendInclude_concat:
  assumes "AppendInclude h n s = Some s'" "include_list s \<noteq> []"
  shows "concat (include_list s') = concat (include_list s) @ [(h, n)]"
proof -
  have "concat (include_list s) = concat (butlast (include_list s)) @ last (include_list s)"
    using append_butlast_last_id [OF assms(2)]
    by (metis concat_append concat.simps(1,2) append_Nil2)
  then show ?thesis using AppendInclude_list [OF assms(1)] by simp
qed

lemma FindHeader_append:
  assumes "AppendInclude h n s = Some s'" "include_list s \<noteq> []"
  shows "FindHeader h s' = (if h \<in> fst ` set (concat (include_list s)) then FindHeader h s else n)"
proof (cases "find (\<lambda>f. fst f = h) (concat (include_list s))")
  case None
  then have "h \<notin> fst ` set (concat (include_list s))"
    unfolding find_None_iff by blast
  with None AppendInclude_concat [OF assms] show ?thesis by (simp add: FindHeader_def find_append)
next
  case (Some f)
  then have "h \<in> fst ` set (concat (include_list s))"
    unfolding find_Some_iff by (metis image_eqI nth_mem)
  with Some AppendInclude_concat [OF assms] show ?thesis by (simp add: FindHeader_def find_append)
qed

subsection \<open>Properties\<close>


text \<open>The section never moves backwards while a block of includes is checked.\<close>

theorem include_section_monotone:
  "cur_section s \<le> cur_section (snd (CheckNextIncludeOrder t s))"
  by (cases t; cases "cur_section s") (simp_all add: CheckNextIncludeOrder_def section_ord)

text \<open>C10: In every reachable state the directives if, else and endif are handled without an
  exception, and an include can be recorded and is then found with its line number unless an
  earlier one of the same name is found first.\<close>

theorem include_state_never_stuck:
  assumes "inc_reachable s"
  shows "(\<exists>s'. ResetSection d s = Some s' \<and> cur_section s' = INITIAL_SECTION) \<and>
     (\<exists>s'. AppendInclude h n s = Some s' \<and>
        FindHeader h s' = (if h \<in> fst ` set (concat (include_list s)) then FindHeader h s else n))"
proof -
  have ne: "include_list s \<noteq> []" using assms by (rule inc_reachable_list)
  then obtain s' where "AppendInclude h n s = Some s'" by (simp add: AppendInclude_def)
  moreover from FindHeader_append [OF this ne]
  have "FindHeader h s' = (if h \<in> fst ` set (concat (include_list s)) then FindHeader h s else n)" .
  moreover have "\<exists>s'. ResetSection d s = Some s' \<and> cur_section s' = INITIAL_SECTION"
    using ne by (simp add: ResetSection_def Let_def)
  ultimately show ?thesis by blast
qed

theorem include_state_never_stuck_witness:
  "inc_reachable init_include_state \<and>
   (\<exists>s'. AppendInclude ''a.h'' 4 init_include_state = Some s' \<and> FindHeader ''a.h'' s' = 4)"
  using inc_reachable.start include_state_never_stuck [OF inc_reachable.start, of "''if''" "''a.h''" 4]
  by (simp add: init_include_state_def)

end
