(* ===== verification/Header_Checks.thy ===== *)
theory Header_Checks
  imports File_Info Include_State Cleanse
begin

text \<open>
  The checks on a file as a whole (tools/scripts/cpplint.py, lines 1756 to 1782 and 1879 to 2048):
  copyright line, header guard, inclusion of the file's own header, bad characters and the
  newline at the end.
\<close>

subsection \<open>Copyright and indentation\<close>

definition COPYRIGHT_PAT :: rx where
  "COPYRIGHT_PAT = rseq [RIn [CI (CHR ''c''), CI (CHR ''C'')], RIn [CI (CHR ''o''),
     CI (CHR ''O'')], RIn [CI (CHR ''p''), CI (CHR ''P'')], RIn [CI (CHR ''y''), CI (CHR ''Y'')],
     RIn [CI (CHR ''r''), CI (CHR ''R'')], RIn [CI (CHR ''i''), CI (CHR ''I'')],
     RIn [CI (CHR ''g''), CI (CHR ''G'')], RIn [CI (CHR ''h''), CI (CHR ''H'')],
     RIn [CI (CHR ''t''), CI (CHR ''T'')]]"

definition CheckForCopyright :: "string list \<Rightarrow> action list" where
  "CheckForCopyright ls =
     (if list_ex (\<lambda>i. searches COPYRIGHT_PAT (ls ! i)) [1..<min (length ls) 11] then []
      else [Report 0 ''legal/copyright'' 5
        (''No copyright message found.  You should have a line: '' @ [dq] @
         ''Copyright [year] <Copyright Owner>'' @ [dq])])"

definition INDENT_PAT :: rx where
  "INDENT_PAT = rseq [RBol, RGrp 1 (RStar (RLit '' '')), RNSp]"

definition GetIndentLevel :: "string \<Rightarrow> nat" where
  "GetIndentLevel line =
     (case Match INDENT_PAT line of None \<Rightarrow> 0 | Some indent \<Rightarrow> length (grp indent 1))"

subsection \<open>Header guards\<close>

definition NOLINT_GUARD_PAT :: rx where
  "NOLINT_GUARD_PAT = rseq [RLit ''//'', RStar RSp, RLit ''NOLINT(build/header_guard)'']"

definition LINE_COMMENT_PAT :: rx where
  "LINE_COMMENT_PAT = rseq [RBol, RStar (ralt [rseq [RLit [sq], RStar (ralt [RLit ''.'',
     RNotIn [CI sq]]), RLit [sq]], rseq [RLit [dq], RStar (ralt [RLit ''.'', RNotIn [CI dq]]),
     RLit [dq]], RNotIn [CI sq, CI dq]]), RLit ''//'']"

text \<open>The patterns for the last line hold the guard, which has no special character.\<close>

definition ENDIF_PAT :: "string \<Rightarrow> rx" where
  "ENDIF_PAT cppvar = rseq [RLit ''#endif'', RStar RSp, RLit ''//'', RStar RSp, RLit cppvar,
     ROpt (RGrp 1 (RLit ''_'')), RWordB]"

definition ENDIF_C_PAT :: "string \<Rightarrow> rx" where
  "ENDIF_C_PAT cppvar = rseq [RLit ''#endif'', RStar RSp, RLit ''/*'', RStar RSp, RLit cppvar,
     ROpt (RGrp 1 (RLit ''_'')), RStar RSp, RLit ''*/'']"

record guard_lines =
  gl_ifndef :: string
  gl_ifndef_linenum :: nat
  gl_define :: string
  gl_endif :: string
  gl_endif_linenum :: nat

definition init_guard :: guard_lines where
  "init_guard = \<lparr>gl_ifndef = [], gl_ifndef_linenum = 0, gl_define = [], gl_endif = [],
     gl_endif_linenum = 0\<rparr>"

definition guard_step :: "nat \<Rightarrow> string \<Rightarrow> guard_lines \<Rightarrow> guard_lines" where
  "guard_step linenum line g =
     (let linesplit = split_ws is_uws line;
          g1 = (if length linesplit \<ge> 2 \<and> gl_ifndef g = [] \<and> linesplit ! 0 = ''#ifndef''
                then g\<lparr>gl_ifndef := linesplit ! 1, gl_ifndef_linenum := linenum\<rparr> else g);
          g2 = (if length linesplit \<ge> 2 \<and> gl_define g1 = [] \<and> linesplit ! 0 = ''#define''
                then g1\<lparr>gl_define := linesplit ! 1\<rparr> else g1)
      in if startswith line ''#endif'' then g2\<lparr>gl_endif := line, gl_endif_linenum := linenum\<rparr>
         else g2)"

fun guard_scan :: "nat \<Rightarrow> string list \<Rightarrow> guard_lines \<Rightarrow> guard_lines" where
  "guard_scan linenum [] g = g"
| "guard_scan linenum (line # ls) g = guard_scan (linenum + 1) ls (guard_step linenum line g)"

text \<open>The reports once the guard has been found and named; the calls of
  \<open>ParseNolintSuppressions\<close> come before the reports they may suppress.\<close>

definition endif_reports :: "string \<Rightarrow> string list \<Rightarrow> guard_lines \<Rightarrow> action list" where
  "endif_reports cppvar raw g =
     (let linenum = int (gl_endif_linenum g);
          level0 = (\<lambda>opening closing. [Report linenum ''build/header_guard'' 0
            (''#endif line should be '' @ [dq] @ ''#endif  '' @ opening @ cppvar @ closing @ [dq])]);
          otherwise = [Report linenum ''build/header_guard'' 5
            (''#endif line should be '' @ [dq] @ ''#endif  // '' @ cppvar @ [dq])]
      in case Match (ENDIF_PAT cppvar) (gl_endif g) of
           Some m \<Rightarrow> (if group m 1 = Some ''_'' then level0 ''// '' [] else [])
         | None \<Rightarrow>
             (if list_ex (\<lambda>i. matches LINE_COMMENT_PAT (raw ! i)) [1..<length raw - 1] then otherwise
              else (case Match (ENDIF_C_PAT cppvar) (gl_endif g) of
                      Some m \<Rightarrow> (if group m 1 = Some ''_'' then level0 ''/* '' '' */'' else [])
                    | None \<Rightarrow> otherwise)))"

definition guard_reports :: "string \<Rightarrow> string list \<Rightarrow> action list" where
  "guard_reports cppvar raw =
     (let g = guard_scan 0 raw init_guard
      in if gl_ifndef g = [] \<or> gl_define g = [] \<or> gl_ifndef g \<noteq> gl_define g then
           [Report 0 ''build/header_guard'' 5
              (''No #ifndef header guard found, suggested CPP variable is: '' @ cppvar)]
         else
           (if gl_ifndef g \<noteq> cppvar then
              [Nolint (raw ! gl_ifndef_linenum g) (int (gl_ifndef_linenum g)),
               Report (int (gl_ifndef_linenum g)) ''build/header_guard''
                 (if gl_ifndef g \<noteq> cppvar @ ''_'' then 5 else 0)
                 (''#ifndef header guard has wrong style, please use: '' @ cppvar)]
            else []) @
           [Nolint (raw ! gl_endif_linenum g) (int (gl_endif_linenum g))] @
           endif_reports cppvar raw g)"

definition CheckForHeaderGuard ::
    "(string \<Rightarrow> bool) \<Rightarrow> string \<Rightarrow> string option \<Rightarrow> string \<Rightarrow> cleansed_lines \<Rightarrow> action list option" where
  "CheckForHeaderGuard exists cwd root filename clean_lines =
     (let raw = lines_without_raw_strings clean_lines
      in if list_ex (searches NOLINT_GUARD_PAT) raw then Some []
         else map_option (\<lambda>cppvar. guard_reports cppvar raw)
                (GetHeaderGuardCPPVariable exists cwd root filename))"

subsection \<open>The file's own header\<close>

fun own_header :: "string \<Rightarrow> int \<Rightarrow> (string \<times> int) list \<Rightarrow> int option" where
  "own_header headername first_include [] = Some first_include"
| "own_header headername first_include (f # fs) =
     (if contains headername (fst f) \<or> contains (fst f) headername then None
      else own_header headername (if first_include = 0 then snd f else first_include) fs)"

definition CheckHeaderFileIncluded ::
    "(string \<Rightarrow> bool) \<Rightarrow> string \<Rightarrow> string \<Rightarrow> include_state \<Rightarrow> action list option" where
  "CheckHeaderFileIncluded exists cwd filename s =
     (case fi_Split exists cwd filename of
        None \<Rightarrow> None
      | Some (project, base, ext) \<Rightarrow>
          (if searches TEST_FILE_SUFFIX base then Some []
           else (let headerfile = slice filename 0 (int (length filename) - int (length ext)) @ ''.h''
                 in if \<not> exists headerfile then Some []
                    else (case (RepositoryName exists cwd headerfile, RepositoryName exists cwd filename) of
                            (Some headername, Some reponame) \<Rightarrow>
                              Some (case own_header headername 0 (concat (include_list s)) of
                                 None \<Rightarrow> []
                               | Some first_include \<Rightarrow>
                                   [Report first_include ''build/include'' 5
                                      (reponame @ '' should include its header file '' @ headername)])
                          | _ \<Rightarrow> None))))"

subsection \<open>Characters\<close>

text \<open>
  U+FFFD lies beyond \<^typ>\<open>char\<close>: \<open>replaced n\<close> tells whether decoding the file has left one in
  line n.
\<close>

definition CheckForBadCharacters :: "(nat \<Rightarrow> bool) \<Rightarrow> string list \<Rightarrow> action list" where
  "CheckForBadCharacters replaced ls = concat (map (\<lambda>(linenum, line).
     (if replaced linenum then [Report (int linenum) ''readability/utf8'' 5
        ''Line contains invalid UTF-8 (or Unicode replacement character).''] else []) @
     (if contains [CHR 0x00] line then [Report (int linenum) ''readability/nul'' 5
        ''Line contains NUL byte.''] else [])) (enumerate 0 ls))"

definition CheckForNewlineAtEOF :: "string list \<Rightarrow> action list" where
  "CheckForNewlineAtEOF ls =
     (if length ls < 3 \<or> ls ! (length ls - 2) \<noteq> [] then
        [Report (int (length ls) - 2) ''whitespace/ending_newline'' 5
           ''Could not find a newline character at the end of the file.'']
      else [])"

subsection \<open>What the scan for the guard finds\<close>

text \<open>The argument of a directive that stands on a line of its own.\<close>

definition directive :: "string \<Rightarrow> string \<Rightarrow> string option" where
  "directive d line = (case split_ws is_uws line of
     w # arg # _ \<Rightarrow> (if w = d then Some arg else None) | _ \<Rightarrow> None)"

definition first_arg :: "string \<Rightarrow> string list \<Rightarrow> string" where
  "first_arg d ls = (case List.map_filter (directive d) ls of [] \<Rightarrow> [] | a # _ \<Rightarrow> a)"

definition last_endif :: "string list \<Rightarrow> string" where
  "last_endif ls = (case rev (filter (\<lambda>l. startswith l ''#endif'') ls) of [] \<Rightarrow> [] | l # _ \<Rightarrow> l)"

lemma split_ws_nonempty: "w \<in> set (split_ws p s) \<Longrightarrow> w \<noteq> []"
  by (induction p s rule: split_ws.induct) (auto split: if_splits)

lemma directive_nonempty: "directive d line = Some arg \<Longrightarrow> arg \<noteq> []"
  using split_ws_nonempty [of arg is_uws line] by (auto simp: directive_def split: list.splits if_splits)

lemma guard_step_fields:
  "gl_ifndef (guard_step n line g) =
     (if gl_ifndef g = [] then (case directive ''#ifndef'' line of None \<Rightarrow> [] | Some a \<Rightarrow> a) else gl_ifndef g)"
  "gl_define (guard_step n line g) =
     (if gl_define g = [] then (case directive ''#define'' line of None \<Rightarrow> [] | Some a \<Rightarrow> a) else gl_define g)"
  "gl_endif (guard_step n line g) = (if startswith line ''#endif'' then line else gl_endif g)"
  by (auto simp: guard_step_def Let_def directive_def split: list.split)

lemma guard_scan_fields:
  "gl_ifndef (guard_scan n ls g) = (if gl_ifndef g = [] then first_arg ''#ifndef'' ls else gl_ifndef g)"
  "gl_define (guard_scan n ls g) = (if gl_define g = [] then first_arg ''#define'' ls else gl_define g)"
  "gl_endif (guard_scan n ls g) =
     (if filter (\<lambda>l. startswith l ''#endif'') ls = [] then gl_endif g else last_endif ls)"
proof (induction n ls g rule: guard_scan.induct)
  case (1 n g)
  show "gl_ifndef (guard_scan n [] g) = (if gl_ifndef g = [] then first_arg ''#ifndef'' [] else gl_ifndef g)"
    "gl_define (guard_scan n [] g) = (if gl_define g = [] then first_arg ''#define'' [] else gl_define g)"
    "gl_endif (guard_scan n [] g) =
      (if filter (\<lambda>l. startswith l ''#endif'') [] = [] then gl_endif g else last_endif [])"
    by (simp_all add: first_arg_def List.map_filter_def)
next
  case (2 n line ls g)
  show "gl_ifndef (guard_scan n (line # ls) g) =
      (if gl_ifndef g = [] then first_arg ''#ifndef'' (line # ls) else gl_ifndef g)"
    using 2(1) directive_nonempty [of "''#ifndef''" line]
    by (auto simp: guard_step_fields first_arg_def List.map_filter_def split: option.split)
  show "gl_define (guard_scan n (line # ls) g) =
      (if gl_define g = [] then first_arg ''#define'' (line # ls) else gl_define g)"
    using 2(2) directive_nonempty [of "''#define''" line]
    by (auto simp: guard_step_fields first_arg_def List.map_filter_def split: option.split)
  show "gl_endif (guard_scan n (line # ls) g) =
      (if filter (\<lambda>l. startswith l ''#endif'') (line # ls) = [] then gl_endif g else last_endif (line # ls))"
    using 2(3) by (auto simp: guard_step_fields last_endif_def rev_eq_append_conv split: list.split)
qed

lemma ENDIF_match:
  assumes "cppvar \<noteq> []" "is_word (last cppvar)" "\<not> is_ws (hd cppvar)"
  shows "\<exists>m. Match (ENDIF_PAT cppvar) (''#endif  // '' @ cppvar) = Some m \<and> group m 1 = None"
proof -
  let ?p1 = "rev ''#endif''" and ?p2 = "rev ''#endif  ''" and ?p3 = "rev ''#endif  //''"
  let ?p4 = "rev ''#endif  // ''" and ?p5 = "rev cppvar @ rev ''#endif  // ''"
  have "first (RLit ''#endif'') ([], ''#endif  // '' @ cppvar, []) (?p1, ''  // '' @ cppvar, [])"
    using first_lit [of "''#endif''" "[]" "''  // '' @ cppvar" "[]"] by simp
  moreover have "first (RStar RSp) (?p1, ''  // '' @ cppvar, []) (?p2, ''// '' @ cppvar, [])"
    using first_star_set [of "CPos [CSpace]" "''  ''" "''// '' @ cppvar" ?p1 "[]"] by (simp add: is_ws_def)
  moreover have "first (RLit ''//'') (?p2, ''// '' @ cppvar, []) (?p3, '' '' @ cppvar, [])"
    using first_lit [of "''//''" ?p2 "'' '' @ cppvar" "[]"] by simp
  moreover have "first (RStar RSp) (?p3, '' '' @ cppvar, []) (?p4, cppvar, [])"
    using first_star_set [of "CPos [CSpace]" "'' ''" cppvar ?p3 "[]"] assms(3) by (simp add: is_ws_def)
  moreover have "first (RLit cppvar) (?p4, cppvar, []) (?p5, [], [])"
    using first_lit [of cppvar ?p4 "[]" "[]"] by simp
  moreover have "first (ROpt (RGrp 1 (RLit ''_''))) (?p5, [], []) (?p5, [], [])"
    by (intro first_alt2 first_eps fails_grp fails_lit) simp
  moreover have "first RWordB (?p5, [], []) (?p5, [], [])"
    using assms(1,2) by (intro first_wordb) (cases cppvar rule: rev_cases; simp add: head_word_def)
  ultimately have "first (ENDIF_PAT cppvar) ([], ''#endif  // '' @ cppvar, []) (?p5, [], [])"
    unfolding ENDIF_PAT_def rseq.simps by (blast intro: first_seq)
  from Match_first [OF this] show ?thesis by (simp add: group_def)
qed

text \<open>C25: A header whose first ifndef and first define name the proposed macro, and whose last endif
  line carries it in a comment, is accepted: whatever else it holds, nothing is reported.\<close>

theorem header_guard_accepted:
  assumes "GetHeaderGuardCPPVariable exists cwd root f = Some var"
    and "first_arg ''#ifndef'' (lines_without_raw_strings cl) = var"
    and "first_arg ''#define'' (lines_without_raw_strings cl) = var"
    and "last_endif (lines_without_raw_strings cl) = ''#endif  // '' @ var"
  shows "\<exists>as. CheckForHeaderGuard exists cwd root f cl = Some as \<and> (\<forall>a \<in> set as. \<not> is_report a)"
proof -
  let ?raw = "lines_without_raw_strings cl"
  have id: "list_all (\<lambda>c. is_upper c \<or> is_digit c \<or> c = CHR ''_'') var" "var \<noteq> []" "last var = CHR ''_''"
    using assms(1) guard_var [of exists cwd root f var] by simp_all
  have u: "is_word (CHR ''_'')" by code_simp
  have "is_word (hd var)" using id(1,2) by (cases var) (auto simp: is_word_def)
  then have "\<not> is_ws (hd var)" using word_not_space by (auto simp: is_uws_def)
  then obtain m where m: "Match (ENDIF_PAT var) (''#endif  // '' @ var) = Some m" "group m 1 = None"
    using ENDIF_match [of var] id u by auto
  have "filter (\<lambda>l. startswith l ''#endif'') ?raw \<noteq> []"
    using assms(4) by (auto simp: last_endif_def)
  then have "gl_endif (guard_scan 0 ?raw init_guard) = ''#endif  // '' @ var"
    using assms(4) by (simp add: guard_scan_fields)
  then have "\<forall>a \<in> set (guard_reports var ?raw). \<not> is_report a"
    using assms(2,3) m id(2)
    by (simp add: guard_reports_def endif_reports_def guard_scan_fields init_guard_def Let_def is_report_def)
  then show ?thesis
    using assms(1) by (auto simp: CheckForHeaderGuard_def Let_def)
qed


theorem header_guard_accepted_witness:
  "\<exists>cl as. lines_without_raw_strings cl = [''// m'', ''#ifndef _R_A_H_'', ''#define _R_A_H_'',
       ''#endif  // _R_A_H_'', ''// m''] \<and>
     CheckForHeaderGuard (\<lambda>_. False) ''/r'' None ''a.h'' cl = Some as \<and> (\<forall>a \<in> set as. \<not> is_report a)"
proof -
  let ?ls = "[''// m'', ''#ifndef _R_A_H_'', ''#define _R_A_H_'', ''#endif  // _R_A_H_'', ''// m'']"
  let ?cl = "\<lparr>elided = [], lines = [], raw_lines = [], lines_without_raw_strings = ?ls\<rparr>"
  have "GetHeaderGuardCPPVariable (\<lambda>_. False) ''/r'' None ''a.h'' = Some ''_R_A_H_''"
    "first_arg ''#ifndef'' (lines_without_raw_strings ?cl) = ''_R_A_H_''"
    "first_arg ''#define'' (lines_without_raw_strings ?cl) = ''_R_A_H_''"
    "last_endif (lines_without_raw_strings ?cl) = ''#endif  // '' @ ''_R_A_H_''"
    by code_simp+
  from header_guard_accepted [OF this] show ?thesis by (intro exI [of _ ?cl]) simp
qed

text \<open>A header without an error suppression comment for it gets exactly the complaint about a
  missing guard, at line 0, exactly when its first ifndef and its first define do not exist or
  name different macros.\<close>

theorem header_guard_missing:
  assumes "GetHeaderGuardCPPVariable exists cwd root f = Some var"
    and "\<not> list_ex (searches NOLINT_GUARD_PAT) (lines_without_raw_strings cl)"
  shows "CheckForHeaderGuard exists cwd root f cl =
      Some [Report 0 ''build/header_guard'' 5
        (''No #ifndef header guard found, suggested CPP variable is: '' @ var)] \<longleftrightarrow>
    first_arg ''#ifndef'' (lines_without_raw_strings cl) = [] \<or>
    first_arg ''#ifndef'' (lines_without_raw_strings cl) \<noteq> first_arg ''#define'' (lines_without_raw_strings cl)"
proof -
  let ?raw = "lines_without_raw_strings cl"
  have "CheckForHeaderGuard exists cwd root f cl = Some (guard_reports var ?raw)"
    using assms by (simp add: CheckForHeaderGuard_def Let_def)
  then show ?thesis
    by (auto simp: guard_reports_def guard_scan_fields init_guard_def Let_def)
qed

theorem header_guard_missing_witness:
  "\<exists>cl. lines_without_raw_strings cl = [''// m'', ''#define A_H_'', ''// m''] \<and>
     CheckForHeaderGuard (\<lambda>_. False) ''/r'' None ''a.h'' cl =
       Some [Report 0 ''build/header_guard'' 5
         (''No #ifndef header guard found, suggested CPP variable is: '' @ ''_R_A_H_'')]"
proof -
  let ?cl = "\<lparr>elided = [], lines = [], raw_lines = [],
    lines_without_raw_strings = [''// m'', ''#define A_H_'', ''// m'']\<rparr>"
  have "GetHeaderGuardCPPVariable (\<lambda>_. False) ''/r'' None ''a.h'' = Some ''_R_A_H_''"
    "\<not> list_ex (searches NOLINT_GUARD_PAT) (lines_without_raw_strings ?cl)"
    "first_arg ''#ifndef'' (lines_without_raw_strings ?cl) = []" by code_simp+
  with header_guard_missing [OF this(1,2)] show ?thesis by (intro exI [of _ ?cl]) simp
qed

lemma last_split_char:
  "last (split_char c s) = [] \<longleftrightarrow> s = [] \<or> last s = c"
proof (induction s)
  case (Cons d s)
  obtain w ws where "split_char c s = w # ws"
    using split_char_nonempty [of c s] by (cases "split_char c s") auto
  moreover have "s = w" if "ws = []" using split_char_join [of c s] that calculation by simp
  moreover have "c \<notin> set w" using split_char_no_sep [of w c s] calculation(1) by simp
  ultimately show ?case using Cons by (cases "s = []") (auto split: if_splits)
qed simp

text \<open>With the lines of a text between the two marker lines, a missing newline at the end is
  reported exactly when the text is not empty and does not end with one.\<close>

theorem newline_at_end_checked:
  "CheckForNewlineAtEOF (marker # split_char nl content @ [marker']) = [] \<longleftrightarrow>
     content = [] \<or> last content = nl"
proof -
  let ?ls = "split_char nl content"
  have "(marker # ?ls @ [marker']) ! (length ?ls) = last ?ls"
    using split_char_nonempty [of nl content]
    by (cases ?ls rule: rev_cases) (simp_all add: nth_append nth_Cons')
  moreover have "\<not> length (marker # ?ls @ [marker']) < 3"
    using split_char_nonempty [of nl content] by (cases ?ls) auto
  ultimately show ?thesis by (simp add: CheckForNewlineAtEOF_def last_split_char)
qed

end
