(* ===== verification/Line_Checks.thy ===== *)
theory Line_Checks
  imports Cleanse
begin

text \<open>
  Checks that look at one line, or at one line and its neighbours, and keep no state
  (tools/scripts/cpplint.py, lines 2051 to 2203, 3026 to 3038, 3126 to 3177, 3722 to 3742,
  4322 to 4351, 5665 to 5682, 5750 to 5777, 5837 to 5842, 5883 to 5903, 6103 to 6115 and 6174
  to 6243).  Each is a function from the cleansed lines and a line number to the reports.
\<close>

subsection \<open>Strings and comments that go on\<close>

definition CheckForMultilineCommentsAndStrings :: "cleansed_lines \<Rightarrow> nat \<Rightarrow> action list" where
  "CheckForMultilineCommentsAndStrings clean_lines linenum =
     (let line = py_replace [bs, bs] [] (elided clean_lines ! linenum)
      in (if py_count ''/*'' line > py_count ''*/'' line then
            [Report (int linenum) ''readability/multiline_comment'' 5
              (''Complex multi-line /*...*/-style comment found. Lint may give bogus warnings.  '' @
               ''Consider replacing these with //-style comments, with #if 0...#endif, '' @
               ''or with more clearly structured multi-line comments.'')]
          else []) @
         (if (int (py_count [dq] line) - int (py_count [bs, dq] line)) mod 2 \<noteq> 0 then
            [Report (int linenum) ''readability/multiline_string'' 5
              ((''Multi-line string ('' @ [dq] @ ''...'' @ [dq] @ '') found.  This lint script doesn'' @ [sq] @ ''t do well with such '') @
               ''strings, and may give bogus warnings.  Use C++11 raw strings or '' @
               ''concatenation instead.'')]
          else []))"

subsection \<open>Functions that are not thread-safe\<close>

definition UNSAFE_FUNC_PREFIX :: rx where
  "UNSAFE_FUNC_PREFIX = ralt [rseq [RIn [CI (CHR ''-''), CI (CHR ''+''), CI (CHR ''*''),
     CI (CHR ''/''), CI (CHR ''=''), CI (CHR ''%''), CI (CHR ''^''), CI (CHR ''&''),
     CI (CHR ''|''), CI (CHR ''(''), CI (CHR ''<'')], RStar RSp], rseq [RLit ''>'', RPlus RSp]]"

definition unsafe_call :: "string \<Rightarrow> rx" where
  "unsafe_call name = rseq [UNSAFE_FUNC_PREFIX, RLit (name @ ''(''), RPlus (RNotIn [CI (CHR '')'')]), RLit '')'']"

definition unsafe_call0 :: "string \<Rightarrow> rx" where
  "unsafe_call0 name = rseq [UNSAFE_FUNC_PREFIX, RLit (name @ ''()'')]"

definition THREADING_LIST :: "(string \<times> string \<times> rx) list" where
  "THREADING_LIST =
     [(''asctime('', ''asctime_r('', unsafe_call ''asctime''),
      (''ctime('', ''ctime_r('', unsafe_call ''ctime''),
      (''getgrgid('', ''getgrgid_r('', unsafe_call ''getgrgid''),
      (''getgrnam('', ''getgrnam_r('', unsafe_call ''getgrnam''),
      (''getlogin('', ''getlogin_r('', unsafe_call0 ''getlogin''),
      (''getpwnam('', ''getpwnam_r('', unsafe_call ''getpwnam''),
      (''getpwuid('', ''getpwuid_r('', unsafe_call ''getpwuid''),
      (''gmtime('', ''gmtime_r('', unsafe_call ''gmtime''),
      (''localtime('', ''localtime_r('', unsafe_call ''localtime''),
      (''rand('', ''rand_r('', unsafe_call0 ''rand''),
      (''strtok('', ''strtok_r('', unsafe_call ''strtok''),
      (''ttyname('', ''ttyname_r('', unsafe_call ''ttyname'')]"

definition CheckPosixThreading :: "cleansed_lines \<Rightarrow> nat \<Rightarrow> action list" where
  "CheckPosixThreading clean_lines linenum =
     concat (map (\<lambda>(single_thread_func, multithread_safe_func, pattern).
       if searches pattern (elided clean_lines ! linenum) then
         [Report (int linenum) ''runtime/threadsafe_fn'' 2
           (''Consider using '' @ multithread_safe_func @ ''...) instead of '' @
            single_thread_func @ ''...) for improved thread safety.'')]
       else []) THREADING_LIST)"

subsection \<open>Logging, increments, macros\<close>

definition VLOG_PAT :: rx where
  "VLOG_PAT = rseq [RWordB, RLit ''VLOG('', RGrp 1 (ralt [RLit ''INFO'', RLit ''ERROR'',
     RLit ''WARNING'', RLit ''DFATAL'', RLit ''FATAL'']), RLit '')'']"

definition CheckVlogArguments :: "cleansed_lines \<Rightarrow> nat \<Rightarrow> action list" where
  "CheckVlogArguments clean_lines linenum =
     (if searches VLOG_PAT (elided clean_lines ! linenum) then
        [Report (int linenum) ''runtime/vlog'' 5
          (''VLOG() should be used with numeric verbosity level.  '' @
           ''Use LOG() if you want symbolic severity levels.'')]
      else [])"

definition RE_PATTERN_INVALID_INCREMENT :: rx where
  "RE_PATTERN_INVALID_INCREMENT = rseq [RBol, RStar RSp, RLit ''*'', RPlus RWd,
     RGrp 1 (ralt [RLit ''++'', RLit ''--'']), RLit '';'']"

definition CheckInvalidIncrement :: "cleansed_lines \<Rightarrow> nat \<Rightarrow> action list" where
  "CheckInvalidIncrement clean_lines linenum =
     (if matches RE_PATTERN_INVALID_INCREMENT (elided clean_lines ! linenum) then
        [Report (int linenum) ''runtime/invalid_increment'' 5
          ''Changing pointer instead of value (or unused value of operator*).'']
      else [])"

definition DEFINE_PAT :: rx where
  "DEFINE_PAT = rseq [RBol, RLit ''#define'']"

definition CONTINUED_PAT :: rx where
  "CONTINUED_PAT = rseq [RLit [bs], REol]"

definition IsMacroDefinition :: "string list \<Rightarrow> nat \<Rightarrow> bool" where
  "IsMacroDefinition clean_lines linenum =
     (searches DEFINE_PAT (clean_lines ! linenum) \<or>
      (linenum > 0 \<and> searches CONTINUED_PAT (clean_lines ! (linenum - 1))))"

definition FORWARD_CLASS_PAT :: rx where
  "FORWARD_CLASS_PAT = rseq [RBol, RStar RSp, RStar (RGrp 1 (rseq [RWordB, RLit ''template'',
     RWordB])), RStar RAny, RLit ''class'', RPlus RSp, RPlus RWd, RLit '';'', RStar RSp, REol]"

definition IsForwardClassDeclaration :: "string list \<Rightarrow> nat \<Rightarrow> bool" where
  "IsForwardClassDeclaration clean_lines linenum = matches FORWARD_CLASS_PAT (clean_lines ! linenum)"

subsection \<open>Blank lines\<close>

definition IsBlankLine :: "string \<Rightarrow> bool" where
  "IsBlankLine line = (line = [] \<or> py_isspace line)"

fun prev_nonblank :: "string list \<Rightarrow> nat \<Rightarrow> string \<times> int" where
  "prev_nonblank ls 0 = ([], -1)"
| "prev_nonblank ls (Suc prevlinenum) =
     (if \<not> IsBlankLine (ls ! prevlinenum) then (ls ! prevlinenum, int prevlinenum)
      else prev_nonblank ls prevlinenum)"

definition GetPreviousNonBlankLine :: "cleansed_lines \<Rightarrow> nat \<Rightarrow> string \<times> int" where
  "GetPreviousNonBlankLine clean_lines linenum = prev_nonblank (elided clean_lines) linenum"

subsection \<open>Comments\<close>

definition RE_PATTERN_TODO :: rx where
  "RE_PATTERN_TODO = rseq [RBol, RLit ''//'', RGrp 1 (RStar RSp), RLit ''TODO'',
     ROpt (RGrp 2 (rseq [RLit ''('', RLazyPlus RAny, RLit '')''])), ROpt (RLit '':''),
     ROpt (RGrp 3 (ralt [RSp, REol]))]"

definition ESCAPED_PAT :: rx where
  "ESCAPED_PAT = rseq [RLit [bs], RAny]"

definition SCOPE_COMMENT_PAT :: rx where
  "SCOPE_COMMENT_PAT = rseq [RBol, RStar RAny, RLit ''{'', RStar (RLit '' ''), RLit ''//'']"

definition NO_SPACE_COMMENT_PAT :: rx where
  "NO_SPACE_COMMENT_PAT = rseq [RLit ''//'', RStar (RNotIn [CI (CHR '' '')]), RWd]"

definition DOXYGEN_COMMENT_PAT :: rx where
  "DOXYGEN_COMMENT_PAT = rseq [RGrp 1 (ralt [RLit ''///'', RLit ''//!'']),
     RGrp 2 (ralt [RPlus RSp, REol])]"

text \<open>\<open>next_line_start\<close> is the first column of the next line that is not blank.  A group that took
  no part in the match is \<open>None\<close> in Python and differs from both strings it is compared with.\<close>

definition CheckComment :: "string \<Rightarrow> int \<Rightarrow> int \<Rightarrow> action list" where
  "CheckComment line linenum next_line_start =
     (let commentpos = py_find line ''//''
      in if commentpos \<noteq> -1 \<and>
            py_count [dq] (re_sub ESCAPED_PAT (\<lambda>_. []) (slice line 0 commentpos)) mod 2 = 0 then
           (let k = nat commentpos; comment = drop k line
            in (if \<not> (matches SCOPE_COMMENT_PAT line \<and> next_line_start = commentpos) \<and>
                   ((k \<ge> 1 \<and> \<not> is_ws (line ! (k - 1))) \<or> (k \<ge> 2 \<and> \<not> is_ws (line ! (k - 2))))
                then [Report linenum ''whitespace/comments'' 2
                  ''At least two spaces is best between code and comments''] else []) @
               (case Match RE_PATTERN_TODO comment of
                  None \<Rightarrow> []
                | Some m \<Rightarrow>
                    (if length (grp m 1) > 1 then [Report linenum ''whitespace/todo'' 2
                       ''Too many spaces before TODO''] else []) @
                    (if group m 2 = None \<or> group m 2 = Some [] then [Report linenum ''readability/todo'' 2
                       (''Missing username in TODO; it should look like '' @
                        ([dq] @ ''// TODO(my_username): Stuff.'' @ [dq]))] else []) @
                    (if group m 3 \<noteq> Some '' '' \<and> group m 3 \<noteq> Some [] then [Report linenum ''whitespace/todo'' 2
                       ''TODO(my_username) should be followed by a space''] else [])) @
               (if matches NO_SPACE_COMMENT_PAT comment \<and> \<not> matches DOXYGEN_COMMENT_PAT comment
                then [Report linenum ''whitespace/comments'' 4
                  ''Should have a space between // and comment''] else []))
         else [])"

subsection \<open>Words instead of operators\<close>

definition ALT_TOKEN_REPLACEMENT_PATTERN :: rx where
  "ALT_TOKEN_REPLACEMENT_PATTERN =
     rseq [RIn [CI (CHR '' ''), CI (CHR ''=''), CI (CHR ''(''), CI (CHR '')'')],
       RGrp 1 (ralt (map (\<lambda>(k, v). RLit k) ALT_TOKEN_REPLACEMENT)),
       RLook (ralt [RIn [CI (CHR '' ''), CI (CHR ''('')], REol])]"

definition PREPROCESSOR_LINE_PAT :: rx where
  "PREPROCESSOR_LINE_PAT = rseq [RBol, RStar RSp, RLit ''#'']"

definition CheckAltTokens :: "cleansed_lines \<Rightarrow> nat \<Rightarrow> action list" where
  "CheckAltTokens clean_lines linenum =
     (let line = elided clean_lines ! linenum
      in if matches PREPROCESSOR_LINE_PAT line then []
         else if py_find line ''/*'' \<ge> 0 \<or> py_find line ''*/'' \<ge> 0 then []
         else map (\<lambda>m. Report (int linenum) ''readability/alt_tokens'' 2
           (''Use operator '' @ the (map_of ALT_TOKEN_REPLACEMENT (grp m 1)) @ '' instead of '' @ grp m 1))
           (finditer ALT_TOKEN_REPLACEMENT_PATTERN line))"

subsection \<open>Declarations\<close>

definition RE_PATTERN_EXPLICIT_MAKEPAIR :: rx where
  "RE_PATTERN_EXPLICIT_MAKEPAIR = rseq [RWordB, RLit ''make_pair'', RStar RSp, RLit ''<'']"

definition CheckMakePairUsesDeduction :: "cleansed_lines \<Rightarrow> nat \<Rightarrow> action list" where
  "CheckMakePairUsesDeduction clean_lines linenum =
     (if searches RE_PATTERN_EXPLICIT_MAKEPAIR (elided clean_lines ! linenum) then
        [Report (int linenum) ''build/explicit_make_pair'' 4
          (''For C++11-compatibility, omit template arguments from make_pair'' @
           '' OR use pair directly OR if appropriate, construct a pair directly'')]
      else [])"

definition OVERRIDE_PAT :: rx where
  "OVERRIDE_PAT = rseq [RWordB, RLit ''override'', RWordB]"

definition FINAL_PAT :: rx where
  "FINAL_PAT = rseq [RWordB, RLit ''final'', RWordB]"

definition CheckRedundantOverrideOrFinal :: "cleansed_lines \<Rightarrow> nat \<Rightarrow> action list" where
  "CheckRedundantOverrideOrFinal clean_lines linenum =
     (let line = elided clean_lines ! linenum; declarator_end = py_rfind line (CHR '')'');
          fragment = (if declarator_end \<ge> 0 then Some (slice_from line declarator_end)
            else if linenum > 1 \<and> py_rfind (elided clean_lines ! (linenum - 1)) (CHR '')'') \<ge> 0
            then Some line else None)
      in case fragment of
           None \<Rightarrow> []
         | Some f \<Rightarrow>
             (if searches OVERRIDE_PAT f \<and> searches FINAL_PAT f then
                [Report (int linenum) ''readability/inheritance'' 4
                  (([dq] @ ''override'' @ [dq] @ '' is redundant since function is '') @
                   (''already declared as '' @ [dq] @ ''final'' @ [dq]))]
              else []))"

definition LEADING_BLANKS_PAT :: rx where
  "LEADING_BLANKS_PAT = rseq [RBol, RPlus RSp]"

definition CheckItemIndentationInNamespace :: "string list \<Rightarrow> nat \<Rightarrow> action list" where
  "CheckItemIndentationInNamespace raw_lines_no_comments linenum =
     (if matches LEADING_BLANKS_PAT (raw_lines_no_comments ! linenum) then
        [Report (int linenum) ''runtime/indentation_namespace'' 4 ''Do not indent within a namespace'']
      else [])"

subsection \<open>The Juniper rules on names\<close>

definition ENUM_PAT :: rx where
  "ENUM_PAT = rseq [RBol, RStar RSp, RLit ''enum'', RWordB, RStar RSp,
     ROpt (ralt [RLit ''struct'', RLit ''class'']), RStar RSp, RGrp 1 (RPlus RWd), RWordB]"

definition NOT_UPPER_PAT :: rx where
  "NOT_UPPER_PAT = rseq [RBol, RNotIn [CR (CHR ''A'') (CHR ''Z'')]]"

definition INNER_UNDERSCORE_PAT :: rx where
  "INNER_UNDERSCORE_PAT = rseq [RIn [CR (CHR ''a'') (CHR ''z''), CR (CHR ''A'') (CHR ''Z''),
     CR (CHR ''0'') (CHR ''9'')], RPlus (RLit ''_''), RIn [CR (CHR ''a'') (CHR ''z''),
     CR (CHR ''A'') (CHR ''Z''), CR (CHR ''0'') (CHR ''9'')]]"

text \<open>The report about underscores, which four of the rules share but for the confidence.\<close>

definition underscore_report :: "nat \<Rightarrow> int \<Rightarrow> string \<Rightarrow> action list" where
  "underscore_report linenum confidence name =
     (if searches INNER_UNDERSCORE_PAT name then
        [Report (int linenum) ''Juniper/Identifier'' confidence
          ((''Use upper/lower case variations instead of underscores in '' @ [sq]) @ name @ ([sq] @ ''.''))]
      else [])"

definition JuniperCheckEnumIdentifierTypeName :: "cleansed_lines \<Rightarrow> nat \<Rightarrow> action list" where
  "JuniperCheckEnumIdentifierTypeName clean_lines linenum =
     (case Match ENUM_PAT (elided clean_lines ! linenum) of
        None \<Rightarrow> []
      | Some m \<Rightarrow>
          (let name = grp m 1
           in if name = [] then []
              else (if matches NOT_UPPER_PAT name then
                      [Report (int linenum) ''Juniper/Identifier'' 4
                        ((''Enum type name '' @ [sq]) @ name @ ([sq] @ '' must begin with an upper case letter.''))]
                    else []) @
                   underscore_report linenum 4 name))"

definition TYPEDEF_PAT :: rx where
  "TYPEDEF_PAT = rseq [RStar RSp, RWordB, RGrp 1 (RLit ''typedef'')]"

definition JuniperCheckTypedef :: "cleansed_lines \<Rightarrow> nat \<Rightarrow> action list" where
  "JuniperCheckTypedef clean_lines linenum =
     (if matches TYPEDEF_PAT (elided clean_lines ! linenum) then
        [Report (int linenum) ''Juniper/Keywords'' 5 ''Typedef is not allowed.'']
      else [])"

subsection \<open>Language versions\<close>

definition INCLUDE_NAME_PAT :: rx where
  "INCLUDE_NAME_PAT = rseq [RStar RSp, RLit ''#'', RStar RSp, RLit ''include'', RPlus RSp,
     RIn [CI (CHR ''<''), CI dq], RGrp 1 (RPlus (RNotIn [CI (CHR ''<''), CI dq])), RIn [CI dq,
     CI (CHR ''>'')]]"

definition DIRECTIVE_PAT :: rx where
  "DIRECTIVE_PAT = rseq [RStar RSp, RLit ''#'']"

definition DEFINE_DIRECTIVE_PAT :: rx where
  "DEFINE_DIRECTIVE_PAT = rseq [RStar RSp, RLit ''#'', RStar RSp, RLit ''define'', RWordB]"

definition std_name_pat :: "string \<Rightarrow> rx" where
  "std_name_pat name = rseq [RWordB, RLit (''std::'' @ name), RWordB]"

definition CXX11_HEADERS :: "string list" where
  "CXX11_HEADERS = [''cfenv'', ''condition_variable'', ''fenv.h'', ''future'', ''mutex'', ''thread'',
     ''chrono'', ''ratio'', ''regex'', ''system_error'']"

definition FlagCxx11Features :: "cleansed_lines \<Rightarrow> nat \<Rightarrow> action list" where
  "FlagCxx11Features clean_lines linenum =
     (let line = elided clean_lines ! linenum;
          header = map_option (\<lambda>m. grp m 1) (Match INCLUDE_NAME_PAT line)
      in (case header of
            None \<Rightarrow> []
          | Some h \<Rightarrow>
              (if startswith h ''tr1/'' then [Report (int linenum) ''build/c++tr1'' 5
                 (''C++ TR1 headers such as <'' @ h @ ''> are unapproved.'')] else []) @
              (if h \<in> set CXX11_HEADERS then [Report (int linenum) ''build/c++11'' 5
                 (''<'' @ h @ ''> is an unapproved C++11 header.'')] else [])) @
         (if matches DIRECTIVE_PAT line \<and> \<not> matches DEFINE_DIRECTIVE_PAT line then []
          else concat (map (\<lambda>top_name. if searches (std_name_pat top_name) line then
            [Report (int linenum) ''build/c++11'' 5
              (''std::'' @ top_name @ '' is an unapproved C++11 class or function.  Send c-style '' @
               ''an example of where it would make your code more readable, and '' @
               ''they may let you use it.'')]
            else []) [''alignment_of'', ''aligned_union''])))"

definition FlagCxx14Features :: "cleansed_lines \<Rightarrow> nat \<Rightarrow> action list" where
  "FlagCxx14Features clean_lines linenum =
     (case Match INCLUDE_NAME_PAT (elided clean_lines ! linenum) of
        None \<Rightarrow> []
      | Some m \<Rightarrow>
          (if grp m 1 \<in> set [''scoped_allocator'', ''shared_mutex''] then
             [Report (int linenum) ''build/c++14'' 5 (''<'' @ grp m 1 @ ''> is an unapproved C++14 header.'')]
           else []))"

subsection \<open>The contract of a check\<close>

text \<open>
  A check reports only on the line it is called for, in a category of the list that NOLINT
  comments and filters refer to, with a confidence from 0 to 5.
\<close>

definition reports_on :: "int \<Rightarrow> action \<Rightarrow> bool" where
  "reports_on n a = (is_report a \<and> a_line a = n \<and> a_category a \<in> set ERROR_CATEGORIES \<and>
     0 \<le> a_confidence a \<and> a_confidence a \<le> 5)"

locale line_check =
  fixes check :: "'a \<Rightarrow> nat \<Rightarrow> action list"
  assumes on_line: "list_all (reports_on (int n)) (check x n)"
begin

text \<open>On a line where every category is suppressed the check has no effect at all.\<close>

lemma silenced:
  assumes "\<forall>c. IsErrorSuppressedByNolint c (int n) g"
  shows "perform_all f (check x n) g = Some g"
proof -
  have "list_all (reports_on (int n)) as \<Longrightarrow> perform_all f as g = Some g" for as
  proof (induction as)
    case (Cons a as)
    then show ?case
      using assms by (cases a) (auto simp: reports_on_def is_report_def Error_def ShouldPrintError_def)
  qed simp
  then show ?thesis using on_line by blast
qed

text \<open>Elsewhere each report is counted if and only if the state accepts it.\<close>

lemma counted:
  assumes "wf_globals g"
  shows "\<exists>g'. perform_all f (check x n) g = Some g' \<and> wf_globals g' \<and>
     error_count (lint g') = error_count (lint g) + int (length (filter (accepts g) (check x n)))"
proof -
  have "list_all is_report (check x n)"
    using on_line [of n x] by (auto simp: list_all_iff reports_on_def)
  then show ?thesis
    using perform_all_reports [of "check x n" f g] es.report_all_total [OF assms, of f "check x n"]
      es.report_all_count [OF assms, of f "check x n"] by fastforce
qed

end


text \<open>The contract holds for each check of this theory.\<close>

lemma reports_on_Report [simp]:
  "reports_on n (Report l c k msg) \<longleftrightarrow> l = n \<and> c \<in> set ERROR_CATEGORIES \<and> 0 \<le> k \<and> k \<le> 5"
  by (simp add: reports_on_def is_report_def)

interpretation multiline: line_check CheckForMultilineCommentsAndStrings
  by unfold_locales (simp add: CheckForMultilineCommentsAndStrings_def Let_def)

interpretation threading: line_check CheckPosixThreading
  by unfold_locales (auto simp: CheckPosixThreading_def list_all_iff)

interpretation vlog: line_check CheckVlogArguments
  by unfold_locales (simp add: CheckVlogArguments_def)

interpretation increment: line_check CheckInvalidIncrement
  by unfold_locales (simp add: CheckInvalidIncrement_def)

interpretation alt_tokens: line_check CheckAltTokens
  by unfold_locales (simp add: CheckAltTokens_def Let_def list_all_iff)

interpretation make_pair: line_check CheckMakePairUsesDeduction
  by unfold_locales (simp add: CheckMakePairUsesDeduction_def)

interpretation override_final: line_check CheckRedundantOverrideOrFinal
  by unfold_locales (simp add: CheckRedundantOverrideOrFinal_def Let_def split: option.split)

interpretation ns_indent: line_check CheckItemIndentationInNamespace
  by unfold_locales (simp add: CheckItemIndentationInNamespace_def)

lemma underscore_report_on: "0 \<le> k \<Longrightarrow> k \<le> 5 \<Longrightarrow> list_all (reports_on (int n)) (underscore_report n k name)"
  by (simp add: underscore_report_def)

interpretation enum_name: line_check JuniperCheckEnumIdentifierTypeName
  by unfold_locales
     (simp add: JuniperCheckEnumIdentifierTypeName_def Let_def underscore_report_on split: option.split)

interpretation no_typedef: line_check JuniperCheckTypedef
  by unfold_locales (simp add: JuniperCheckTypedef_def)

interpretation cxx11: line_check FlagCxx11Features
  by unfold_locales (simp add: FlagCxx11Features_def Let_def split: option.split)

interpretation cxx14: line_check FlagCxx14Features
  by unfold_locales (simp add: FlagCxx14Features_def split: option.split)

subsection \<open>Properties\<close>

text \<open>The stateless checks on the lines, in the order in which \<open>ProcessLine\<close> calls them.\<close>

definition stateless_checks :: "(cleansed_lines \<Rightarrow> nat \<Rightarrow> action list) list" where
  "stateless_checks = [CheckForMultilineCommentsAndStrings, CheckAltTokens, CheckVlogArguments,
     CheckPosixThreading, CheckInvalidIncrement, CheckMakePairUsesDeduction,
     CheckRedundantOverrideOrFinal, JuniperCheckEnumIdentifierTypeName, JuniperCheckTypedef]"

lemma bare_nolint_first:
  assumes "u = [] \<or> \<not> is_word (last u)"
  shows "first NOLINT_PAT (rev u, ''NOLINT'', []) (rev ''NOLINT'' @ rev u, [], [])"
proof -
  have "first RWordB (rev u, ''NOLINT'', []) (rev u, ''NOLINT'', [])"
    using assms by (cases u rule: rev_cases) (auto intro!: first_wordb simp: head_word_def py_simps ord_def)
  moreover have "first (RLit ''NOLINT'') (rev u, ''NOLINT'', []) (rev ''NOLINT'' @ rev u, [], [])"
    using first_lit [of "''NOLINT''" "rev u" "[]" "[]"] by simp
  moreover have "first (ROpt (RGrp 1 (RLit ''NEXTLINE''))) (rev ''NOLINT'' @ rev u, [], [])
      (rev ''NOLINT'' @ rev u, [], [])"
    by (intro first_alt2 fails_grp fails_lit first_eps) simp
  moreover have "first RWordB (rev ''NOLINT'' @ rev u, [], []) (rev ''NOLINT'' @ rev u, [], [])"
    by (intro first_wordb) (simp add: head_word_def py_simps ord_def)
  moreover have "first (ROpt (RGrp 2 (rseq [RLit ''('', RPlus (RNotIn [CI (CHR '')'')]), RLit '')''])))
      (rev ''NOLINT'' @ rev u, [], []) (rev ''NOLINT'' @ rev u, [], [])"
    unfolding rseq.simps by (intro first_alt2 fails_grp fails_seq1 fails_lit first_eps) simp
  ultimately show ?thesis
    unfolding NOLINT_PAT_def rseq.simps by (blast intro: first_seq)
qed

lemma bare_nolint:
  assumes "py_find (u @ ''NOLINT'') ''NOLINT'' = int (length u)" "u = [] \<or> \<not> is_word (last u)"
  shows "ParseNolintSuppressions f (u @ ''NOLINT'') n g = Some (suppress None n g)"
proof -
  have "Search NOLINT_PAT (u @ ''NOLINT'') = Some (mk_mobj (rev u, ''NOLINT'', [])
      (rev ''NOLINT'' @ rev u, [], []))"
  proof (rule Search_first [OF refl bare_nolint_first [OF assms(2)]])
    fix u' v'
    assume "u @ ''NOLINT'' = u' @ v'" "length u' < length u"
    then have "\<not> startswith v' ''NOLINT''" using assms(1) by (auto simp: py_find_split)
    then show "fails NOLINT_PAT (rev u', v', [])" by (rule nolint_fails)
  qed
  then show ?thesis by (simp add: ParseNolintSuppressions_def group_def)
qed

lemmas silenced_checks = multiline.silenced alt_tokens.silenced vlog.silenced threading.silenced
  increment.silenced make_pair.silenced override_final.silenced enum_name.silenced no_typedef.silenced

text \<open>A line whose raw text ends with a NOLINT comment has every stateless check on that line
  silenced: once the comment has been read, none of the checks changes the error counts or prints
  anything, whatever it finds.\<close>

theorem nolint_silences_line:
  assumes "raw_lines cl ! n = u @ ''NOLINT''" "py_find (u @ ''NOLINT'') ''NOLINT'' = int (length u)"
    and "u = [] \<or> \<not> is_word (last u)"
  shows "\<exists>g'. perform f (Nolint (raw_lines cl ! n) (int n)) g = Some g' \<and> lint g' = lint g \<and>
     (\<forall>check \<in> set stateless_checks. perform_all f (check cl n) g' = Some g')"
proof -
  have "\<forall>c. IsErrorSuppressedByNolint c (int n) (suppress None (int n) g)"
    by (simp add: IsErrorSuppressed_suppress)
  then have "perform_all f (check cl n) (suppress None (int n) g) = Some (suppress None (int n) g)"
    if "check \<in> set stateless_checks" for check
    using that silenced_checks unfolding stateless_checks_def by fastforce
  moreover have "perform f (Nolint (raw_lines cl ! n) (int n)) g = Some (suppress None (int n) g)"
    using bare_nolint [OF assms(2,3)] assms(1) by simp
  ultimately show ?thesis by auto
qed

theorem nolint_silences_line_witness:
  "\<exists>g'. perform ''a.cc'' (Nolint ''typedef int T;  // NOLINT'' 0) init_globals = Some g' \<and>
     perform_all ''a.cc'' (JuniperCheckTypedef \<lparr>elided = [''typedef int T;''], lines = [''typedef int T;''],
       raw_lines = [''typedef int T;  // NOLINT''], lines_without_raw_strings = [''typedef int T;  // NOLINT'']\<rparr> 0) g' =
       Some g'"
proof -
  let ?cl = "\<lparr>elided = [''typedef int T;''], lines = [''typedef int T;''],
    raw_lines = [''typedef int T;  // NOLINT''], lines_without_raw_strings = [''typedef int T;  // NOLINT'']\<rparr>"
  let ?u = "''typedef int T;  // ''"
  have "raw_lines ?cl ! 0 = ?u @ ''NOLINT''" by simp
  moreover have "py_find (?u @ ''NOLINT'') ''NOLINT'' = int (length ?u)" "\<not> is_word (last ?u)" by code_simp+
  moreover have "JuniperCheckTypedef \<in> set stateless_checks" by (simp add: stateless_checks_def)
  ultimately show ?thesis using nolint_silences_line [of ?cl 0 ?u "''a.cc''" init_globals] by auto
qed

text \<open>C29: A string that goes on beyond the line is reported exactly when a scanner that skips escaped
  characters ends the line inside a string.\<close>

theorem multiline_string_reported:
  "(\<exists>a \<in> set (CheckForMultilineCommentsAndStrings cl n). a_category a = ''readability/multiline_string'') \<longleftrightarrow>
     in_string False (elided cl ! n)"
proof -
  have m: "i mod 2 \<noteq> 0 \<longleftrightarrow> i mod 2 = 1" for i :: int by presburger
  show ?thesis
    using in_string_parity [of "[]" False "elided cl ! n"]
    by (auto simp: CheckForMultilineCommentsAndStrings_def Let_def m quote_parity_def)
qed

end
