(* ===== verification/Nesting.thy ===== *)
theory Nesting
  imports Expressions Header_Checks Line_Checks
begin

text \<open>
  The blocks of a file and the stack of those that are open (tools/scripts/cpplint.py, lines 2205
  to 2787, 3041 to 3052 and 5783 to 5832): \<open>_BlockInfo\<close> and its subclasses, \<open>_PreprocessorInfo\<close>
  and \<open>NestingState\<close>.

  The stacks have their top at the head.  A block is an object that the source compares by
  identity, so each has a number \<open>bid\<close>; \<open>copy.deepcopy\<close> gives fresh numbers.  The line numbers
  that the operations get lie within the file.
\<close>

subsection \<open>Blocks\<close>

datatype asm_state = NO_ASM | INSIDE_ASM | END_ASM | BLOCK_ASM

record class_info =
  ci_name :: string
  is_derived :: bool
  ci_access :: string
  is_struct :: bool
  parent_classes :: "string list"
  class_indent :: nat
  last_line :: nat

datatype block_kind = BlockInfo | ExternCInfo | ClassInfo class_info | NamespaceInfo string

record block =
  bid :: nat
  starting_linenum :: nat
  seen_open_brace :: bool
  open_parentheses :: int
  inline_asm :: asm_state
  check_namespace_indentation :: bool
  kind :: block_kind

definition new_block :: "nat \<Rightarrow> nat \<Rightarrow> bool \<Rightarrow> block" where
  "new_block i linenum seen =
     \<lparr>bid = i, starting_linenum = linenum, seen_open_brace = seen, open_parentheses = 0,
      inline_asm = NO_ASM, check_namespace_indentation = False, kind = BlockInfo\<rparr>"

definition new_externc :: "nat \<Rightarrow> nat \<Rightarrow> block" where
  "new_externc i linenum = (new_block i linenum True)\<lparr>kind := ExternCInfo\<rparr>"

text \<open>The search for the line on which the class ends.\<close>

fun class_end :: "nat \<Rightarrow> int \<Rightarrow> string list \<Rightarrow> nat" where
  "class_end i depth [] = 0"
| "class_end i depth (line # ls) =
     (let depth' = depth + int (py_count ''{'' line) - int (py_count ''}'' line)
      in if depth' = 0 then i else class_end (i + 1) depth' ls)"

definition new_class :: "nat \<Rightarrow> string \<Rightarrow> string \<Rightarrow> cleansed_lines \<Rightarrow> nat \<Rightarrow> block" where
  "new_class i name class_or_struct clean_lines linenum =
     (new_block i linenum False)\<lparr>check_namespace_indentation := True,
       kind := ClassInfo
         \<lparr>ci_name = name, is_derived = False,
          ci_access = (if class_or_struct = ''struct'' then ''public'' else ''private''),
          is_struct = (class_or_struct = ''struct''), parent_classes = [],
          class_indent = GetIndentLevel (raw_lines clean_lines ! linenum),
          last_line = class_end linenum 0 (drop linenum (elided clean_lines))\<rparr>\<rparr>"

definition new_namespace :: "nat \<Rightarrow> string option \<Rightarrow> nat \<Rightarrow> block" where
  "new_namespace i name linenum =
     (new_block i linenum False)\<lparr>check_namespace_indentation := True,
       kind := NamespaceInfo (case name of None \<Rightarrow> [] | Some n \<Rightarrow> n)\<rparr>"

definition is_class :: "block \<Rightarrow> bool" where
  "is_class b = (case kind b of ClassInfo _ \<Rightarrow> True | _ \<Rightarrow> False)"

definition is_namespace :: "block \<Rightarrow> bool" where
  "is_namespace b = (case kind b of NamespaceInfo _ \<Rightarrow> True | _ \<Rightarrow> False)"

subsection \<open>Checks at the beginning and at the end of a block\<close>

definition BARE_COLON_PAT :: rx where
  "BARE_COLON_PAT = rseq [RGrp 1 (ralt [RBol, RNotIn [CI (CHR '':'')]]), RLit '':'',
     RGrp 2 (ralt [REol, RNotIn [CI (CHR '':'')]])]"

definition PARENT_PAT :: rx where
  "PARENT_PAT = rseq [ralt [RLit ''private'', RLit ''public'', RLit ''protected''], RStar RSp,
     RGrp 1 (RPlus RWd), RWordB]"

definition add_parent :: "string list \<Rightarrow> string \<Rightarrow> string list" where
  "add_parent ps p = (if p \<in> set ps then ps else ps @ [p])"

definition ci_CheckBegin :: "string \<Rightarrow> class_info \<Rightarrow> class_info" where
  "ci_CheckBegin line ci =
     (let ci1 = (if searches BARE_COLON_PAT line then ci\<lparr>is_derived := True\<rparr> else ci)
      in if is_derived ci1
         then ci1\<lparr>parent_classes := foldl add_parent (parent_classes ci1) (findall1 PARENT_PAT line)\<rparr>
         else ci1)"

definition CheckBegin :: "cleansed_lines \<Rightarrow> nat \<Rightarrow> block \<Rightarrow> block" where
  "CheckBegin clean_lines linenum b =
     (case kind b of
        ClassInfo ci \<Rightarrow> b\<lparr>kind := ClassInfo (ci_CheckBegin (elided clean_lines ! linenum) ci)\<rparr>
      | _ \<Rightarrow> b)"

text \<open>The name of a class has no special character of the pattern language.\<close>

definition DISALLOW_PAT :: "string \<Rightarrow> rx" where
  "DISALLOW_PAT name = rseq [RWordB,
     RGrp 1 (ralt [RLit ''DISALLOW_COPY_AND_ASSIGN'', RLit ''DISALLOW_IMPLICIT_CONSTRUCTORS'']),
     RLit ''('', RLit name, RLit '')'']"

definition BLANK_LINE_PAT :: rx where
  "BLANK_LINE_PAT = rseq [RBol, RStar RSp, REol]"

definition CLOSING_BRACE_PAT :: rx where
  "CLOSING_BRACE_PAT = rseq [RBol, RGrp 1 (RStar (RLit '' '')), RLit ''}'']"

text \<open>The loop from the line before the closing brace back to the one after the opening; the
  line numbers come in that order.\<close>

fun disallow_reports :: "string \<Rightarrow> cleansed_lines \<Rightarrow> bool \<Rightarrow> nat list \<Rightarrow> action list" where
  "disallow_reports name clean_lines seen [] = []"
| "disallow_reports name clean_lines seen (i # is) =
     (case Search (DISALLOW_PAT name) (elided clean_lines ! i) of
        Some m \<Rightarrow>
          (if seen then [Report (int i) ''readability/constructors'' 3
             (grp m 1 @ '' should be the last thing in the class'')] else [])
      | None \<Rightarrow>
          disallow_reports name clean_lines
            (seen \<or> \<not> matches BLANK_LINE_PAT (elided clean_lines ! i)) is)"

definition class_title :: "class_info \<Rightarrow> string" where
  "class_title ci = (if is_struct ci then ''struct '' else ''class '') @ ci_name ci"

definition ci_CheckEnd :: "cleansed_lines \<Rightarrow> nat \<Rightarrow> nat \<Rightarrow> class_info \<Rightarrow> action list" where
  "ci_CheckEnd clean_lines linenum start ci =
     disallow_reports (ci_name ci) clean_lines False (rev [start + 1..<linenum]) @
     (case Match CLOSING_BRACE_PAT (elided clean_lines ! linenum) of
        None \<Rightarrow> []
      | Some indent \<Rightarrow>
          (if length (grp indent 1) \<noteq> class_indent ci then
             [Report (int linenum) ''whitespace/indent'' 3
               (''Closing brace should be aligned with beginning of '' @ class_title ci)]
           else []))"

definition NAMESPACE_COMMENT_PAT :: rx where
  "NAMESPACE_COMMENT_PAT = rseq [RBol, RStar RSp, RLit ''}'', RStar (RLit '';''), RStar RSp,
     RGrp 1 (ralt [RLit ''//'', RLit ''/*'']), RStar RAny, RWordB, RLit ''namespace'', RWordB]"

definition NAMESPACE_END_PAT :: "string \<Rightarrow> rx" where
  "NAMESPACE_END_PAT name = rseq [RBol, RStar RSp, RLit ''}'', RStar (RLit '';''), RStar RSp,
     RGrp 1 (ralt [RLit ''//'', RLit ''/*'']), RStar RAny, RWordB, RLit ''namespace'', RPlus RSp,
     RLit name, RStar (RIn [CI (CHR ''*''), CI (CHR ''/''), CI (CHR ''.''), CI bs, CSpace]), REol]"

definition ANONYMOUS_END_PAT :: rx where
  "ANONYMOUS_END_PAT = rseq [RBol, RStar RSp, RLit ''}'', RStar (RLit '';''), RStar RSp,
     RGrp 1 (ralt [RLit ''//'', RLit ''/*'']), RStar RAny, RWordB, RLit ''namespace'',
     RStar (RIn [CI (CHR ''*''), CI (CHR ''/''), CI (CHR ''.''), CI bs, CSpace]), REol]"

definition ANONYMOUS_NAME_PAT :: rx where
  "ANONYMOUS_NAME_PAT = rseq [RBol, RStar RSp, RLit ''}'', RStar RAny, RWordB,
     RGrp 1 (ralt [RLit ''namespace anonymous'', RLit ''anonymous namespace'']), RWordB]"

definition ns_CheckEnd :: "cleansed_lines \<Rightarrow> nat \<Rightarrow> nat \<Rightarrow> string \<Rightarrow> action list" where
  "ns_CheckEnd clean_lines linenum start name =
     (let line = raw_lines clean_lines ! linenum
      in if int linenum - int start < 10 \<and> \<not> matches NAMESPACE_COMMENT_PAT line then []
         else if name \<noteq> [] then
           (if \<not> matches (NAMESPACE_END_PAT name) line then
              [Report (int linenum) ''readability/namespace'' 5
                (''Namespace should be terminated with '' @ [dq] @ ''// namespace '' @ name @ [dq])]
            else [])
         else if \<not> matches ANONYMOUS_END_PAT line then
           [Report (int linenum) ''readability/namespace'' 5
             ((''Anonymous namespace should be terminated with '' @ [dq] @ ''// namespace'' @ [dq]) @
              (if matches ANONYMOUS_NAME_PAT line then ('' or '' @ [dq] @ ''// anonymous namespace'' @ [dq]) else []))]
         else [])"

definition CheckEnd :: "cleansed_lines \<Rightarrow> nat \<Rightarrow> block \<Rightarrow> action list" where
  "CheckEnd clean_lines linenum b =
     (case kind b of
        ClassInfo ci \<Rightarrow> ci_CheckEnd clean_lines linenum (starting_linenum b) ci
      | NamespaceInfo name \<Rightarrow> ns_CheckEnd clean_lines linenum (starting_linenum b) name
      | _ \<Rightarrow> [])"

subsection \<open>The nesting state\<close>

record pp_info =
  stack_before_if :: "block list"
  stack_before_else :: "block list"
  seen_else :: bool

record nesting_state =
  stack :: "block list"
  previous_stack_top :: "block option"
  pp_stack :: "pp_info list"
  next_id :: nat

definition init_nesting_state :: nesting_state where
  "init_nesting_state = \<lparr>stack = [], previous_stack_top = None, pp_stack = [], next_id = 0\<rparr>"

definition SeenOpenBrace :: "nesting_state \<Rightarrow> bool" where
  "SeenOpenBrace s = (stack s = [] \<or> seen_open_brace (hd (stack s)))"

definition InNamespaceBody :: "nesting_state \<Rightarrow> bool" where
  "InNamespaceBody s = (stack s \<noteq> [] \<and> is_namespace (hd (stack s)))"

definition InExternC :: "nesting_state \<Rightarrow> bool" where
  "InExternC s = (stack s \<noteq> [] \<and> kind (hd (stack s)) = ExternCInfo)"

definition InClassDeclaration :: "nesting_state \<Rightarrow> bool" where
  "InClassDeclaration s = (stack s \<noteq> [] \<and> is_class (hd (stack s)))"

definition InAsmBlock :: "nesting_state \<Rightarrow> bool" where
  "InAsmBlock s = (stack s \<noteq> [] \<and> inline_asm (hd (stack s)) \<noteq> NO_ASM)"

definition InnermostClass :: "nesting_state \<Rightarrow> block option" where
  "InnermostClass s = find is_class (stack s)"

definition CheckCompletedBlocks :: "nesting_state \<Rightarrow> action list" where
  "CheckCompletedBlocks s = concat (map (\<lambda>b.
     case kind b of
       ClassInfo ci \<Rightarrow> [Report (int (starting_linenum b)) ''build/class'' 5
         (''Failed to find complete declaration of class '' @ ci_name ci)]
     | NamespaceInfo name \<Rightarrow> [Report (int (starting_linenum b)) ''build/namespaces'' 5
         (''Failed to find complete declaration of namespace '' @ name)]
     | _ \<Rightarrow> []) (rev (stack s)))"

definition push_block :: "(nat \<Rightarrow> block) \<Rightarrow> nesting_state \<Rightarrow> nesting_state" where
  "push_block mk s = s\<lparr>stack := mk (next_id s) # stack s, next_id := next_id s + 1\<rparr>"

definition pop_block :: "nesting_state \<Rightarrow> nesting_state" where
  "pop_block s = s\<lparr>stack := tl (stack s)\<rparr>"

definition on_top :: "(block \<Rightarrow> block) \<Rightarrow> nesting_state \<Rightarrow> nesting_state" where
  "on_top f s = (case stack s of [] \<Rightarrow> s | b # bs' \<Rightarrow> s\<lparr>stack := f b # bs'\<rparr>)"

subsection \<open>Template arguments\<close>

definition TEMPLATE_TOKEN_PAT :: rx where
  "TEMPLATE_TOKEN_PAT = rseq [RBol, RStar (RNotIn [CI (CHR ''{''), CI (CHR ''}''),
     CI (CHR '';''), CI (CHR ''=''), CI (CHR ''[''), CI (CHR '']''), CI (CHR ''.''),
     CI (CHR ''<''), CI (CHR ''>'')]), RGrp 1 RAny]"

lemma TEMPLATE_TOKEN_length:
  assumes "Match TEMPLATE_TOKEN_PAT s = Some m"
  shows "0 < length (grp m 0)" "length (grp m 0) \<le> length s" "grp m 1 = [s ! (length (grp m 0) - 1)]"
proof -
  from assms obtain st where "reach TEMPLATE_TOKEN_PAT ([], s, []) st" "m = mk_mobj ([], s, []) st"
    by (rule Match_mem)
  then show "0 < length (grp m 0)" "length (grp m 0) \<le> length s"
    "grp m 1 = [s ! (length (grp m 0) - 1)]"
    by (auto simp: TEMPLATE_TOKEN_PAT_def reach_simps)
qed

text \<open>\<open>None\<close> would be an index error; \<open>elided\<close> has as many lines as the file.\<close>

function InTemplateArgumentList :: "cleansed_lines \<Rightarrow> nat \<Rightarrow> nat \<Rightarrow> bool option" where
  "InTemplateArgumentList clean_lines linenum pos =
     (if linenum < length (elided clean_lines) then
        (let line = elided clean_lines ! linenum
         in case Match TEMPLATE_TOKEN_PAT (drop pos line) of
              None \<Rightarrow> InTemplateArgumentList clean_lines (linenum + 1) 0
            | Some m \<Rightarrow>
                (let token = grp m 1; pos' = pos + length (grp m 0)
                 in if token \<in> set [''{'', ''}'', '';''] then Some False
                    else if token \<in> set [''>'', ''='', ''['', '']'', ''.''] then Some True
                    else if token \<noteq> ''<'' then
                      (if pos' + 1 \<ge> length line then InTemplateArgumentList clean_lines (linenum + 1) 0
                       else InTemplateArgumentList clean_lines linenum (pos' + 1))
                    else (case CloseExpression clean_lines linenum (pos' - 1) of
                            None \<Rightarrow> None
                          | Some (_, end_line, end_pos) \<Rightarrow>
                              if end_pos < 0 then Some False
                              else InTemplateArgumentList clean_lines end_line (nat end_pos))))
      else Some False)"
  by pat_completeness auto
termination
proof (relation "measures [\<lambda>(cl, n, p). length (elided cl) - n, \<lambda>(cl, n, p). length (elided cl ! n) + 1 - p]",
    goal_cases)
  case 1
  show ?case by simp
next
  case (2 cl n p line)
  then show ?case by (simp add: diff_less_mono2)
next
  case (3 cl n p line m token pos')
  then show ?case by (simp add: diff_less_mono2)
next
  case (4 cl n p line m token pos')
  then show ?case using TEMPLATE_TOKEN_length(1) [of "drop p line" m] by simp
next
  case (5 cl n p line m token pos' r l r' end_line end_pos)
  note b = TEMPLATE_TOKEN_length(1,2) [OF 5(3)]
  then have g: "p < pos'" "pos' \<le> length (elided cl ! n)"
    unfolding 5(2) \<open>pos' = p + length (grp m 0)\<close> length_drop by linarith+
  then have "pos' - 1 < length (elided cl ! n)" by linarith
  then consider "n < end_line" "end_line < length (elided cl)"
    | "end_line = n" "int (pos' - 1) < end_pos" "end_pos \<le> int (length (elided cl ! n))"
    using CloseExpression_bound [OF 5(1), of "pos' - 1"] 5 by fastforce
  then show ?case
  proof cases
    case 1
    then show ?thesis by (simp add: diff_less_mono2)
  next
    case 2
    then have "p < nat end_pos" "nat end_pos \<le> length (elided cl ! n)" using g by linarith+
    then show ?thesis using 2(1) by simp
  qed
qed

declare InTemplateArgumentList.simps [simp del]

subsection \<open>Conditional compilation\<close>

definition PP_IF_PAT :: rx where
  "PP_IF_PAT = rseq [RBol, RStar RSp, RLit ''#'', RStar RSp, RGrp 1 (ralt [RLit ''if'',
     RLit ''ifdef'', RLit ''ifndef'']), RWordB]"

definition PP_ELSE_PAT :: rx where
  "PP_ELSE_PAT = rseq [RBol, RStar RSp, RLit ''#'', RStar RSp, RGrp 1 (ralt [RLit ''else'',
     RLit ''elif'']), RWordB]"

definition PP_ENDIF_PAT :: rx where
  "PP_ENDIF_PAT = rseq [RBol, RStar RSp, RLit ''#'', RStar RSp, RLit ''endif'', RWordB]"

text \<open>\<open>copy.deepcopy\<close> of a stack.\<close>

fun deepcopy :: "nat \<Rightarrow> block list \<Rightarrow> block list" where
  "deepcopy i [] = []"
| "deepcopy i (b # bs') = b\<lparr>bid := i\<rparr> # deepcopy (i + 1) bs'"

definition UpdatePreprocessor :: "string \<Rightarrow> nesting_state \<Rightarrow> nesting_state" where
  "UpdatePreprocessor line s =
     (if matches PP_IF_PAT line then
        s\<lparr>pp_stack := \<lparr>stack_before_if = deepcopy (next_id s) (stack s), stack_before_else = [],
            seen_else = False\<rparr> # pp_stack s,
          next_id := next_id s + length (stack s)\<rparr>
      else if matches PP_ELSE_PAT line then
        (case pp_stack s of
           [] \<Rightarrow> s
         | pp # pps \<Rightarrow>
             (let s1 = (if \<not> seen_else pp then
                  s\<lparr>pp_stack := pp\<lparr>seen_else := True,
                        stack_before_else := deepcopy (next_id s) (stack s)\<rparr> # pps,
                    next_id := next_id s + length (stack s)\<rparr>
                else s)
              in s1\<lparr>stack := deepcopy (next_id s1) (stack_before_if pp),
                   next_id := next_id s1 + length (stack_before_if pp)\<rparr>))
      else if matches PP_ENDIF_PAT line then
        (case pp_stack s of
           [] \<Rightarrow> s
         | pp # pps \<Rightarrow>
             s\<lparr>stack := (if seen_else pp then stack_before_else pp else stack s), pp_stack := pps\<rparr>)
      else s)"

subsection \<open>Updating the state with a line\<close>

definition update_parens :: "string \<Rightarrow> block \<Rightarrow> block" where
  "update_parens line b =
     (let depth_change = int (py_count ''('' line) - int (py_count '')'' line);
          b1 = b\<lparr>open_parentheses := open_parentheses b + depth_change\<rparr>
      in if inline_asm b1 = NO_ASM \<or> inline_asm b1 = END_ASM then
           (if depth_change \<noteq> 0 \<and> open_parentheses b1 = 1 \<and> matches MATCH_ASM line
            then b1\<lparr>inline_asm := INSIDE_ASM\<rparr> else b1\<lparr>inline_asm := NO_ASM\<rparr>)
         else if inline_asm b1 = INSIDE_ASM \<and> open_parentheses b1 = 0
         then b1\<lparr>inline_asm := END_ASM\<rparr>
         else b1)"

definition NAMESPACE_DECL_PAT :: rx where
  "NAMESPACE_DECL_PAT = rseq [RBol, RStar RSp, RLit ''namespace'', RWordB, RStar RSp,
     ROpt (RGrp 1 (RPlus (RIn [CI (CHR '':''), CWord]))), RGrp 2 (RStar RAny), REol]"

lemma NAMESPACE_DECL_length:
  assumes "Match NAMESPACE_DECL_PAT line = Some m"
  shows "length (grp m 2) < length line"
proof -
  from assms obtain st where "reach NAMESPACE_DECL_PAT ([], line, []) st" "m = mk_mobj ([], line, []) st"
    by (rule Match_mem)
  then show ?thesis by (auto simp: NAMESPACE_DECL_PAT_def reach_simps)
qed

lemma slice_from_le: "length (slice_from s i) \<le> length s"
  by (simp add: slice_from_def)

text \<open>The namespaces that a line opens, and what is left of the line.\<close>

function namespace_loop :: "nat \<Rightarrow> string \<Rightarrow> nesting_state \<Rightarrow> string \<times> nesting_state" where
  "namespace_loop linenum line s =
     (case Match NAMESPACE_DECL_PAT line of
        None \<Rightarrow> (line, s)
      | Some m \<Rightarrow>
          (let s1 = push_block (\<lambda>i. new_namespace i (group m 1) linenum) s; rest = grp m 2
           in if py_find rest ''{'' \<noteq> -1
              then namespace_loop linenum (slice_from rest (py_find rest ''{'' + 1))
                     (on_top (\<lambda>b. b\<lparr>seen_open_brace := True\<rparr>) s1)
              else namespace_loop linenum rest s1))"
  by pat_completeness auto
termination
proof (relation "measure (\<lambda>(linenum, line, s). length line)", goal_cases)
  case (2 linenum line s m s1 rest)
  then show ?case
    using NAMESPACE_DECL_length [of line m] slice_from_le [of rest "py_find rest ''{'' + 1"]
    by (simp del: slice_from_nat)
next
  case (3 linenum line s m s1 rest)
  then show ?case using NAMESPACE_DECL_length [of line m] by simp
qed simp

declare namespace_loop.simps [simp del]

definition CLASS_DECL_PAT :: rx where
  "CLASS_DECL_PAT = rseq [RBol, RGrp 1 (rseq [RStar RSp, ROpt (rseq [RLit ''template'',
     RStar RSp, RLit ''<'', RStar (RIn [CWord, CSpace, CI (CHR ''<''), CI (CHR ''>''),
     CI (CHR '',''), CI (CHR '':'')]), RLit ''>'', RStar RSp]), RGrp 2 (ralt [RLit ''class'',
     RLit ''struct'']), RPlus RSp, RStar (rseq [RPlus (RIn [CR (CHR ''A'') (CHR ''Z''),
     CI (CHR ''_'')]), RPlus RSp]), RGrp 3 (rseq [RPlus RWd, RStar (rseq [RLit ''::'',
     RPlus RWd])])]), RGrp 4 (RStar RAny), REol]"

definition class_step ::
    "cleansed_lines \<Rightarrow> nat \<Rightarrow> string \<times> nesting_state \<Rightarrow> (string \<times> nesting_state) option" where
  "class_step clean_lines linenum = (\<lambda>(line, s).
     case Match CLASS_DECL_PAT line of
       None \<Rightarrow> Some (line, s)
     | Some m \<Rightarrow>
         (if stack s = [] \<or> open_parentheses (hd (stack s)) = 0 then
            (case InTemplateArgumentList clean_lines linenum (length (grp m 1)) of
               None \<Rightarrow> None
             | Some True \<Rightarrow> Some (line, s)
             | Some False \<Rightarrow>
                 Some (grp m 4, push_block (\<lambda>i. new_class i (grp m 3) (grp m 2) clean_lines linenum) s))
          else Some (line, s)))"

definition ACCESS_PAT :: rx where
  "ACCESS_PAT = rseq [RBol, RGrp 1 (RStar RAny), RWordB, RGrp 2 (ralt [RLit ''public'',
     RLit ''private'', RLit ''protected'', RLit ''signals'']), ROpt (RGrp 3 (rseq [RPlus RSp,
     ROpt (rseq [RLit ''slots'', RStar RSp])])), RLit '':'', ralt [RNotIn [CI (CHR '':'')],
     REol]]"

text \<open>The access specifier on the line, if the innermost block is a class.\<close>

definition access_step :: "nat \<Rightarrow> string \<Rightarrow> nesting_state \<Rightarrow> action list \<times> nesting_state" where
  "access_step linenum line s =
     (case stack s of
        [] \<Rightarrow> ([], s)
      | b # bs' \<Rightarrow>
          (case kind b of
             ClassInfo ci \<Rightarrow>
               (case Match ACCESS_PAT line of
                  None \<Rightarrow> ([], s)
                | Some m \<Rightarrow>
                    (let s1 = s\<lparr>stack := b\<lparr>kind := ClassInfo (ci\<lparr>ci_access := grp m 2\<rparr>)\<rparr> # bs'\<rparr>;
                         indent = grp m 1
                     in (if length indent \<noteq> class_indent ci + 1 \<and> matches BLANK_LINE_PAT indent
                         then [Report (int linenum) ''whitespace/indent'' 3
                           (grp m 2 @ (case group m 3 of None \<Rightarrow> [] | Some slots \<Rightarrow> slots) @
                            '': should be indented +1 space inside '' @ class_title ci)]
                         else [], s1)))
           | _ \<Rightarrow> ([], s)))"

definition BRACE_TOKEN_PAT :: rx where
  "BRACE_TOKEN_PAT = rseq [RBol, RStar (RNotIn [CI (CHR ''{''), CI (CHR '';''), CI (CHR '')''),
     CI (CHR ''}'')]), RGrp 1 (RIn [CI (CHR ''{''), CI (CHR '';''), CI (CHR '')''),
     CI (CHR ''}'')]), RGrp 2 (RStar RAny), REol]"

definition EXTERN_PAT :: rx where
  "EXTERN_PAT = rseq [RBol, RLit ''extern'', RStar RSp, RLit [dq], RStar (RNotIn [CI dq]),
     RLit [dq], RStar RSp, RLit ''{'']"

lemma BRACE_TOKEN_length:
  assumes "Match BRACE_TOKEN_PAT line = Some m"
  shows "length (grp m 2) < length line"
proof -
  from assms obtain st where "reach BRACE_TOKEN_PAT ([], line, []) st" "m = mk_mobj ([], line, []) st"
    by (rule Match_mem)
  then show ?thesis by (auto simp: BRACE_TOKEN_PAT_def reach_simps)
qed

definition open_brace :: "nat \<Rightarrow> string \<Rightarrow> nesting_state \<Rightarrow> nesting_state" where
  "open_brace linenum line s =
     (if \<not> SeenOpenBrace s then on_top (\<lambda>b. b\<lparr>seen_open_brace := True\<rparr>) s
      else if matches EXTERN_PAT line then push_block (\<lambda>i. new_externc i linenum) s
      else push_block (\<lambda>i. (new_block i linenum True)\<lparr>inline_asm :=
        (if matches MATCH_ASM line then BLOCK_ASM else NO_ASM)\<rparr>) s)"

definition close_brace :: "cleansed_lines \<Rightarrow> nat \<Rightarrow> nesting_state \<Rightarrow> action list \<times> nesting_state" where
  "close_brace clean_lines linenum s =
     (case stack s of
        [] \<Rightarrow> ([], s)
      | b # bs' \<Rightarrow> (CheckEnd clean_lines linenum b, pop_block s))"

definition brace_token ::
    "cleansed_lines \<Rightarrow> nat \<Rightarrow> string \<Rightarrow> string \<Rightarrow> nesting_state \<Rightarrow> action list \<times> nesting_state" where
  "brace_token clean_lines linenum line token s =
     (if token = ''{'' then ([], open_brace linenum line s)
      else if token = '';'' \<or> token = '')'' then
        ([], if \<not> SeenOpenBrace s then pop_block s else s)
      else close_brace clean_lines linenum s)"

function brace_loop ::
    "cleansed_lines \<Rightarrow> nat \<Rightarrow> string \<Rightarrow> nesting_state \<Rightarrow> action list \<times> nesting_state" where
  "brace_loop clean_lines linenum line s =
     (case Match BRACE_TOKEN_PAT line of
        None \<Rightarrow> ([], s)
      | Some matched \<Rightarrow>
          (let (as, s1) = brace_token clean_lines linenum line (grp matched 1) s;
               (as', s2) = brace_loop clean_lines linenum (grp matched 2) s1
           in (as @ as', s2)))"
  by pat_completeness auto
termination
  by (relation "measure (\<lambda>(clean_lines, linenum, line, s). length line)")
     (auto simp: BRACE_TOKEN_length)

declare brace_loop.simps [simp del]

definition Update ::
    "cleansed_lines \<Rightarrow> nat \<Rightarrow> nesting_state \<Rightarrow> (action list \<times> nesting_state) option" where
  "Update clean_lines linenum s =
     (let line = elided clean_lines ! linenum;
          s1 = s\<lparr>previous_stack_top := (case stack s of [] \<Rightarrow> None | b # _ \<Rightarrow> Some b)\<rparr>;
          s2 = UpdatePreprocessor line s1;
          s3 = on_top (update_parens line) s2
      in case class_step clean_lines linenum (namespace_loop linenum line s3) of
           None \<Rightarrow> None
         | Some (line', s4) \<Rightarrow>
             (let s5 = (if \<not> SeenOpenBrace s4 then on_top (CheckBegin clean_lines linenum) s4 else s4);
                  (as1, s6) = access_step linenum line' s5;
                  (as2, s7) = brace_loop clean_lines linenum line' s6
              in Some (as1 @ as2, s7)))"

subsection \<open>Indentation within namespaces\<close>

definition IsBlockInNameSpace :: "nesting_state \<Rightarrow> bool \<Rightarrow> bool" where
  "IsBlockInNameSpace s is_forward_declaration =
     (if is_forward_declaration then InNamespaceBody s
      else (case stack s of
              b # b' # _ \<Rightarrow> check_namespace_indentation b \<and> is_namespace b'
            | _ \<Rightarrow> False))"

definition ShouldCheckNamespaceIndentation ::
    "nesting_state \<Rightarrow> bool \<Rightarrow> string list \<Rightarrow> nat \<Rightarrow> bool" where
  "ShouldCheckNamespaceIndentation s is_namespace_indent_item raw_lines_no_comments linenum =
     (let is_forward_declaration = IsForwardClassDeclaration raw_lines_no_comments linenum
      in if \<not> (is_namespace_indent_item \<or> is_forward_declaration) then False
         else if IsMacroDefinition raw_lines_no_comments linenum then False
         else IsBlockInNameSpace s is_forward_declaration)"

text \<open>The blocks are compared by identity.\<close>

definition CheckForNamespaceIndentation :: "nesting_state \<Rightarrow> cleansed_lines \<Rightarrow> nat \<Rightarrow> action list" where
  "CheckForNamespaceIndentation s clean_lines linenum =
     (let is_namespace_indent_item =
            (case (stack s, previous_stack_top s) of
               (b # b' # _, Some prev) \<Rightarrow>
                 check_namespace_indentation b \<and> is_namespace prev \<and> bid prev = bid b'
             | _ \<Rightarrow> False)
      in if ShouldCheckNamespaceIndentation s is_namespace_indent_item (elided clean_lines) linenum
         then CheckItemIndentationInNamespace (elided clean_lines) linenum
         else [])"

end
