(* ===== verification/Nesting_Laws.thy ===== *)
theory Nesting_Laws
  imports Nesting
begin

text \<open>
  The laws of the nesting state: the stack of plain code is what a scan of its braces gives,
  processing a line never fails, the stacked blocks keep their order and their identity, and a
  conditional section leaves the stack as its first branch left it.
\<close>

subsection \<open>The braces of a line\<close>

definition brace_chars :: string where
  "brace_chars = ''{;)}''"

lemma BRACE_TOKEN_first:
  assumes "set u \<inter> set brace_chars = {}" "c \<in> set brace_chars" "nl \<notin> set v"
  shows "Match BRACE_TOKEN_PAT (u @ c # v) =
    Some \<lparr>mo_start = 0, mo_text = u @ c # v, mo_caps = [(2, length u + 1, v), (1, length u, [c])]\<rparr>"
proof -
  let ?no = "RNotIn [CI (CHR ''{''), CI (CHR '';''), CI (CHR '')''), CI (CHR ''}'')]"
  let ?in = "RIn [CI (CHR ''{''), CI (CHR '';''), CI (CHR '')''), CI (CHR ''}'')]"
  have 1: "first (RStar ?no) ([], u @ c # v, []) (rev u, c # v, [])"
    using assms(1,2) first_star_set [of _ u "c # v" "[]" "[]"] 
    by (fastforce simp: brace_chars_def list_all_iff intro!: first_star_set [of _ u "c # v" "[]" "[]", simplified])
  have 2: "first (RGrp 1 ?in) (rev u, c # v, []) (c # rev u, v, [(1, length u, [c])])"
    using assms(2) first_grp [OF first_set, of _ c 1 "rev u" v "[]"] by (auto simp: brace_chars_def)
  have 3: "first (RGrp 2 (RStar RAny)) (c # rev u, v, [(1, length u, [c])])
     (rev v @ c # rev u, [], [(2, length u + 1, v), (1, length u, [c])])"
    using assms(3) first_grp [OF first_star_set, of "CNeg [CI nl]" v "[]" 2 "c # rev u" "[(1, length u, [c])]"]
    by (auto simp: list_all_iff)
  show ?thesis
    using Match_first [OF first_seq [OF first_bol first_seq [OF 1 first_seq [OF 2 first_seq [OF 3 first_eol]]]]]
    by (simp add: BRACE_TOKEN_PAT_def)
qed

lemma BRACE_TOKEN_none:
  assumes "set u \<inter> set brace_chars = {}"
  shows "Match BRACE_TOKEN_PAT u = None"
proof -
  have "\<not> matches BRACE_TOKEN_PAT u"
    using assms by (auto simp: matches_reach BRACE_TOKEN_PAT_def reach_simps brace_chars_def)
  then show ?thesis by (simp add: matches_def)
qed


text \<open>The abstract machine: the stack of the flags that say whether a block has its opening
  brace, stepped by one character.\<close>

definition flag_step :: "bool list \<Rightarrow> char \<Rightarrow> bool list" where
  "flag_step fl c =
     (if c = CHR ''{'' then (case fl of False # fl' \<Rightarrow> True # fl' | _ \<Rightarrow> True # fl)
      else if c = CHR '';'' \<or> c = CHR '')'' then (case fl of False # fl' \<Rightarrow> fl' | _ \<Rightarrow> fl)
      else if c = CHR ''}'' then tl fl
      else fl)"

definition flags :: "nesting_state \<Rightarrow> bool list" where
  "flags s = map seen_open_brace (stack s)"

lemma SeenOpenBrace_flags: "SeenOpenBrace s \<longleftrightarrow> (case flags s of [] \<Rightarrow> True | f # _ \<Rightarrow> f)"
  by (cases "stack s") (simp_all add: SeenOpenBrace_def flags_def)

lemma flags_push [simp]: "flags (push_block mk s) = seen_open_brace (mk (next_id s)) # flags s"
  by (simp add: flags_def push_block_def)

lemma flags_pop [simp]: "flags (pop_block s) = tl (flags s)"
  by (simp add: flags_def pop_block_def map_tl)

lemma flags_on_top: "flags (on_top f s) =
    (case stack s of [] \<Rightarrow> [] | b # bs' \<Rightarrow> seen_open_brace (f b) # map seen_open_brace bs')"
  by (simp add: flags_def on_top_def split: list.split)

lemma flags_open_brace: "flags (open_brace n line s) = flag_step (flags s) (CHR ''{'')"
  by (cases "stack s")
     (auto simp: open_brace_def SeenOpenBrace_def flags_on_top new_block_def new_externc_def flag_step_def,
      auto simp: flags_def)

lemma flags_close_brace: "flags (snd (close_brace cl n s)) = flag_step (flags s) (CHR ''}'')"
  by (cases "stack s") (auto simp: close_brace_def pop_block_def flags_def flag_step_def)

lemma flags_forward:
  assumes "c = CHR '';'' \<or> c = CHR '')''"
  shows "\<not> SeenOpenBrace s \<Longrightarrow> flag_step (flags s) c = tl (flags s)"
    "SeenOpenBrace s \<Longrightarrow> flag_step (flags s) c = flags s"
  using assms by (auto simp: SeenOpenBrace_flags flag_step_def split: list.splits)

lemma flag_steps_plain: "set u \<inter> set brace_chars = {} \<Longrightarrow> foldl flag_step fl u = fl"
  by (induction u) (auto simp: brace_chars_def flag_step_def)

lemma brace_loop_none: "set u \<inter> set brace_chars = {} \<Longrightarrow> brace_loop cl n u s = ([], s)"
  by (subst brace_loop.simps) (simp add: BRACE_TOKEN_none)

lemma brace_loop_flags:
  "nl \<notin> set line \<Longrightarrow> flags (snd (brace_loop cl n line s)) = foldl flag_step (flags s) line"
proof (induction line arbitrary: s rule: length_induct)
  case (1 line)
  show ?case
  proof (cases "set line \<inter> set brace_chars = {}")
    case True
    then show ?thesis by (simp add: brace_loop_none flag_steps_plain)
  next
    case False
    then have "\<exists>c \<in> set line. c \<in> set brace_chars" by blast
    from split_list_first_prop [OF this] obtain u c v where l: "line = u @ c # v"
      "c \<in> set brace_chars" "set u \<inter> set brace_chars = {}" by blast
    then have IH: "flags (snd (brace_loop cl n v s')) = foldl flag_step (flags s') v" for s'
      using 1 by auto
    have m: "Match BRACE_TOKEN_PAT line = Some \<lparr>mo_start = 0, mo_text = u @ c # v,
        mo_caps = [(2, length u + 1, v), (1, length u, [c])]\<rparr>"
      using BRACE_TOKEN_first l 1 by simp
    have "c = CHR ''{'' \<or> c = CHR '';'' \<or> c = CHR '')'' \<or> c = CHR ''}''"
      using l(2) by (auto simp: brace_chars_def)
    then show ?thesis
      using l m by (subst brace_loop.simps)
        (elim disjE; simp add: brace_token_def IH flag_steps_plain flags_open_brace flags_close_brace
           flags_forward Let_def split_beta)
  qed
qed


subsection \<open>Plain code\<close>

text \<open>A line that opens no namespace or class and is no directive.\<close>

definition plain_line :: "string \<Rightarrow> bool" where
  "plain_line line \<longleftrightarrow> nl \<notin> set line \<and> \<not> matches PP_IF_PAT line \<and> \<not> matches PP_ELSE_PAT line \<and>
     \<not> matches PP_ENDIF_PAT line \<and> \<not> matches NAMESPACE_DECL_PAT line \<and> \<not> matches CLASS_DECL_PAT line"

lemma flags_access_step [simp]: "flags (snd (access_step n line s)) = flags s"
  by (auto simp: access_step_def flags_def Let_def split: list.split block_kind.split option.split)

lemma seen_update_parens [simp]: "seen_open_brace (update_parens line b) = seen_open_brace b"
  by (simp add: update_parens_def Let_def)

lemma seen_CheckBegin [simp]: "seen_open_brace (CheckBegin cl n b) = seen_open_brace b"
  by (simp add: CheckBegin_def split: block_kind.split)

lemma flags_top_keep: "(\<And>b. seen_open_brace (f b) = seen_open_brace b) \<Longrightarrow> flags (on_top f s) = flags s"
  by (simp add: flags_on_top split: list.split) (simp add: flags_def)

lemma Update_plain:
  assumes "plain_line (elided cl ! n)"
  shows "\<exists>as s'. Update cl n s = Some (as, s') \<and>
    flags s' = foldl flag_step (flags s) (elided cl ! n)"
proof -
  let ?l = "elided cl ! n"
  note p = assms [unfolded plain_line_def matches_def, simplified]
  have nl: "namespace_loop n ?l s' = (?l, s')" for s'
    using p by (subst namespace_loop.simps) simp
  show ?thesis
    using p by (simp add: Update_def nl class_step_def UpdatePreprocessor_def matches_def Let_def
       brace_loop_flags flags_top_keep split_beta)
      (simp add: flags_def)
qed

fun updates :: "cleansed_lines \<Rightarrow> nat list \<Rightarrow> nesting_state \<Rightarrow> (action list \<times> nesting_state) option" where
  "updates cl [] s = Some ([], s)"
| "updates cl (n # ns) s =
     (case Update cl n s of
        None \<Rightarrow> None
      | Some (as, s1) \<Rightarrow>
          (case updates cl ns s1 of None \<Rightarrow> None | Some (as', s2) \<Rightarrow> Some (as @ as', s2)))"

lemma plain_code:
  assumes "\<And>n. n \<in> set ns \<Longrightarrow> plain_line (elided cl ! n)"
  shows "\<exists>as s'. updates cl ns s = Some (as, s') \<and>
    flags s' = foldl flag_step (flags s) (concat (map ((!) (elided cl)) ns))"
  using assms
proof (induction ns arbitrary: s)
  case (Cons n ns)
  obtain as s1 where 1: "Update cl n s = Some (as, s1)"
    "flags s1 = foldl flag_step (flags s) (elided cl ! n)" using Update_plain Cons.prems by force
  obtain as' s2 where 2: "updates cl ns s1 = Some (as', s2)"
    "flags s2 = foldl flag_step (flags s1) (concat (map ((!) (elided cl)) ns))"
    using Cons.IH [of s1] Cons.prems by auto
  show ?case using 1 2 by simp
qed simp


subsection \<open>Totality\<close>

lemma InTemplateArgumentList_total: "\<exists>b. InTemplateArgumentList cl n p = Some b"
proof (induction cl n p rule: InTemplateArgumentList.induct)
  case (1 cl n p)
  show ?case
  proof (cases "n < length (elided cl)")
    case False
    then show ?thesis by (auto simp: InTemplateArgumentList.simps)
  next
    case True
    let ?line = "elided cl ! n"
    show ?thesis
    proof (cases "Match TEMPLATE_TOKEN_PAT (drop p ?line)")
      case None
      then show ?thesis using 1(1) [OF True refl] True
        by (subst InTemplateArgumentList.simps) simp
    next
      case (Some m)
      let ?p = "p + length (grp m 0)"
      have "?p - 1 < length ?line" using TEMPLATE_TOKEN_length(1,2) [OF Some] by (simp, linarith)
      from CloseExpression_bound [OF True this] obtain l e q where
        c: "CloseExpression cl n (?p - 1) = Some (l, e, q)" by blast
      note IH = 1(2-4) [OF True refl Some refl refl]
      show ?thesis
        using IH(1,2) IH(3) [OF _ _ _ c refl refl] True Some c
        by (subst InTemplateArgumentList.simps) (auto simp: Let_def)
    qed
  qed
qed

lemma class_step_total: "\<exists>r. class_step cl n ls = Some r"
  using InTemplateArgumentList_total [of cl n]
  by (auto simp: class_step_def split: prod.split option.split bool.split) (metis option.distinct(1))+

lemma Update_defined: "\<exists>as s'. Update cl n s = Some (as, s')"
  using class_step_total [of cl n]
  by (fastforce simp: Update_def Let_def split: option.split prod.split)


subsection \<open>Invariants\<close>

locale nesting_invariant =
  fixes I :: "nat \<Rightarrow> nesting_state \<Rightarrow> bool"
  assumes start: "I 0 init_nesting_state"
    and later: "I n s \<Longrightarrow> I (Suc n) s"
    and pushed: "I (Suc n) s \<Longrightarrow> (\<And>i. starting_linenum (mk i) = n \<and> bid (mk i) = i) \<Longrightarrow>
      I (Suc n) (push_block mk s)"
    and popped: "I n s \<Longrightarrow> I n (pop_block s)"
    and changed: "I n s \<Longrightarrow>
      (\<And>b. starting_linenum (f b) = starting_linenum b \<and> bid (f b) = bid b) \<Longrightarrow> I n (on_top f s)"
    and directive: "I n s \<Longrightarrow> I n (UpdatePreprocessor line s)"
    and remembered: "I n s \<Longrightarrow> I n (s\<lparr>previous_stack_top := t\<rparr>)"
begin

lemma namespaces: "I (Suc n) s \<Longrightarrow> I (Suc n) (snd (namespace_loop n line s))"
proof (induction n line s rule: namespace_loop.induct)
  case (1 n line s)
  have "I (Suc n) (push_block (\<lambda>i. new_namespace i x n) s)" for x
    using 1(3) by (rule pushed) (simp add: new_namespace_def new_block_def)
  moreover from this have "I (Suc n) (on_top (\<lambda>b. b\<lparr>seen_open_brace := True\<rparr>)
      (push_block (\<lambda>i. new_namespace i x n) s))" for x
    by (rule changed) simp
  ultimately show ?case using 1
    by (subst namespace_loop.simps) (auto simp: Let_def split: option.split)
qed

lemma classes:
  assumes "I (Suc n) s" "class_step cl n (line, s) = Some (line', s')"
  shows "I (Suc n) s'"
proof -
  have "I (Suc n) (push_block (\<lambda>i. new_class i x y cl n) s)" for x y
    using assms(1) by (rule pushed) (simp add: new_class_def new_block_def)
  then show ?thesis
    using assms by (auto simp: class_step_def split: option.splits if_splits bool.splits)
qed

lemma accesses: "I n s \<Longrightarrow> I n (snd (access_step m line s))"
proof -
  assume i: "I n s"
  have "snd (access_step m line s) = s \<or>
    (\<exists>c. snd (access_step m line s) = on_top (\<lambda>b. b\<lparr>kind := c\<rparr>) s)"
    by (cases "stack s")
       (auto simp: access_step_def on_top_def Let_def split: block_kind.split option.split)
  then show ?thesis using i changed [OF i, of "\<lambda>b. b\<lparr>kind := c\<rparr>" for c] by fastforce
qed

lemma opened: "I (Suc n) s \<Longrightarrow> I (Suc n) (open_brace n line s)"
  unfolding open_brace_def
  by (auto intro!: pushed changed simp: new_externc_def new_block_def)

lemma closed: "I n s \<Longrightarrow> I n (snd (close_brace cl m s))"
  by (auto simp: close_brace_def intro: popped split: list.split)

lemma token: "I (Suc n) s \<Longrightarrow> I (Suc n) (snd (brace_token cl n line tok s))"
  by (simp add: brace_token_def opened closed popped)

lemma braces: "I (Suc n) s \<Longrightarrow> I (Suc n) (snd (brace_loop cl n line s))"
proof (induction cl n line s rule: brace_loop.induct)
  case (1 cl n line s)
  show ?case
    using 1(1) [OF _ refl prod.collapse] 1(2) token [OF 1(2)]
    by (subst brace_loop.simps) (simp add: split_beta split: option.split)
qed

lemma Update_keeps:
  assumes "I n s" "Update cl n s = Some (as, s')"
  shows "I (Suc n) s'"
proof -
  let ?line = "elided cl ! n"
  define s3 where "s3 = on_top (update_parens ?line) (UpdatePreprocessor ?line
      (s\<lparr>previous_stack_top := (case stack s of [] \<Rightarrow> None | b # _ \<Rightarrow> Some b)\<rparr>))"
  have "starting_linenum (update_parens l b) = starting_linenum b \<and> bid (update_parens l b) = bid b" for l b
    by (simp add: update_parens_def Let_def)
  then have "I (Suc n) s3" unfolding s3_def
    by (intro later changed directive remembered assms(1))
  then have ns: "I (Suc n) (snd (namespace_loop n ?line s3))" by (rule namespaces)
  from assms(2) obtain line' s4 where s4: "class_step cl n (namespace_loop n ?line s3) = Some (line', s4)"
    and s': "s' = snd (brace_loop cl n line' (snd (access_step n line'
      (if \<not> SeenOpenBrace s4 then on_top (CheckBegin cl n) s4 else s4))))"
    by (auto simp: Update_def s3_def [symmetric] Let_def split_beta split: option.splits)
  have "I (Suc n) s4"
    using classes [of n "snd (namespace_loop n ?line s3)" cl "fst (namespace_loop n ?line s3)"] ns s4 by simp
  moreover have "starting_linenum (CheckBegin cl n b) = starting_linenum b \<and> bid (CheckBegin cl n b) = bid b" for b
    by (simp add: CheckBegin_def split: block_kind.split)
  ultimately show ?thesis unfolding s' by (auto intro!: braces accesses changed)
qed

end


text \<open>Two invariants: the blocks start in the order in which they are stacked, before the next
  line; and no two live blocks have the same number.\<close>

definition blocks_ordered :: "nat \<Rightarrow> block list \<Rightarrow> bool" where
  "blocks_ordered n bs' \<longleftrightarrow> sorted_wrt (\<ge>) (map starting_linenum bs') \<and>
     (\<forall>b \<in> set bs'. starting_linenum b < n)"

definition saved_blocks :: "pp_info list \<Rightarrow> block list list" where
  "saved_blocks pps = concat (map (\<lambda>pp. [stack_before_if pp, stack_before_else pp]) pps)"

definition lines_ok :: "nat \<Rightarrow> nesting_state \<Rightarrow> bool" where
  "lines_ok n s \<longleftrightarrow> (\<forall>bs' \<in> set (stack s # saved_blocks (pp_stack s)). blocks_ordered n bs')"

definition live :: "nesting_state \<Rightarrow> block list" where
  "live s = stack s @ concat (saved_blocks (pp_stack s))"

definition ids_ok :: "nat \<Rightarrow> nesting_state \<Rightarrow> bool" where
  "ids_ok n s \<longleftrightarrow> distinct (map bid (live s)) \<and> (\<forall>b \<in> set (live s). bid b < next_id s)"

lemma deepcopy_lines [simp]: "map starting_linenum (deepcopy i bs') = map starting_linenum bs'"
  by (induction i bs' rule: deepcopy.induct) simp_all

lemma deepcopy_ids [simp]: "map bid (deepcopy i bs') = [i..<i + length bs']"
  by (induction i bs' rule: deepcopy.induct) (simp_all add: upt_rec)

lemma blocks_ordered_lines:
  "map starting_linenum as = map starting_linenum bs' \<Longrightarrow> blocks_ordered n as = blocks_ordered n bs'"
  unfolding blocks_ordered_def by (metis (no_types, lifting) list.set_map image_iff)

interpretation ordered: nesting_invariant lines_ok
proof
  show "lines_ok 0 init_nesting_state"
    by (simp add: lines_ok_def init_nesting_state_def saved_blocks_def blocks_ordered_def)
next
  fix n s assume "lines_ok n s"
  then show "lines_ok (Suc n) s" by (fastforce simp: lines_ok_def blocks_ordered_def)
next
  fix n s and mk :: "nat \<Rightarrow> block"
  assume "lines_ok (Suc n) s" "\<And>i. starting_linenum (mk i) = n \<and> bid (mk i) = i"
  then show "lines_ok (Suc n) (push_block mk s)"
    by (auto simp: lines_ok_def blocks_ordered_def push_block_def less_Suc_eq_le)
next
  fix n s assume "lines_ok n s"
  then show "lines_ok n (pop_block s)"
    by (cases "stack s") (auto simp: lines_ok_def blocks_ordered_def pop_block_def)
next
  fix n s and f :: "block \<Rightarrow> block"
  assume "lines_ok n s" "\<And>b. starting_linenum (f b) = starting_linenum b \<and> bid (f b) = bid b"
  then show "lines_ok n (on_top f s)"
    by (cases "stack s") (auto simp: lines_ok_def blocks_ordered_def on_top_def)
next
  fix n s line assume "lines_ok n s"
  then show "lines_ok n (UpdatePreprocessor line s)"
    by (auto simp: lines_ok_def UpdatePreprocessor_def saved_blocks_def Let_def
         blocks_ordered_lines [OF deepcopy_lines] split: list.split)
      (auto simp: blocks_ordered_def)
next
  fix n s t assume "lines_ok n s"
  then show "lines_ok n (s\<lparr>previous_stack_top := t\<rparr>)" by (simp add: lines_ok_def)
qed

lemma ids_ok_alt:
  "ids_ok n s \<longleftrightarrow> distinct (map bid (live s)) \<and> (\<forall>i \<in> set (map bid (live s)). i < next_id s)"
  by (simp add: ids_ok_def)

definition saved_ids :: "pp_info list \<Rightarrow> nat list" where
  "saved_ids pps = map bid (concat (saved_blocks pps))"

lemma saved_ids_simps [simp]:
  "saved_ids [] = []"
  "saved_ids (pp # pps) = map bid (stack_before_if pp) @ map bid (stack_before_else pp) @ saved_ids pps"
  by (simp_all add: saved_ids_def saved_blocks_def)

lemma live_ids: "map bid (live s) = map bid (stack s) @ saved_ids (pp_stack s)"
  by (simp add: live_def saved_ids_def)

lemma ids_ok_UpdatePreprocessor:
  assumes "ids_ok n s"
  shows "ids_ok n (UpdatePreprocessor line s)"
proof -
  define A where "A = map bid (stack s)"
  have i: "distinct (A @ saved_ids (pp_stack s))" "\<forall>i \<in> set (A @ saved_ids (pp_stack s)). i < next_id s"
    using assms unfolding ids_ok_alt live_ids A_def by auto
  show ?thesis
  proof (cases "pp_stack s")
    case Nil
    then show ?thesis using i
      unfolding ids_ok_alt live_ids UpdatePreprocessor_def by (auto simp: A_def [symmetric] simp del: set_map)
  next
    case (Cons pp pps)
    define B C where "B = map bid (stack_before_if pp)" and "C = map bid (stack_before_else pp)"
    have fresh: "X \<inter> {k..<j} = {}" "{k..<j} \<inter> X = {}" if "\<forall>i \<in> X. i < next_id s" "next_id s \<le> k" for X k j
      using that by fastforce+
    have j: "distinct (A @ B @ C @ saved_ids pps)" "\<forall>i \<in> set (A @ B @ C @ saved_ids pps). i < next_id s"
      using i by (simp_all add: Cons B_def C_def)
    have l: "length (stack s) = length A" "length (stack_before_if pp) = length B"
      by (simp_all add: A_def B_def)
    note defs = ids_ok_alt live_ids UpdatePreprocessor_def Let_def Cons l ball_Un Int_Un_distrib
      Int_Un_distrib2
    consider "matches PP_IF_PAT line" | "\<not> matches PP_IF_PAT line" "matches PP_ELSE_PAT line" "\<not> seen_else pp"
      | "\<not> matches PP_IF_PAT line" "matches PP_ELSE_PAT line" "seen_else pp"
      | "\<not> matches PP_IF_PAT line" "\<not> matches PP_ELSE_PAT line" by blast
    then show ?thesis
    proof cases
      case 1
      then show ?thesis using j
        by (simp add: defs fresh trans_less_add1 Int_commute del: set_map flip: A_def B_def C_def)
    next
      case 2
      then show ?thesis using j
        by (simp add: defs fresh trans_less_add1 add.assoc Int_commute del: set_map flip: A_def B_def C_def)
    next
      case 3
      then show ?thesis using j
        by (simp add: defs fresh trans_less_add1 Int_commute del: set_map flip: A_def B_def C_def)
    next
      case 4
      then show ?thesis using j by (simp add: defs del: set_map flip: A_def B_def C_def)
    qed
  qed
qed

interpretation numbered: nesting_invariant ids_ok
proof
  show "ids_ok 0 init_nesting_state"
    by (simp add: ids_ok_def live_def init_nesting_state_def saved_blocks_def)
next
  fix n s assume "ids_ok n s"
  then show "ids_ok (Suc n) s" by (simp add: ids_ok_def)
next
  fix n s and mk :: "nat \<Rightarrow> block"
  assume "ids_ok (Suc n) s" "\<And>i. starting_linenum (mk i) = n \<and> bid (mk i) = i"
  then show "ids_ok (Suc n) (push_block mk s)"
    by (fastforce simp: ids_ok_def live_def push_block_def less_Suc_eq)
next
  fix n s assume "ids_ok n s"
  then show "ids_ok n (pop_block s)"
    by (cases "stack s") (auto simp: ids_ok_def live_def pop_block_def)
next
  fix n s and f :: "block \<Rightarrow> block"
  assume "ids_ok n s" "\<And>b. starting_linenum (f b) = starting_linenum b \<and> bid (f b) = bid b"
  then show "ids_ok n (on_top f s)"
    by (cases "stack s") (auto simp: ids_ok_def live_def on_top_def)
next
  fix n s line assume "ids_ok n s"
  then show "ids_ok n (UpdatePreprocessor line s)" by (rule ids_ok_UpdatePreprocessor)
next
  fix n s t assume "ids_ok n s"
  then show "ids_ok n (s\<lparr>previous_stack_top := t\<rparr>)" by (simp add: ids_ok_def live_def)
qed

inductive ns_reach :: "cleansed_lines \<Rightarrow> nat \<Rightarrow> nesting_state \<Rightarrow> bool" for cl where
  ns_start: "ns_reach cl 0 init_nesting_state"
| ns_line: "ns_reach cl n s \<Longrightarrow> n < NumLines cl \<Longrightarrow> Update cl n s = Some (as, s') \<Longrightarrow>
     ns_reach cl (Suc n) s'"


lemma reachable_invariants:
  assumes "ns_reach cl n s"
  shows "lines_ok n s \<and> ids_ok n s"
  using assms
  by (induction rule: ns_reach.induct)
     (auto intro: ordered.start numbered.start ordered.Update_keeps numbered.Update_keeps)


subsection \<open>Conditional sections\<close>

fun pp_depth :: "nat \<Rightarrow> string list \<Rightarrow> nat option" where
  "pp_depth d [] = Some d"
| "pp_depth d (line # ls) =
     (if matches PP_IF_PAT line then pp_depth (Suc d) ls
      else if matches PP_ELSE_PAT line then (if d = 0 then None else pp_depth d ls)
      else if matches PP_ENDIF_PAT line then
        (case d of 0 \<Rightarrow> None | Suc d' \<Rightarrow> pp_depth d' ls)
      else pp_depth d ls)"

lemma pp_simple [simp]:
  "pp_stack (push_block mk s) = pp_stack s"
  "pp_stack (pop_block s) = pp_stack s"
  "pp_stack (on_top f s) = pp_stack s"
  by (simp_all add: push_block_def pop_block_def on_top_def split: list.split)

lemma pp_namespace_loop [simp]: "pp_stack (snd (namespace_loop n line s)) = pp_stack s"
proof (induction n line s rule: namespace_loop.induct)
  case (1 n line s)
  then show ?case by (subst namespace_loop.simps) (simp add: Let_def split: option.split)
qed

lemma pp_class_step: "class_step cl n ls = Some (line', s') \<Longrightarrow> pp_stack s' = pp_stack (snd ls)"
  by (cases ls) (auto simp: class_step_def split: option.splits if_splits bool.splits)

lemma pp_access_step [simp]: "pp_stack (snd (access_step n line s)) = pp_stack s"
  by (auto simp: access_step_def Let_def split: list.split block_kind.split option.split)

lemma pp_brace_token [simp]: "pp_stack (snd (brace_token cl n line tok s)) = pp_stack s"
  by (auto simp: brace_token_def open_brace_def close_brace_def split: list.split)

lemma pp_brace_loop [simp]: "pp_stack (snd (brace_loop cl n line s)) = pp_stack s"
proof (induction cl n line s rule: brace_loop.induct)
  case (1 cl n line s)
  show ?case
    using 1 [OF _ refl prod.collapse]
    by (subst brace_loop.simps) (simp add: split_beta split: option.split)
qed

lemma pp_previous [simp]:
  "pp_stack (UpdatePreprocessor line (s\<lparr>previous_stack_top := t\<rparr>)) = pp_stack (UpdatePreprocessor line s)"
  "stack (UpdatePreprocessor line (s\<lparr>previous_stack_top := t\<rparr>)) = stack (UpdatePreprocessor line s)"
  by (simp_all add: UpdatePreprocessor_def Let_def split: list.split)

lemma pp_Update:
  assumes "Update cl n s = Some (as, s')"
  shows "pp_stack s' = pp_stack (UpdatePreprocessor (elided cl ! n) s)"
  using assms by (auto simp: Update_def Let_def split_beta dest!: pp_class_step split: option.splits if_splits)

lemma updates_keep_outer:
  assumes "updates cl ns s = Some (as, s')" "pp_stack s = xs @ ys"
    "pp_depth (length xs) (map ((!) (elided cl)) ns) = Some d"
  shows "\<exists>xs'. pp_stack s' = xs' @ ys \<and> length xs' = d"
  using assms
proof (induction ns arbitrary: s xs as)
  case (Cons n ns)
  from Cons.prems(1) obtain as1 s1 as2 where u: "Update cl n s = Some (as1, s1)"
    "updates cl ns s1 = Some (as2, s')" by (auto split: option.splits)
  let ?l = "elided cl ! n"
  have "\<exists>xs1. pp_stack s1 = xs1 @ ys \<and> pp_depth (length xs1) (map ((!) (elided cl)) ns) = Some d"
    using pp_Update [OF u(1)] Cons.prems(2,3)
    by (cases xs) (auto simp: UpdatePreprocessor_def Let_def split: if_splits)
  then show ?case using Cons.IH [OF u(2)] by blast
qed simp

lemma updates_defined: "\<exists>as s'. updates cl ns s = Some (as, s')"
proof (induction ns arbitrary: s)
  case (Cons n ns)
  obtain as1 s1 where "Update cl n s = Some (as1, s1)" using Update_defined by blast
  then show ?case using Cons [of s1] by auto
qed simp

text \<open>The content of a stack, whatever the numbers of the blocks.\<close>

definition content :: "block list \<Rightarrow> block list" where
  "content bs' = map (\<lambda>b. b\<lparr>bid := 0\<rparr>) bs'"

lemma content_deepcopy [simp]: "content (deepcopy i bs') = content bs'"
  by (induction i bs' rule: deepcopy.induct) (simp_all add: content_def)

text \<open>The branches of a section behind its first one, each a line with #elif or #else and the
  lines up to the next such line, in which every conditional section is complete.\<close>

definition branch_ok :: "cleansed_lines \<Rightarrow> nat \<times> nat list \<Rightarrow> bool" where
  "branch_ok cl p = (matches PP_ELSE_PAT (elided cl ! fst p) \<and> \<not> matches PP_IF_PAT (elided cl ! fst p) \<and>
     pp_depth 0 (map ((!) (elided cl)) (snd p)) = Some 0)"

definition branch_lines :: "(nat \<times> nat list) list \<Rightarrow> nat list" where
  "branch_lines alts = concat (map (\<lambda>p. fst p # snd p) alts)"

lemma branch_lines_simps [simp]:
  "branch_lines [] = []" "branch_lines (p # alts) = fst p # snd p @ branch_lines alts"
  by (simp_all add: branch_lines_def)

lemma updates_append:
  "updates cl (xs @ ys) s =
     (case updates cl xs s of None \<Rightarrow> None
      | Some (r1, s1) \<Rightarrow> map_option (\<lambda>(r2, s2). (r1 @ r2, s2)) (updates cl ys s1))"
  by (induction xs arbitrary: s) (auto simp: option.map_id case_prod_beta split: option.split)

lemma branch_keeps:
  assumes "branch_ok cl p" "pp_stack s = pp # pps" "updates cl (fst p # snd p) s = Some (r, s')"
  shows "pp_stack s' = (if seen_else pp then pp
     else pp\<lparr>seen_else := True, stack_before_else := deepcopy (next_id s) (stack s)\<rparr>) # pps"
proof -
  from assms(3) obtain r1 s1 r2 where s1: "Update cl (fst p) s = Some (r1, s1)" "updates cl (snd p) s1 = Some (r2, s')"
    by (auto split: option.splits)
  have "pp_stack s1 = (if seen_else pp then pp
     else pp\<lparr>seen_else := True, stack_before_else := deepcopy (next_id s) (stack s)\<rparr>) # pps"
    using pp_Update [OF s1(1)] assms(1,2) by (simp add: branch_ok_def UpdatePreprocessor_def Let_def)
  then show ?thesis
    using updates_keep_outer [OF s1(2), of "[]"] assms(1) by (simp add: branch_ok_def)
qed

lemma branches_keep:
  assumes "list_all (branch_ok cl) alts" "pp_stack s = pp # pps" "updates cl (branch_lines alts) s = Some (r, s')"
  shows "\<exists>qq. pp_stack s' = qq # pps \<and> stack_before_if qq = stack_before_if pp \<and>
     (if seen_else pp \<or> alts = [] then qq = pp \<and> (alts = [] \<longrightarrow> s' = s)
      else seen_else qq \<and> content (stack_before_else qq) = content (stack s))"
  using assms
proof (induction alts arbitrary: s pp r)
  case (Cons p alts)
  obtain r1 t where t1: "updates cl (fst p # snd p) s = Some (r1, t)" using updates_defined by blast
  obtain r2 t' where t2: "updates cl (branch_lines alts) t = Some (r2, t')" using updates_defined by blast
  have "t' = s'"
    using Cons.prems(3) updates_append [of cl "fst p # snd p" "branch_lines alts" s] t1 t2
    by (simp del: updates.simps)
  with t1 t2 have t: "updates cl (fst p # snd p) s = Some (r1, t)"
    "updates cl (branch_lines alts) t = Some (r2, s')" by simp_all
  have "branch_ok cl p" "list_all (branch_ok cl) alts" using Cons.prems(1) by simp_all
  note Cons.IH [OF this(2) branch_keeps [OF this(1) Cons.prems(2) t(1)] t(2)]
  then show ?case by (auto split: if_splits)
qed simp

lemma else_resets:
  assumes "matches PP_ELSE_PAT line" "\<not> matches PP_IF_PAT line" "pp_stack s = qq # pps"
  shows "content (stack (UpdatePreprocessor line s)) = content (stack_before_if qq)"
  using assms by (simp add: UpdatePreprocessor_def Let_def)

lemma endif_restores:
  assumes "matches PP_ENDIF_PAT line" "\<not> matches PP_IF_PAT line" "\<not> matches PP_ELSE_PAT line"
    "pp_stack s = qq # pps"
  shows "stack (UpdatePreprocessor line s) = (if seen_else qq then stack_before_else qq else stack s)"
    "pp_stack (UpdatePreprocessor line s) = pps"
  using assms by (simp_all add: UpdatePreprocessor_def)

lemma first_branch:
  assumes "matches PP_IF_PAT (elided cl ! i)" "pp_depth 0 (map ((!) (elided cl)) as) = Some 0"
    "updates cl (i # as) s = Some (r, s')"
  shows "pp_stack s' = \<lparr>stack_before_if = deepcopy (next_id s) (stack s), stack_before_else = [],
     seen_else = False\<rparr> # pp_stack s"
proof -
  from assms(3) obtain r1 s0 r2 where s0: "Update cl i s = Some (r1, s0)" "updates cl as s0 = Some (r2, s')"
    by (auto split: option.splits)
  have "pp_stack s0 = \<lparr>stack_before_if = deepcopy (next_id s) (stack s), stack_before_else = [],
     seen_else = False\<rparr> # pp_stack s"
    using pp_Update [OF s0(1)] assms(1) by (simp add: UpdatePreprocessor_def)
  then show ?thesis using updates_keep_outer [OF s0(2), of "[]"] assms(2) by simp
qed


subsection \<open>Properties\<close>

text \<open>C18: For code without directives and without namespace or class heads, the stack of open
  blocks after any number of lines is the one that a scan of the braces, semicolons and closing
  parentheses gives, character by character: an opening brace completes the innermost head or opens
  a block, a closing brace closes a block, and a semicolon or a closing parenthesis drops a head
  that has no brace yet.\<close>

theorem nesting_follows_braces:
  assumes "\<And>n. n \<in> set ns \<Longrightarrow> plain_line (elided cl ! n)"
  shows "\<exists>as s'. updates cl ns s = Some (as, s') \<and>
    map seen_open_brace (stack s') =
      foldl flag_step (map seen_open_brace (stack s)) (concat (map ((!) (elided cl)) ns))"
  using plain_code [OF assms] by (simp add: flags_def)

definition example_lines :: "string list \<Rightarrow> cleansed_lines" where
  "example_lines ls = \<lparr>elided = ls, lines = ls, raw_lines = ls, lines_without_raw_strings = ls\<rparr>"

theorem nesting_follows_braces_witness:
  "\<exists>as s'. updates (example_lines [''f() {'', ''{ g(); }'', ''{'']) [0, 1, 2] init_nesting_state = Some (as, s') \<and>
    map seen_open_brace (stack s') = [True, True]"
proof -
  let ?cl = "example_lines [''f() {'', ''{ g(); }'', ''{'']"
  have "plain_line ''f() {''" "plain_line ''{ g(); }''" "plain_line ''{''" by code_simp+
  then have p: "plain_line (elided ?cl ! n)" if "n \<in> set [0, 1, 2]" for n
    using that by (auto simp: example_lines_def)
  have f: "foldl flag_step [] (concat (map ((!) (elided ?cl)) [0, 1, 2])) = [True, True]"
    by (simp add: example_lines_def flag_step_def)
  show ?thesis
    using nesting_follows_braces [of "[0, 1, 2]" ?cl init_nesting_state, OF p] f
    by (simp only: init_nesting_state_def nesting_state.simps list.map)
qed

text \<open>C19: Whatever the file holds, every line can be processed in turn: no index is out of range
  and every loop ends.  In the state after any number of lines the blocks on the stack, and on the
  stacks saved for the open conditional sections, begin on lines already read and in the order in
  which they are stacked, and all these blocks are different objects.\<close>

theorem nesting_reachable_states:
  assumes "ns_reach cl n s"
  shows "(n < NumLines cl \<longrightarrow> (\<exists>as s'. Update cl n s = Some (as, s') \<and> ns_reach cl (Suc n) s')) \<and>
    (\<forall>bs' \<in> set (stack s # saved_blocks (pp_stack s)).
       sorted_wrt (\<ge>) (map starting_linenum bs') \<and> (\<forall>b \<in> set bs'. starting_linenum b < n)) \<and>
    distinct (map bid (stack s @ concat (saved_blocks (pp_stack s))))"
  using reachable_invariants [OF assms] Update_defined [of cl n s] ns_line [OF assms]
  by (auto simp: lines_ok_def blocks_ordered_def ids_ok_def live_def)

theorem nesting_reachable_states_witness:
  "\<exists>s. ns_reach (example_lines [''class A {'']) 1 s \<and> distinct (map bid (stack s)) \<and>
    (\<forall>b \<in> set (stack s). starting_linenum b < 1)"
proof -
  let ?cl = "example_lines [''class A {'']"
  have "ns_reach ?cl 0 init_nesting_state" by (rule ns_start)
  from nesting_reachable_states [OF this] obtain s where "ns_reach ?cl 1 s"
    by (auto simp: example_lines_def NumLines_def)
  from nesting_reachable_states [OF this] this show ?thesis by auto
qed

text \<open>C20: Of a conditional section with any number of #elif and #else branches only the first branch
  counts: each #elif and #else puts the stack of blocks back to what it was at the #if, and the #endif
  puts it to what it was at the end of the first branch, whatever the lines of the branches did and
  whatever complete conditional sections they hold, and forgets the section.\<close>

theorem else_branch_discarded:
  assumes "matches PP_IF_PAT (elided cl ! i)" "pp_depth 0 (map ((!) (elided cl)) as) = Some 0"
    and "list_all (branch_ok cl) alts"
    and "matches PP_ENDIF_PAT (elided cl ! f)" "\<not> matches PP_IF_PAT (elided cl ! f)"
      "\<not> matches PP_ELSE_PAT (elided cl ! f)"
  shows "\<exists>r1 s1 r2 s2. updates cl (i # as) s = Some (r1, s1) \<and>
    updates cl (branch_lines alts) s1 = Some (r2, s2) \<and>
    (\<forall>xs p ys. alts = xs @ p # ys \<longrightarrow> (\<exists>r t. updates cl (branch_lines xs) s1 = Some (r, t) \<and>
       content (stack (UpdatePreprocessor (elided cl ! fst p) t)) = content (stack s))) \<and>
    content (stack (UpdatePreprocessor (elided cl ! f) s2)) = content (stack s1) \<and>
    pp_stack (UpdatePreprocessor (elided cl ! f) s2) = pp_stack s"
proof -
  obtain r1 s1 where 1: "updates cl (i # as) s = Some (r1, s1)" using updates_defined by blast
  obtain r2 s2 where 2: "updates cl (branch_lines alts) s1 = Some (r2, s2)" using updates_defined by blast
  note pp = first_branch [OF assms(1,2) 1]
  obtain qq where "pp_stack s2 = qq # pp_stack s"
    "if alts = [] then \<not> seen_else qq \<and> s2 = s1
     else seen_else qq \<and> content (stack_before_else qq) = content (stack s1)"
    using branches_keep [OF assms(3) pp 2] by auto
  then have "content (stack (UpdatePreprocessor (elided cl ! f) s2)) = content (stack s1)"
    "pp_stack (UpdatePreprocessor (elided cl ! f) s2) = pp_stack s"
    using endif_restores [OF assms(4-6)] by (auto split: if_splits)
  moreover have "\<exists>r t. updates cl (branch_lines xs) s1 = Some (r, t) \<and>
      content (stack (UpdatePreprocessor (elided cl ! fst p) t)) = content (stack s)"
    if "alts = xs @ p # ys" for xs p ys
  proof -
    obtain r t where t: "updates cl (branch_lines xs) s1 = Some (r, t)" using updates_defined by blast
    have "list_all (branch_ok cl) xs" "branch_ok cl p" using assms(3) that by simp_all
    then show ?thesis
      using t branches_keep [OF _ pp t] else_resets [of "elided cl ! fst p" t] by (auto simp: branch_ok_def)
  qed
  ultimately show ?thesis using 1 2 by blast
qed

theorem else_branch_discarded_witness:
  "\<exists>r1 s1 r2 s2.
    updates (example_lines [''#if A'', ''{'', ''#elif B'', ''}}'', ''#else'', ''{{{'', ''#endif'']) [0, 1] init_nesting_state = Some (r1, s1) \<and>
    updates (example_lines [''#if A'', ''{'', ''#elif B'', ''}}'', ''#else'', ''{{{'', ''#endif'']) [2, 3, 4, 5] s1 = Some (r2, s2) \<and>
    content (stack (UpdatePreprocessor ''#endif'' s2)) = content (stack s1)"
proof -
  let ?ls = "[''#if A'', ''{'', ''#elif B'', ''}}'', ''#else'', ''{{{'', ''#endif'']"
  have "matches PP_IF_PAT ''#if A''" "pp_depth 0 [''{''] = Some 0"
    "list_all (branch_ok (example_lines ?ls)) [(2, [3]), (4, [5])]"
    "matches PP_ENDIF_PAT ''#endif''" "\<not> matches PP_IF_PAT ''#endif''" "\<not> matches PP_ELSE_PAT ''#endif''"
    by code_simp+
  then show ?thesis
    using else_branch_discarded [of "example_lines ?ls" 0 "[1]" "[(2, [3]), (4, [5])]" 6 init_nesting_state]
    by (simp add: example_lines_def) blast
qed
end
