(* ===== verification/Cast_Checks.thy ===== *)
theory Cast_Checks
  imports Expressions Line_Checks
begin

text \<open>
  The checks of casts (tools/scripts/cpplint.py, lines 5217 to 5408).  An index out of range is
  \<open>None\<close>.
\<close>

subsection \<open>C style casts\<close>

definition KEYWORD_CONTEXT_PAT :: rx where
  "KEYWORD_CONTEXT_PAT = rseq [RStar RAny, RWordB, ralt [RLit ''sizeof'', RLit ''alignof'',
     RLit ''alignas'', rseq [RIn [CI (CHR ''_''), CR (CHR ''A'') (CHR ''Z'')],
     RStar (RIn [CI (CHR ''_''), CR (CHR ''A'') (CHR ''Z''), CR (CHR ''0'') (CHR ''9'')])]],
     RStar RSp, REol]"

definition MACRO_CONTEXT_PAT :: rx where
  "MACRO_CONTEXT_PAT = rseq [RStar RAny, RWordB, RIn [CI (CHR ''_''),
     CR (CHR ''A'') (CHR ''Z'')], RStar (RIn [CI (CHR ''_''), CR (CHR ''A'') (CHR ''Z''),
     CR (CHR ''0'') (CHR ''9'')]), RStar RSp, RLit ''('', RStar (ralt [rseq [RLit ''('',
     RStar (RNotIn [CI (CHR ''(''), CI (CHR '')'')]), RLit '')''], RNotIn [CI (CHR ''(''),
     CI (CHR '')'')]]), REol]"

definition CAST_REMAINDER_PAT :: rx where
  "CAST_REMAINDER_PAT = rseq [RBol, RStar RSp, ralt [RLit '';'', rseq [RLit ''const'', RWordB],
     rseq [RLit ''throw'', RWordB], rseq [RLit ''final'', RWordB], rseq [RLit ''override'',
     RWordB], RIn [CI (CHR ''=''), CI (CHR ''>''), CI (CHR ''{''), CI (CHR '')''),
     CI (CHR '','')], RLit ''->'']]"

definition CheckCStyleCast :: "cleansed_lines \<Rightarrow> nat \<Rightarrow> string \<Rightarrow> rx \<Rightarrow> action list" where
  "CheckCStyleCast clean_lines linenum cast_type pattern =
     (let es = elided clean_lines; line = es ! linenum
      in case Search pattern line of
           None \<Rightarrow> []
         | Some m \<Rightarrow>
             (let context = slice line 0 (group_start m 1 - 1);
                  wide = concat (map ((!) es) [(linenum - 5) + 1..<linenum]) @ context
              in if matches KEYWORD_CONTEXT_PAT context then []
                 else if matches MACRO_CONTEXT_PAT wide then []
                 else if endswith wide '' operator++'' \<or> endswith wide '' operator--'' then []
                 else if matches CAST_REMAINDER_PAT (drop (mo_end m) line) then []
                 else [Report (int linenum) ''readability/casting'' 4
                   (''Using C-style cast.  Use '' @ cast_type @ ''<'' @ grp m 1 @ ''>(...) instead'')]))"

definition MOCK_METHOD_PAT :: rx where
  "MOCK_METHOD_PAT = rseq [RBol, RStar RSp, RLit ''MOCK_'', ROpt (RGrp 1 (RLit ''CONST_'')),
     RLit ''METHOD'', RPlus (RIn [CDigit]), ROpt (RGrp 2 (RLit ''_T'')), RLit ''('']"

definition MOCK_NAME_PAT :: rx where
  "MOCK_NAME_PAT = rseq [RBol, RStar RSp, RLit ''MOCK_'', ROpt (RLit ''CONST_''),
     RLit ''METHOD'', RPlus (RIn [CDigit]), ROpt (RLit ''_T''), RLit ''('',
     ROpt (rseq [RPlus RNSp, RLit '','']), RStar RSp, REol]"

definition MOCK_OPEN_PAT :: rx where
  "MOCK_OPEN_PAT = rseq [RBol, RStar RSp, RLit ''MOCK_'', ROpt (RLit ''CONST_''),
     RLit ''METHOD'', RPlus (RIn [CDigit]), ROpt (RLit ''_T''), RLit ''('', RStar RSp, REol]"

definition STD_FUNCTION_PAT :: rx where
  "STD_FUNCTION_PAT = rseq [RWordB, RLit ''std::'', ROpt (RLit ''m''), RLit ''function'',
     RStar RSp, RLit ''<'', RStar RSp, REol]"

definition ExpectingFunctionArgs :: "cleansed_lines \<Rightarrow> nat \<Rightarrow> bool" where
  "ExpectingFunctionArgs clean_lines linenum =
     (let es = elided clean_lines
      in matches MOCK_METHOD_PAT (es ! linenum) \<or>
         linenum \<ge> 2 \<and>
           (matches MOCK_NAME_PAT (es ! (linenum - 1)) \<or> matches MOCK_OPEN_PAT (es ! (linenum - 2)) \<or>
            searches STD_FUNCTION_PAT (es ! (linenum - 1))))"

subsection \<open>Casts of an address\<close>

definition CONVERSION_PAT :: rx where
  "CONVERSION_PAT = rseq [ROpt (RGrp 1 (ralt [rseq [RWordB, RLit ''new'', RPlus RSp,
     ROpt (rseq [RLit ''const'', RPlus RSp])], rseq [RNSp, RLit ''<'', RStar RSp,
     ROpt (rseq [RLit ''const'', RPlus RSp])]])), RWordB, RGrp 2 (ralt [RLit ''int'',
     RLit ''float'', RLit ''double'', RLit ''bool'', RLit ''char'', RLit ''int32'',
     RLit ''uint32'', RLit ''int64'', RLit ''uint64'']), RGrp 3 (rseq [RLit ''('',
     RNotIn [CI (CHR '')'')], RStar RAny])]"

definition ARRAY_AFTER_PAT :: rx where
  "ARRAY_AFTER_PAT = rseq [RLit ''('', RPlus (RNotIn [CI (CHR ''(''), CI (CHR '')'')]),
     RLit '')'', RStar RSp, RLit ''['']"

definition FUNCPTR_PAT :: rx where
  "FUNCPTR_PAT = rseq [RLit ''('', ROpt (rseq [RPlus (RNotIn [CI (CHR ''(''), CI (CHR '')''),
     CI (CHR '' '')]), RLit ''::'', RStar RSp, RLit ''*'', RStar RSp]),
     RPlus (RNotIn [CI (CHR ''(''), CI (CHR '')''), CI (CHR '' '')]), RLit '')'', RStar RSp,
     RLit ''('']"

definition USING_TYPE_PAT :: "string \<Rightarrow> rx" where
  "USING_TYPE_PAT name = rseq [RStar RSp, RLit ''using'', RPlus RSp, RPlus RNSp, RStar RSp,
     RLit ''='', RStar RSp, RLit name]"

definition PLACEMENT_NEW_PAT :: "string \<Rightarrow> rx" where
  "PLACEMENT_NEW_PAT name = rseq [RLit ''new('', RPlus RNSp, RLit '')'', RStar RSp, RLit name]"

definition STATIC_CAST_PAT :: rx where
  "STATIC_CAST_PAT = rseq [RLit ''('', RGrp 1 (ralt [RLit ''int'', RLit ''float'',
     RLit ''double'', RLit ''bool'', RLit ''char'', rseq [ROpt (RLit ''u''), RLit ''int'',
     RGrp 2 (ralt [RLit ''16'', RLit ''32'', RLit ''64''])]]), RLit '')'']"

definition CONST_CAST_PAT :: rx where
  "CONST_CAST_PAT = rseq [RLit ''('', RGrp 1 (rseq [RLit ''char'', ROpt RSp, RPlus (RLit ''*''),
     ROpt RSp]), RLit '')'', RStar RSp, RLit [dq]]"

definition REINTERPRET_CAST_PAT :: rx where
  "REINTERPRET_CAST_PAT = rseq [RLit ''('', RGrp 1 (rseq [RPlus RWd, ROpt RSp,
     RPlus (RLit ''*''), ROpt RSp]), RLit '')'']"

definition ADDRESS_CAST_PAT :: rx where
  "ADDRESS_CAST_PAT = ralt [rseq [RNotIn [CWord], RLit ''&('',
     RGrp 1 (rseq [RNotIn [CI (CHR '')''), CI (CHR ''*'')], RStar (RNotIn [CI (CHR '')'')])]),
     RLit '')'', RIn [CWord, CI (CHR ''('')]], rseq [RNotIn [CWord], RLit ''&'',
     RGrp 2 (ralt [RLit ''static'', RLit ''dynamic'', RLit ''down'', RLit ''reinterpret'']),
     RLit ''_cast'', RWordB]]"

definition NAMED_CAST_PAT :: rx where
  "NAMED_CAST_PAT = rseq [RBol, RGrp 1 (rseq [RStar RAny, RLit ''&'', ralt [RLit ''static'',
     RLit ''dynamic'', RLit ''down'', RLit ''reinterpret''], RLit ''_cast'', RWordB]),
     RLit ''<'']"

definition DEREFERENCE_PAT :: rx where
  "DEREFERENCE_PAT = rseq [RStar RSp, ralt [RLit ''->'', RLit ''['']]"

text \<open>Whether the address is that of something the cast pointer refers to.\<close>

definition dereferenced_cast :: "cleansed_lines \<Rightarrow> nat \<Rightarrow> string \<Rightarrow> bool option" where
  "dereferenced_cast clean_lines linenum line =
     (let es = elided clean_lines
      in case Match NAMED_CAST_PAT line of
           None \<Rightarrow> Some False
         | Some m \<Rightarrow>
             (case CloseExpression clean_lines linenum (length (grp m 1)) of
                None \<Rightarrow> None
              | Some (_, y1, x1) \<Rightarrow>
                  (if x1 < 0 then Some False
                   else (case py_index (es ! y1) x1 of
                           None \<Rightarrow> None
                         | Some c \<Rightarrow>
                             (if c \<noteq> CHR ''('' then Some False
                              else (case CloseExpression clean_lines y1 (nat x1) of
                                      None \<Rightarrow> None
                                    | Some (_, y2, x2) \<Rightarrow>
                                        Some (x2 \<ge> 0 \<and> matches DEREFERENCE_PAT
                                          (slice_from (es ! y2) x2 @
                                           (if y2 < NumLines clean_lines - 1 then es ! (y2 + 1) else [])))))))))"

definition address_reports :: "cleansed_lines \<Rightarrow> nat \<Rightarrow> action list option" where
  "address_reports clean_lines linenum =
     (let line = elided clean_lines ! linenum
      in if searches ADDRESS_CAST_PAT line then
           map_option (\<lambda>parenthesis_error.
               if parenthesis_error then [Report (int linenum) ''readability/casting'' 4
                 (''Are you taking an address of something dereferenced from a cast?  '' @
                  ''Wrapping the dereferenced expression in parentheses will make the binding more obvious'')]
               else [Report (int linenum) ''runtime/casting'' 4
                 (''Are you taking an address of a cast?  This is dangerous: could be a temp var.  '' @
                  ''Take the address before doing the cast, rather than after'')])
             (dereferenced_cast clean_lines linenum line)
         else Some [])"

text \<open>The deprecated conversions; \<open>None\<close> when the whole check ends because of an array.\<close>

definition conversion_reports :: "nat \<Rightarrow> string \<Rightarrow> action list option" where
  "conversion_reports linenum line =
     (case Search CONVERSION_PAT line of
        None \<Rightarrow> Some []
      | Some m \<Rightarrow>
          (let matched_type = grp m 2; matched_funcptr = grp m 3
           in if matches ARRAY_AFTER_PAT matched_funcptr then None
              else Some (if group m 1 = None \<and>
                  \<not> (matches FUNCPTR_PAT matched_funcptr \<or> startswith matched_funcptr ''(*)'') \<and>
                  \<not> matches (USING_TYPE_PAT matched_type) line \<and> \<not> searches (PLACEMENT_NEW_PAT matched_type) line
                then [Report (int linenum) ''readability/casting'' 4
                  (''Using deprecated casting style.  Use static_cast<'' @ matched_type @ ''>(...) instead'')]
                else [])))"

definition cast_reports :: "cleansed_lines \<Rightarrow> nat \<Rightarrow> bool \<Rightarrow> action list" where
  "cast_reports clean_lines linenum expecting_function =
     (let const_reports = CheckCStyleCast clean_lines linenum ''const_cast'' CONST_CAST_PAT
      in (if \<not> expecting_function then CheckCStyleCast clean_lines linenum ''static_cast'' STATIC_CAST_PAT else []) @
         const_reports @
         (if const_reports \<noteq> [] then []
          else CheckCStyleCast clean_lines linenum ''reinterpret_cast'' REINTERPRET_CAST_PAT))"

definition CheckCasts :: "cleansed_lines \<Rightarrow> nat \<Rightarrow> action list option" where
  "CheckCasts clean_lines linenum =
     (let expecting_function = ExpectingFunctionArgs clean_lines linenum
      in case (if expecting_function then Some [] else conversion_reports linenum (elided clean_lines ! linenum)) of
           None \<Rightarrow> Some []
         | Some as \<Rightarrow>
             map_option (\<lambda>as'. as @ cast_reports clean_lines linenum expecting_function @ as')
               (address_reports clean_lines linenum))"

subsection \<open>When the check raises\<close>

lemma NAMED_CAST_group:
  assumes "Match NAMED_CAST_PAT line = Some m"
  shows "length (grp m 1) < length line"
  using assms by (rule Match_mem) (auto simp: NAMED_CAST_PAT_def reach_simps)

text \<open>C38: The look behind a named cast whose address is taken raises exactly when the type of the cast
  ends with its line: the position after it is then read beyond the end of that line.\<close>

theorem cast_check_raises:
  assumes "n < length (elided cl)"
  shows "dereferenced_cast cl n (elided cl ! n) = None \<longleftrightarrow>
    (\<exists>m y. Match NAMED_CAST_PAT (elided cl ! n) = Some m \<and>
       CloseExpression cl n (length (grp m 1)) = Some (elided cl ! y, y, int (length (elided cl ! y))) \<and>
       y < length (elided cl))"
proof (cases "Match NAMED_CAST_PAT (elided cl ! n)")
  case None
  then show ?thesis by (simp add: dereferenced_cast_def)
next
  case (Some m)
  let ?i = "length (grp m 1)"
  obtain l y x where c: "CloseExpression cl n ?i = Some (l, y, x)"
    and b: "x = -1 \<or> y < length (elided cl) \<and> l = elided cl ! y \<and> 0 < x \<and> x \<le> int (length l)"
    using CloseExpression_bound [OF assms NAMED_CAST_group [OF Some]] by blast
  show ?thesis
  proof (cases "x = -1 \<or> x = int (length l)")
    case True
    then show ?thesis using Some c b by (auto simp: dereferenced_cast_def Let_def py_index_def)
  next
    case False
    then have x: "y < length (elided cl)" "nat x < length (elided cl ! y)" "x = int (nat x)" "l = elided cl ! y"
      using b by auto
    obtain l' y' x' where "CloseExpression cl y (nat x) = Some (l', y', x')"
      using CloseExpression_bound [OF x(1,2)] by blast
    then show ?thesis
      using Some c x False by (auto simp: dereferenced_cast_def Let_def py_index_def)
  qed
qed

theorem cast_check_raises_witness:
  "\<exists>cl. dereferenced_cast cl 0 (elided cl ! 0) = None"
proof -
  let ?l = "''p = &static_cast<int>''"
  let ?cl = "\<lparr>elided = [?l], lines = [?l], raw_lines = [?l], lines_without_raw_strings = [?l]\<rparr>"
  have "0 < length (elided ?cl) \<and> (case Match NAMED_CAST_PAT (elided ?cl ! 0) of None \<Rightarrow> False
      | Some m \<Rightarrow> CloseExpression ?cl 0 (length (grp m 1)) = Some (elided ?cl ! 0, 0, int (length (elided ?cl ! 0))))"
    by code_simp
  then have "dereferenced_cast ?cl 0 (elided ?cl ! 0) = None"
    by (subst cast_check_raises) (auto split: option.splits)
  then show ?thesis by blast
qed

end
