(* ===== verification/Include_Checks.thy ===== *)
theory Include_Checks
  imports Header_Checks "HOL-Library.Monad_Syntax"
begin

text \<open>
  The checks of include lines (tools/scripts/cpplint.py, lines 4504 to 4662): the kind of an
  included header, and \<open>CheckIncludeLine\<close>, which records the header in the include state.

  \<open>None\<close> stands for a call that does not return: an index error, or the search for a repository
  that never ends.
\<close>

subsection \<open>Kinds of headers\<close>

definition COMMON_SUFFIXES :: "string list" where
  "COMMON_SUFFIXES = [''test.cc'', ''regtest.cc'', ''unittest.cc'', ''inl.h'', ''impl.h'', ''internal.h'']"

fun drop_suffix :: "string \<Rightarrow> string list \<Rightarrow> string option" where
  "drop_suffix filename [] = None"
| "drop_suffix filename (sfx # ss) =
     (if endswith filename sfx \<and> length filename > length sfx \<and>
         filename ! (length filename - length sfx - 1) \<in> set ''-_''
      then Some (take (length filename - length sfx - 1) filename)
      else drop_suffix filename ss)"

definition DropCommonSuffixes :: "string \<Rightarrow> string" where
  "DropCommonSuffixes filename =
     (case drop_suffix filename COMMON_SUFFIXES of Some f \<Rightarrow> f | None \<Rightarrow> fst (splitext filename))"

definition same_first_component :: "string \<Rightarrow> string \<Rightarrow> bool" where
  "same_first_component a b =
     (case (Match RE_FIRST_COMPONENT a, Match RE_FIRST_COMPONENT b) of
        (Some m, Some m') \<Rightarrow> grp m 0 = grp m' 0
      | _ \<Rightarrow> False)"

text \<open>The repository name of the file is an argument.\<close>

definition classify :: "string \<Rightarrow> string \<Rightarrow> bool \<Rightarrow> header_type" where
  "classify reponame include is_system =
     (if is_system then (if include \<in> set CPP_HEADERS then CPP_SYS_HEADER else C_SYS_HEADER)
      else (let (target_dir, target_base) = path_split (DropCommonSuffixes reponame);
                (include_dir, include_base) = path_split (DropCommonSuffixes include)
            in if target_base = include_base \<and>
                  (include_dir = target_dir \<or> include_dir = normpath (target_dir @ ''/../public''))
               then LIKELY_MY_HEADER
               else if same_first_component target_base include_base then POSSIBLE_MY_HEADER
               else OTHER_HEADER))"

definition ClassifyInclude ::
    "(string \<Rightarrow> bool) \<Rightarrow> string \<Rightarrow> string \<Rightarrow> string \<Rightarrow> bool \<Rightarrow> header_type option" where
  "ClassifyInclude exists cwd filename include is_system =
     (if is_system then Some (classify [] include is_system)
      else map_option (\<lambda>reponame. classify reponame include is_system)
        (RepositoryName exists cwd filename))"

subsection \<open>Include lines\<close>

definition BARE_HEADER_PAT :: rx where
  "BARE_HEADER_PAT = rseq [RLit ''#include'', RStar RSp, RLit [dq],
     RGrp 1 (rseq [RPlus (RNotIn [CI (CHR ''/'')]), RLit ''.h'']), RLit [dq]]"

definition directory_report :: "nat \<Rightarrow> string \<Rightarrow> action list" where
  "directory_report linenum line =
     (case Match BARE_HEADER_PAT line of
        None \<Rightarrow> []
      | Some m \<Rightarrow>
          (if \<not> matches THIRD_PARTY_HEADERS_PATTERN (grp m 1) then
             [Report (int linenum) ''build/include'' 4 ''Include the directory when naming .h files'']
           else []))"

text \<open>The order and alphabet checks of a header that is new to the file.\<close>

definition order_checks ::
    "(string \<Rightarrow> bool) \<Rightarrow> string \<Rightarrow> string \<Rightarrow> cleansed_lines \<Rightarrow> nat \<Rightarrow> string \<Rightarrow> bool \<Rightarrow>
     include_state \<Rightarrow> (action list \<times> include_state) option" where
  "order_checks exists cwd filename clean_lines linenum include is_system s = do {
     header_type \<leftarrow> ClassifyInclude exists cwd filename include is_system;
     let (error_message, s1) = CheckNextIncludeOrder header_type s;
     as \<leftarrow> (if error_message \<noteq> [] then
              map_option (\<lambda>base. [Report (int linenum) ''build/include_order'' 4
                (error_message @ ''. Should be: '' @ base @ ''.h, c system, c++ system, other.'')])
                (BaseName exists cwd filename)
            else Some []);
     let canonical_include = CanonicalizeAlphabeticalOrder include;
     in_order \<leftarrow> IsInAlphabeticalOrder (elided clean_lines) (int linenum) canonical_include s1;
     Some (as @ (if \<not> in_order then [Report (int linenum) ''build/include_alpha'' 4
             (''Include '' @ [dq] @ include @ [dq] @ '' not in alphabetical order'')] else []),
           SetLastHeader canonical_include s1)
   }"

definition record_include ::
    "(string \<Rightarrow> bool) \<Rightarrow> string \<Rightarrow> string \<Rightarrow> cleansed_lines \<Rightarrow> nat \<Rightarrow> string \<Rightarrow> bool \<Rightarrow>
     include_state \<Rightarrow> (action list \<times> include_state) option" where
  "record_include exists cwd filename clean_lines linenum include is_system s = do {
     s1 \<leftarrow> AppendInclude include (int linenum) s;
     order_checks exists cwd filename clean_lines linenum include is_system s1
   }"

definition foreign_source :: "(string \<Rightarrow> bool) \<Rightarrow> string \<Rightarrow> string \<Rightarrow> string \<Rightarrow> bool option" where
  "foreign_source exists cwd filename include =
     (if endswith include ''.cc'' then
        map_option (\<lambda>reponame. dirname reponame \<noteq> dirname include) (RepositoryName exists cwd filename)
      else Some False)"

definition CheckIncludeLine ::
    "(string \<Rightarrow> bool) \<Rightarrow> string \<Rightarrow> string \<Rightarrow> cleansed_lines \<Rightarrow> nat \<Rightarrow> include_state \<Rightarrow>
     (action list \<times> include_state) option" where
  "CheckIncludeLine exists cwd filename clean_lines linenum s =
     (let line = lines clean_lines ! linenum; as = directory_report linenum line
      in case Search RE_PATTERN_INCLUDE line of
           None \<Rightarrow> Some (as, s)
         | Some m \<Rightarrow>
             (let include = grp m 2; is_system = (grp m 1 = ''<''); duplicate_line = FindHeader include s
              in if duplicate_line \<ge> 0 then
                   Some (as @ [Report (int linenum) ''build/include'' 4
                     ([dq] @ include @ [dq] @ '' already included at '' @ filename @ '':'' @
                      py_str duplicate_line)], s)
                 else do {
                   foreign \<leftarrow> foreign_source exists cwd filename include;
                   if foreign then
                     Some (as @ [Report (int linenum) ''build/include'' 4
                       ''Do not include .cc files from other packages''], s)
                   else if \<not> matches THIRD_PARTY_HEADERS_PATTERN include then
                     map_option (\<lambda>(as', s'). (as @ as', s'))
                       (record_include exists cwd filename clean_lines linenum include is_system s)
                   else Some (as, s)
                 }))"

subsection \<open>The recorded headers\<close>

text \<open>The include lines and the conditional directives of a file, in any order.\<close>

inductive inc_run ::
    "(string \<Rightarrow> bool) \<Rightarrow> string \<Rightarrow> string \<Rightarrow> cleansed_lines \<Rightarrow> include_state \<Rightarrow> bool"
  for exists cwd filename clean_lines where
  run_start: "inc_run exists cwd filename clean_lines init_include_state"
| run_include: "inc_run exists cwd filename clean_lines s \<Longrightarrow>
     CheckIncludeLine exists cwd filename clean_lines linenum s = Some (as, s') \<Longrightarrow>
     inc_run exists cwd filename clean_lines s'"
| run_directive: "inc_run exists cwd filename clean_lines s \<Longrightarrow> ResetSection d s = Some s' \<Longrightarrow>
     inc_run exists cwd filename clean_lines s'"

definition recorded :: "include_state \<Rightarrow> (string \<times> int) list" where
  "recorded s = concat (include_list s)"

definition headers_ok :: "include_state \<Rightarrow> bool" where
  "headers_ok s \<longleftrightarrow> include_list s \<noteq> [] \<and> distinct (map fst (recorded s)) \<and> (\<forall>(h, n) \<in> set (recorded s). 0 \<le> n)"

lemma FindHeader_map_of: "FindHeader h s = (case map_of (recorded s) h of None \<Rightarrow> -1 | Some n \<Rightarrow> n)"
proof -
  have "map_option snd (find (\<lambda>f. fst f = h) fs) = map_of fs h" for fs :: "(string \<times> int) list"
    by (induction fs) auto
  from this [of "recorded s"] show ?thesis
    by (cases "find (\<lambda>f. fst f = h) (recorded s)") (simp_all add: FindHeader_def recorded_def, metis option.simps(5))
qed

lemma FindHeader_new:
  assumes "headers_ok s" "FindHeader h s < 0"
  shows "h \<notin> fst ` set (recorded s)"
  using assms by (fastforce simp: FindHeader_map_of headers_ok_def map_of_eq_None_iff dest: map_of_SomeD split: option.splits)

lemma FindHeader_recorded:
  assumes "headers_ok s" "(h, n) \<in> set (recorded s)"
  shows "FindHeader h s = n"
  using assms by (simp add: FindHeader_map_of headers_ok_def)

lemma order_checks_list:
  assumes "order_checks exists cwd f cl n h y s = Some (as, s')"
  shows "include_list s' = include_list s"
proof -
  have "include_list (SetLastHeader c (snd (CheckNextIncludeOrder t s))) = include_list s" for c t
    by (simp add: SetLastHeader_def)
  then show ?thesis using assms
    by (auto simp: order_checks_def bind_eq_Some_conv split_beta Let_def split: if_splits)
qed

lemma record_include_headers:
  assumes "record_include exists cwd f cl n h y s = Some (as, s')" "headers_ok s" "FindHeader h s < 0"
  shows "headers_ok s' \<and> (h, int n) \<in> set (recorded s')"
proof -
  from assms(1) obtain s1 where s1: "AppendInclude h (int n) s = Some s1"
    "order_checks exists cwd f cl n h y s1 = Some (as, s')"
    by (auto simp: record_include_def bind_eq_Some_conv)
  have "include_list s' = butlast (include_list s) @ [last (include_list s) @ [(h, int n)]]"
    using order_checks_list [OF s1(2)] AppendInclude_list [OF s1(1)] by simp
  moreover have "recorded s = concat (butlast (include_list s)) @ last (include_list s)"
    using assms(2) unfolding headers_ok_def recorded_def
    by (metis append_butlast_last_id concat.simps concat_append append_Nil2)
  ultimately show ?thesis
    using assms(2) FindHeader_new [OF assms(2,3)] by (auto simp: headers_ok_def recorded_def)
qed

lemma CheckIncludeLine_headers:
  assumes "CheckIncludeLine exists cwd f cl n s = Some (as, s')" "headers_ok s"
  shows "headers_ok s'"
  using assms record_include_headers
  by (fastforce simp: CheckIncludeLine_def Let_def bind_eq_Some_conv split: option.splits if_splits)

lemma ResetSection_headers:
  assumes "ResetSection d s = Some s'" "headers_ok s"
  shows "headers_ok s'"
proof -
  have "recorded s = concat (butlast (include_list s)) @ last (include_list s)"
    using assms(2) unfolding headers_ok_def recorded_def
    by (metis append_butlast_last_id concat.simps concat_append append_Nil2)
  then have "include_list s' \<noteq> []" "recorded s' = recorded s \<or> recorded s = recorded s' @ last (include_list s)"
    using ResetSection_list [OF assms(1)] assms(2) by (auto simp: headers_ok_def recorded_def)
  then show ?thesis using assms(2) by (auto simp: headers_ok_def)
qed

lemma inc_run_headers: "inc_run exists cwd f cl s \<Longrightarrow> headers_ok s"
proof (induction rule: inc_run.induct)
  case run_start
  show ?case by (simp add: headers_ok_def recorded_def init_include_state_def)
qed (auto intro: CheckIncludeLine_headers ResetSection_headers)

subsection \<open>Properties\<close>


definition example_includes :: cleansed_lines where
  "example_includes = (let ls = [''#include <a.h>'', ''#include <a.h>'']
     in \<lparr>elided = ls, lines = ls, raw_lines = ls, lines_without_raw_strings = ls\<rparr>)"


end
