(* ===== verification/Spacing_Checks.thy ===== *)
theory Spacing_Checks
  imports Nesting
begin

text \<open>
  The checks of blank lines and of spaces (tools/scripts/cpplint.py, lines 3180 to 3720).  An index
  out of range is \<open>None\<close>.
\<close>

subsection \<open>Blank lines and comments\<close>

definition SIX_BLANKS_PAT :: rx where
  "SIX_BLANKS_PAT = rseq [RTimes 6 (RLit '' ''), RWd]"

definition HEADER_END_PAT :: rx where
  "HEADER_END_PAT = rseq [RTimes 4 (RLit '' ''), RWd, RStar (RNotIn [CI (CHR ''('')]),
     RLit '')'', RStar RSp, ROpt (RGrp 1 (rseq [RLit ''const'', RStar RSp])),
     RGrp 2 (ralt [rseq [RLit ''{'', RStar RSp, REol], RLit '':''])]"

definition FOUR_COLON_PAT :: rx where
  "FOUR_COLON_PAT = rseq [RTimes 4 (RLit '' ''), RLit '':'']"

definition CLOSE_LINE_PAT :: rx where
  "CLOSE_LINE_PAT = rseq [RStar RSp, RLit ''}'']"

definition SECTION_PAT :: rx where
  "SECTION_PAT = rseq [RStar RSp, RGrp 1 (ralt [RLit ''public'', RLit ''protected'',
     RLit ''private'']), RLit '':'']"

text \<open>The line above the lines that are indented by six blanks, if there is one.\<close>

fun initializer_start :: "string list \<Rightarrow> nat \<Rightarrow> string option" where
  "initializer_start ls 0 = None"
| "initializer_start ls (Suc i) =
     (if matches SIX_BLANKS_PAT (ls ! i) then initializer_start ls i else Some (ls ! i))"

definition block_start_exception :: "string list \<Rightarrow> nat \<Rightarrow> string \<Rightarrow> bool" where
  "block_start_exception ls linenum prev_line =
     (if matches SIX_BLANKS_PAT prev_line then
        (case initializer_start ls (linenum - 1) of
           None \<Rightarrow> False
         | Some line \<Rightarrow> take 5 line = ''    :'')
      else matches HEADER_END_PAT prev_line \<or> matches FOUR_COLON_PAT prev_line)"

definition blank_line_reports :: "cleansed_lines \<Rightarrow> nat \<Rightarrow> action list option" where
  "blank_line_reports clean_lines linenum =
     (case py_index (elided clean_lines) (int linenum - 1) of
        None \<Rightarrow> None
      | Some prev_line \<Rightarrow>
          (let n = int linenum; raw = lines_without_raw_strings clean_lines;
               prevbrace = py_rfind prev_line (CHR ''{'')
           in Some (
             (if prevbrace \<noteq> -1 \<and> py_find (slice_from prev_line prevbrace) ''}'' = -1 \<and>
                 \<not> block_start_exception (elided clean_lines) linenum prev_line
              then [Report n ''whitespace/blank_line'' 2
                ''Redundant blank line at the start of a code block should be deleted.''] else []) @
             (if linenum + 1 < NumLines clean_lines then
                (let next_line = raw ! (linenum + 1)
                 in if next_line \<noteq> [] \<and> matches CLOSE_LINE_PAT next_line \<and> py_find next_line ''} else '' = -1
                    then [Report n ''whitespace/blank_line'' 3
                      ''Redundant blank line at the end of a code block should be deleted.''] else [])
              else []) @
             (case Match SECTION_PAT prev_line of
                None \<Rightarrow> []
              | Some m \<Rightarrow> [Report n ''whitespace/blank_line'' 3
                  ((''Do not leave a blank line after '' @ [dq]) @ grp m 1 @ ('':'' @ [dq]))]))))"

definition SPACE_BRACKET_PAT :: rx where
  "SPACE_BRACKET_PAT = rseq [RWd, RPlus RSp, RLit ''['']"

definition DELETE_BRACKET_PAT :: rx where
  "DELETE_BRACKET_PAT = rseq [ralt [RLit ''delete'', RLit ''return''], RPlus RSp, RLit ''['']"

definition FOR_COLON_LEFT_PAT :: rx where
  "FOR_COLON_LEFT_PAT = rseq [RLit ''for'', RStar (RLit '' ''), RLit ''('', RStar RAny,
     RNotIn [CI (CHR '':'')], RLit '':'', RNotIn [CI (CHR '':''), CI (CHR '' '')]]"

definition FOR_COLON_RIGHT_PAT :: rx where
  "FOR_COLON_RIGHT_PAT = rseq [RLit ''for'', RStar (RLit '' ''), RLit ''('', RStar RAny,
     RNotIn [CI (CHR '':''), CI (CHR '' '')], RLit '':'', RNotIn [CI (CHR '':'')]]"

definition CheckSpacing :: "cleansed_lines \<Rightarrow> nat \<Rightarrow> nesting_state \<Rightarrow> action list option" where
  "CheckSpacing clean_lines linenum s =
     (let n = int linenum; raw = lines_without_raw_strings clean_lines; line = raw ! linenum;
          blank = (if IsBlankLine line \<and> \<not> InNamespaceBody s \<and> \<not> InExternC s
                   then blank_line_reports clean_lines linenum else Some []);
          next_line_start = (if linenum + 1 < NumLines clean_lines then
              int (length (raw ! (linenum + 1))) - int (length (ulstrip (raw ! (linenum + 1)))) else 0);
          code = elided clean_lines ! linenum
      in map_option (\<lambda>as. as @ CheckComment line n next_line_start @
           (if searches SPACE_BRACKET_PAT code \<and> \<not> searches DELETE_BRACKET_PAT code then
              [Report n ''whitespace/braces'' 5 ''Extra space before [''] else []) @
           (if searches FOR_COLON_LEFT_PAT code \<or> searches FOR_COLON_RIGHT_PAT code then
              [Report n ''whitespace/forcolon'' 2 ''Missing space around colon in range-based for loop'']
            else [])) blank)"

subsection \<open>Operators\<close>

definition OPERATOR_NAME_PAT :: rx where
  "OPERATOR_NAME_PAT = rseq [RBol, RGrp 1 (rseq [RStar RAny, RWordB, RLit ''operator'', RWordB]),
     RGrp 2 (RPlus RNSp), RGrp 3 (rseq [RStar RSp, RLit ''('', RStar RAny]), REol]"

definition nonword_chars :: "string \<Rightarrow> nat" where
  "nonword_chars s = length (filter (\<lambda>c. \<not> is_word c) s)"

lemma OPERATOR_NAME_groups:
  assumes "Match OPERATOR_NAME_PAT line = Some m"
  shows "\<exists>w c. grp m 2 = c # w \<and> \<not> is_word c \<and>
    (line = grp m 1 @ grp m 2 @ grp m 3 \<or> line = grp m 1 @ grp m 2 @ grp m 3 @ [nl])"
proof -
  from assms obtain st where st: "reach OPERATOR_NAME_PAT ([], line, []) st" "m = mk_mobj ([], line, []) st"
    by (rule Match_mem)
  then show ?thesis
    unfolding OPERATOR_NAME_PAT_def by (auto simp: reach_simps head_word_def py_simps ord_def)
qed

text \<open>The names of operator functions are masked, the last one first.\<close>

function mask_operators :: "string \<Rightarrow> string" where
  "mask_operators line =
     (case Match OPERATOR_NAME_PAT line of
        None \<Rightarrow> line
      | Some m \<Rightarrow> mask_operators (grp m 1 @ replicate (length (grp m 2)) (CHR ''_'') @ grp m 3))"
  by pat_completeness auto
termination
proof (relation "measure nonword_chars")
  fix line m
  assume "Match OPERATOR_NAME_PAT line = Some m"
  from OPERATOR_NAME_groups [OF this]
  show "(grp m 1 @ replicate (length (grp m 2)) (CHR ''_'') @ grp m 3, line) \<in> measure nonword_chars"
    by (auto simp: nonword_chars_def filter_replicate py_simps ord_def)
qed simp

declare mask_operators.simps [simp del]

definition LEFT_ASSIGN_PAT :: rx where
  "LEFT_ASSIGN_PAT = rseq [RIn [CWord, CI (CHR ''.'')], RLit ''='']"

definition RIGHT_ASSIGN_PAT :: rx where
  "RIGHT_ASSIGN_PAT = rseq [RLit ''='', RIn [CWord, CI (CHR ''.'')]]"

definition CONTROL_BLANK_PAT :: rx where
  "CONTROL_BLANK_PAT = rseq [RWordB, RGrp 1 (ralt [RLit ''if'', RLit ''while'', RLit ''for'']),
     RLit '' '']"

definition ASSIGN_OP_PAT :: rx where
  "ASSIGN_OP_PAT = RGrp 1 (ralt [RLit ''>='', RLit ''<='', RLit ''=='', RLit ''!='', RLit ''&='',
     RLit ''^='', RLit ''|='', RLit ''+='', RLit ''*='', RLit ''/='', RLit ''%=''])"

definition OPERATOR_ASSIGN_PAT :: rx where
  "OPERATOR_ASSIGN_PAT = RLit ''operator=''"

definition COMPARE_PAT :: rx where
  "COMPARE_PAT = rseq [RNotIn [CI (CHR ''<''), CI (CHR ''>''), CI (CHR ''=''), CI (CHR ''!''),
     CSpace], RGrp 1 (ralt [RLit ''=='', RLit ''!='', RLit ''<='', RLit ''>='', RLit ''||'']),
     RNotIn [CI (CHR ''<''), CI (CHR ''>''), CI (CHR ''=''), CI (CHR ''!''), CSpace,
     CI (CHR '',''), CI (CHR '';''), CI (CHR '')'')]]"

definition HASH_INCLUDE_PAT :: rx where
  "HASH_INCLUDE_PAT = rseq [RLit ''#'', RStar RAny, RLit ''include'']"

definition LESS_PAT :: rx where
  "LESS_PAT = rseq [RBol, RGrp 1 (rseq [RStar RAny, RNotIn [CSpace, CI (CHR ''<'')]]),
     RLit ''<'', RNotIn [CSpace, CI (CHR ''=''), CI (CHR ''<''), CI (CHR '','')]]"

definition GREATER_PAT :: rx where
  "GREATER_PAT = rseq [RBol, RGrp 1 (rseq [RStar RAny, RNotIn [CI (CHR ''-''), CSpace,
     CI (CHR ''>'')]]), RLit ''>'', RNotIn [CSpace, CI (CHR ''=''), CI (CHR ''>''),
     CI (CHR '','')]]"

definition SHIFT_LEFT_PAT :: rx where
  "SHIFT_LEFT_PAT = rseq [RGrp 1 (ralt [RLit ''operator'', RNotIn [CSpace, CI (CHR ''(''),
     CI (CHR ''<'')]]), ROpt (ralt [RLit ''L'', RLit ''UL'', RLit ''LL'', RLit ''ULL'',
     RLit ''l'', RLit ''ul'', RLit ''ll'', RLit ''ull'']), RLit ''<<'', RGrp 2 (RNotIn [CSpace,
     CI (CHR '',''), CI (CHR ''=''), CI (CHR ''<'')])]"

definition SHIFT_RIGHT_PAT :: rx where
  "SHIFT_RIGHT_PAT = rseq [RLit ''>>'', RIn [CR (CHR ''a'') (CHR ''z''),
     CR (CHR ''A'') (CHR ''Z''), CI (CHR ''_'')]]"

definition UNARY_PAT :: rx where
  "UNARY_PAT = RGrp 1 (ralt [rseq [RLit ''!'', RSp], rseq [RLit ''~'', RSp], rseq [RSp,
     RLit ''--'', RIn [CSpace, CI (CHR '';'')]], rseq [RSp, RLit ''++'', RIn [CSpace,
     CI (CHR '';'')]]])"

definition assign_reports :: "int \<Rightarrow> string \<Rightarrow> action list" where
  "assign_reports n line =
     (if (searches LEFT_ASSIGN_PAT line \<or> searches RIGHT_ASSIGN_PAT line) \<and>
         \<not> searches CONTROL_BLANK_PAT line \<and> \<not> searches ASSIGN_OP_PAT line \<and> \<not> searches OPERATOR_ASSIGN_PAT line
      then [Report n ''whitespace/operators'' 4 ''Missing spaces around =''] else [])"

definition less_reports :: "cleansed_lines \<Rightarrow> nat \<Rightarrow> string \<Rightarrow> action list option" where
  "less_reports clean_lines linenum line =
     (case Match LESS_PAT line of
        None \<Rightarrow> Some []
      | Some m \<Rightarrow>
          map_option (\<lambda>(_, _, end_pos). if end_pos \<le> -1 then
              [Report (int linenum) ''whitespace/operators'' 3 ''Missing spaces around <''] else [])
            (CloseExpression clean_lines linenum (length (grp m 1))))"

definition greater_reports :: "cleansed_lines \<Rightarrow> nat \<Rightarrow> string \<Rightarrow> action list option" where
  "greater_reports clean_lines linenum line =
     (case Match GREATER_PAT line of
        None \<Rightarrow> Some []
      | Some m \<Rightarrow>
          map_option (\<lambda>(_, _, start_pos). if start_pos \<le> -1 then
              [Report (int linenum) ''whitespace/operators'' 3 ''Missing spaces around >''] else [])
            (ReverseCloseExpression clean_lines linenum (length (grp m 1))))"

definition compare_reports :: "cleansed_lines \<Rightarrow> nat \<Rightarrow> string \<Rightarrow> action list option" where
  "compare_reports clean_lines linenum line =
     (case Search COMPARE_PAT line of
        Some m \<Rightarrow> Some [Report (int linenum) ''whitespace/operators'' 3 (''Missing spaces around '' @ grp m 1)]
      | None \<Rightarrow>
          (if \<not> matches HASH_INCLUDE_PAT line then
             (case (less_reports clean_lines linenum line, greater_reports clean_lines linenum line) of
                (Some as, Some as') \<Rightarrow> Some (as @ as')
              | _ \<Rightarrow> None)
           else Some []))"

text \<open>The digits of \<open>unicode.isdigit\<close> within \<^typ>\<open>char\<close> include the superscripts.\<close>

definition py_isdigit :: "string \<Rightarrow> bool" where
  "py_isdigit s = (s \<noteq> [] \<and> list_all (\<lambda>c. is_digit c \<or> c \<in> set [CHR 0xB2, CHR 0xB3, CHR 0xB9]) s)"

definition shift_reports :: "int \<Rightarrow> string \<Rightarrow> action list" where
  "shift_reports n line =
     (case Search SHIFT_LEFT_PAT line of
        None \<Rightarrow> []
      | Some m \<Rightarrow>
          (if \<not> (py_isdigit (grp m 1) \<and> py_isdigit (grp m 2)) \<and> \<not> (grp m 1 = ''operator'' \<and> grp m 2 = '';'')
           then [Report n ''whitespace/operators'' 3 ''Missing spaces around <<''] else [])) @
     (if searches SHIFT_RIGHT_PAT line then
        [Report n ''whitespace/operators'' 3 ''Missing spaces around >>''] else []) @
     (case Search UNARY_PAT line of
        None \<Rightarrow> []
      | Some m \<Rightarrow> [Report n ''whitespace/operators'' 4 (''Extra space for operator '' @ grp m 1)])"

definition CheckOperatorSpacing :: "cleansed_lines \<Rightarrow> nat \<Rightarrow> action list option" where
  "CheckOperatorSpacing clean_lines linenum =
     (let n = int linenum; line = mask_operators (elided clean_lines ! linenum)
      in map_option (\<lambda>as. assign_reports n line @ as @ shift_reports n line)
           (compare_reports clean_lines linenum line))"

subsection \<open>Parentheses, commas and semicolons\<close>

definition CONTROL_PAREN_PAT :: rx where
  "CONTROL_PAREN_PAT = rseq [RLit '' '', RGrp 1 (ralt [RLit ''if('', RLit ''for('',
     RLit ''while('', RLit ''switch(''])]"

definition CONTROL_SPACES_PAT :: rx where
  "CONTROL_SPACES_PAT = rseq [RWordB, RGrp 1 (ralt [RLit ''if'', RLit ''for'', RLit ''while'',
     RLit ''switch'']), RStar RSp, RLit ''('', RGrp 2 (RStar (RLit '' '')), RGrp 3 RAny,
     RStar RAny, RPlus (RNotIn [CI (CHR '' '')]), RGrp 4 (RStar (RLit '' '')), RLit '')'',
     RStar RSp, RLit ''{'', RStar RSp, REol]"

definition FOR_SEMICOLON_PAT :: rx where
  "FOR_SEMICOLON_PAT = rseq [RWordB, RLit ''for'', RStar RSp, RLit ''('', RStar RAny,
     RLit ''; )'']"

definition CheckParenthesisSpacing :: "cleansed_lines \<Rightarrow> nat \<Rightarrow> action list" where
  "CheckParenthesisSpacing clean_lines linenum =
     (let n = int linenum; line = elided clean_lines ! linenum
      in (case Search CONTROL_PAREN_PAT line of
            None \<Rightarrow> []
          | Some m \<Rightarrow> [Report n ''whitespace/parens'' 5 (''Missing space before ( in '' @ grp m 1)]) @
         (case Search CONTROL_SPACES_PAT line of
            None \<Rightarrow> []
          | Some m \<Rightarrow>
              (let left = length (grp m 2); right = length (grp m 4)
               in (if left \<noteq> right \<and>
                      \<not> (grp m 3 = '';'' \<and> left = 1 + right \<or> left = 0 \<and> searches FOR_SEMICOLON_PAT line)
                   then [Report n ''whitespace/parens'' 5 (''Mismatching spaces inside () in '' @ grp m 1)]
                   else []) @
                  (if left \<notin> {0, 1} then [Report n ''whitespace/parens'' 5
                     (''Should have zero or one spaces inside ( and ) in '' @ grp m 1)] else []))))"

definition COMMA_PAT :: rx where
  "COMMA_PAT = rseq [RLit '','', RNotIn [CI (CHR '',''), CSpace]]"

definition OPERATOR_COMMA_PAT :: rx where
  "OPERATOR_COMMA_PAT = rseq [RWordB, RLit ''operator'', RStar RSp, RLit '','', RStar RSp,
     RLit ''('']"

definition SEMICOLON_PAT :: rx where
  "SEMICOLON_PAT = rseq [RLit '';'', RNotIn [CSpace, CI (CHR ''}''), CI (CHR '';''), CI bs,
     CI (CHR '')''), CI (CHR ''/'')]]"

definition CheckCommaSpacing :: "cleansed_lines \<Rightarrow> nat \<Rightarrow> action list" where
  "CheckCommaSpacing clean_lines linenum =
     (let n = int linenum; line = elided clean_lines ! linenum
      in (if searches COMMA_PAT (ReplaceAll OPERATOR_COMMA_PAT ''F('' line) \<and>
             searches COMMA_PAT (lines_without_raw_strings clean_lines ! linenum)
          then [Report n ''whitespace/comma'' 3 ''Missing space after ,''] else []) @
         (if searches SEMICOLON_PAT line then [Report n ''whitespace/semicolon'' 3 ''Missing space after ;'']
          else []))"

subsection \<open>Braces\<close>

definition LAST_TOKEN_PAT :: rx where
  "LAST_TOKEN_PAT = rseq [RBol, RStar RAny, RGrp 1 (rseq [RWordB, RPlus RNSp]), REol]"

definition TYPENAME_PAT :: "string \<Rightarrow> rx" where
  "TYPENAME_PAT token = rseq [RWordB, ralt [RLit ''typename'', RLit ''class'', RLit ''struct''],
     RPlus RSp, RLit token, RWordB]"

text \<open>The walk up the stack of blocks, with the innermost first.\<close>

fun template_type :: "cleansed_lines \<Rightarrow> string \<Rightarrow> block list \<Rightarrow> bool" where
  "template_type clean_lines token [] = False"
| "template_type clean_lines token (b # bs') =
     (if is_namespace b then False
      else (let last_line = starting_linenum b;
                next_block_start = (case bs' of [] \<Rightarrow> 0 | b' # _ \<Rightarrow> starting_linenum b')
            in case find (\<lambda>i. py_find (elided clean_lines ! i) ''template'' \<ge> 0)
                      (rev [next_block_start..<last_line + 1]) of
                 None \<Rightarrow> template_type clean_lines token bs'
               | Some first_line \<Rightarrow>
                   list_ex (\<lambda>i. searches (TYPENAME_PAT token) (elided clean_lines ! i))
                     [first_line..<last_line + 1] \<or>
                   template_type clean_lines token bs'))"

definition IsType :: "cleansed_lines \<Rightarrow> nesting_state \<Rightarrow> string \<Rightarrow> bool" where
  "IsType clean_lines s expr =
     (let token = (case Match LAST_TOKEN_PAT expr of Some m \<Rightarrow> grp m 1 | None \<Rightarrow> expr)
      in matches TYPES_PAT token \<or> template_type clean_lines token (stack s))"

definition BRACE_NO_SPACE_PAT :: rx where
  "BRACE_NO_SPACE_PAT = rseq [RBol, RGrp 1 (rseq [RStar RAny, RNotIn [CI (CHR '' ''),
     CI (CHR ''(''), CI (CHR ''{''), CI (CHR ''>'')]]), RLit ''{'']"

definition BRACE_INIT_PAT :: rx where
  "BRACE_INIT_PAT = rseq [RBol, RStar (RIn [CSpace, CI (CHR ''}'')]), RIn [CI (CHR ''{''),
     CI (CHR ''.''), CI (CHR '';''), CI (CHR '',''), CI (CHR '')''), CI (CHR ''<''),
     CI (CHR ''>''), CI (CHR '']''), CI (CHR '':'')]]"

definition missing_brace_space ::
    "cleansed_lines \<Rightarrow> nat \<Rightarrow> nesting_state \<Rightarrow> string \<Rightarrow> action list option" where
  "missing_brace_space clean_lines linenum s line =
     (case Match BRACE_NO_SPACE_PAT line of
        None \<Rightarrow> Some []
      | Some m \<Rightarrow>
          (case CloseExpression clean_lines linenum (length (grp m 1)) of
             None \<Rightarrow> None
           | Some (endline, endlinenum, endpos) \<Rightarrow>
               (let trailing_text = (if endpos > -1 then slice_from endline endpos else []) @
                      concat (map ((!) (elided clean_lines))
                        [endlinenum + 1..<min (endlinenum + 3) (NumLines clean_lines - 1)])
                in Some (if \<not> matches BRACE_INIT_PAT trailing_text \<and> \<not> IsType clean_lines s (grp m 1) then
                     [Report (int linenum) ''whitespace/braces'' 5 ''Missing space before {''] else []))))"

definition BRACE_ELSE_PAT :: rx where
  "BRACE_ELSE_PAT = RLit ''}else''"

definition COLON_SEMICOLON_PAT :: rx where
  "COLON_SEMICOLON_PAT = rseq [RLit '':'', RStar RSp, RLit '';'', RStar RSp, REol]"

definition LONE_SEMICOLON_PAT :: rx where
  "LONE_SEMICOLON_PAT = rseq [RBol, RStar RSp, RLit '';'', RStar RSp, REol]"

definition SPACE_SEMICOLON_PAT :: rx where
  "SPACE_SEMICOLON_PAT = rseq [RPlus RSp, RLit '';'', RStar RSp, REol]"

definition FOR_WORD_PAT :: rx where
  "FOR_WORD_PAT = rseq [RWordB, RLit ''for'', RWordB]"

definition CheckBracesSpacing :: "cleansed_lines \<Rightarrow> nat \<Rightarrow> nesting_state \<Rightarrow> action list option" where
  "CheckBracesSpacing clean_lines linenum s =
     (let n = int linenum; line = elided clean_lines ! linenum
      in map_option (\<lambda>as. as @
           (if searches BRACE_ELSE_PAT line then [Report n ''whitespace/braces'' 5 ''Missing space before else'']
            else []) @
           (if searches COLON_SEMICOLON_PAT line then [Report n ''whitespace/semicolon'' 5
              ''Semicolon defining empty statement. Use {} instead.'']
            else if searches LONE_SEMICOLON_PAT line then [Report n ''whitespace/semicolon'' 5
              ''Line contains only semicolon. If this should be an empty statement, use {} instead.'']
            else if searches SPACE_SEMICOLON_PAT line \<and> \<not> searches FOR_WORD_PAT line then
              [Report n ''whitespace/semicolon'' 5
                ''Extra space before last semicolon. If this should be an empty statement, use {} instead.'']
            else [])) (missing_brace_space clean_lines linenum s line))"

definition DECLTYPE_PAT :: rx where
  "DECLTYPE_PAT = rseq [RWordB, RLit ''decltype'', RStar RSp, REol]"

definition IsDecltype :: "cleansed_lines \<Rightarrow> nat \<Rightarrow> nat \<Rightarrow> bool option" where
  "IsDecltype clean_lines linenum column =
     map_option (\<lambda>(text', _, start_col). start_col \<ge> 0 \<and> searches DECLTYPE_PAT (slice_to text' start_col))
       (ReverseCloseExpression clean_lines linenum column)"

subsection \<open>Sections of a class\<close>

definition CLASS_WORD_PAT :: rx where
  "CLASS_WORD_PAT = rseq [RWordB, RGrp 1 (ralt [RLit ''class'', RLit ''struct'']), RWordB]"

definition BACKSLASH_END_PAT :: rx where
  "BACKSLASH_END_PAT = rseq [RLit [bs], REol]"

definition BRACE_END_PAT :: rx where
  "BRACE_END_PAT = rseq [RLit ''{'', RStar RSp, REol]"

definition CheckSectionSpacing :: "cleansed_lines \<Rightarrow> block \<Rightarrow> class_info \<Rightarrow> nat \<Rightarrow> action list" where
  "CheckSectionSpacing clean_lines b ci linenum =
     (if int (last_line ci) - int (starting_linenum b) \<le> 24 \<or> linenum \<le> starting_linenum b then []
      else (case Match SECTION_PAT (lines clean_lines ! linenum) of
              None \<Rightarrow> []
            | Some m \<Rightarrow>
                (let prev_line = lines clean_lines ! (linenum - 1)
                 in if \<not> IsBlankLine prev_line \<and> \<not> searches CLASS_WORD_PAT prev_line \<and>
                       \<not> searches BACKSLASH_END_PAT prev_line
                    then (let end_class_head =
                                (case find (\<lambda>i. searches BRACE_END_PAT (lines clean_lines ! i))
                                        [starting_linenum b..<linenum] of
                                   Some i \<Rightarrow> i | None \<Rightarrow> starting_linenum b)
                          in if end_class_head < linenum - 1 then
                               [Report (int linenum) ''whitespace/blank_line'' 3
                                 ([dq] @ grp m 1 @ ('':'' @ [dq] @ '' should be preceded by a blank line''))]
                             else [])
                    else [])))"

end
