(* ===== verification/Brace_Checks.thy ===== *)
theory Brace_Checks
  imports Nesting
begin

text \<open>
  The checks of braces, of semicolons after them and of empty bodies (tools/scripts/cpplint.py,
  lines 3745 to 4008 and 4077 to 4178).  An index out of range is \<open>None\<close>.
\<close>

subsection \<open>Line width\<close>

text \<open>A \<^typ>\<open>char\<close> is neither a wide nor a combining character, and is its own normal form.\<close>

definition GetLineWidth :: "string \<Rightarrow> int" where
  "GetLineWidth line = int (length line)"

subsection \<open>Misplaced braces\<close>

definition LONE_BRACE_PAT :: rx where
  "LONE_BRACE_PAT = rseq [RStar RSp, RLit ''{'', RStar RSp, REol]"

definition OPEN_END_PAT :: rx where
  "OPEN_END_PAT = rseq [RIn [CI (CHR '',''), CI (CHR '';''), CI (CHR '':''), CI (CHR ''}''),
     CI (CHR ''{''), CI (CHR ''('')], RStar RSp, REol]"

definition ELSE_START_PAT :: rx where
  "ELSE_START_PAT = rseq [RStar RSp, RLit ''else'', RWordB, RStar RSp, ralt [rseq [RLit ''if'',
     RWordB], RLit ''{'', REol]]"

definition LONE_CLOSING_PAT :: rx where
  "LONE_CLOSING_PAT = rseq [RStar RSp, RLit ''}'', RStar RSp, REol]"

definition ELSE_IF_PAT :: rx where
  "ELSE_IF_PAT = rseq [RLit ''else if'', RStar RSp, RLit ''('']"

definition BRACE_ELSE_IF_PAT :: rx where
  "BRACE_ELSE_IF_PAT = rseq [RLit ''}'', RStar RSp, RLit ''else if'', RStar RSp, RLit ''('']"

definition LEFT_BRACE_ELSE_PAT :: rx where
  "LEFT_BRACE_ELSE_PAT = rseq [RLit ''}'', RStar RSp, RLit ''else'',
     RStar (RNotIn [CI (CHR ''{'')]), REol]"

definition RIGHT_BRACE_ELSE_PAT :: rx where
  "RIGHT_BRACE_ELSE_PAT = rseq [RStar (RNotIn [CI (CHR ''}'')]), RLit ''else'', RStar RSp,
     RLit ''{'']"

definition ELSE_CLAUSE_PAT :: rx where
  "ELSE_CLAUSE_PAT = rseq [RWordB, RLit ''else '', RNotIn [CSpace, CI (CHR ''{'')]]"

definition ELSE_IF_WORD_PAT :: rx where
  "ELSE_IF_WORD_PAT = rseq [RWordB, RLit ''else if'', RWordB]"

definition DO_CLAUSE_PAT :: rx where
  "DO_CLAUSE_PAT = rseq [RStar RSp, RLit ''do '', RNotIn [CSpace, CI (CHR ''{'')]]"

definition IF_ELSE_PAT :: rx where
  "IF_ELSE_PAT = rseq [RWordB, RGrp 1 (ralt [rseq [RLit ''if'', RStar RSp, RLit ''(''],
     rseq [RLit ''else'', RWordB]])]"

definition IF_PAREN_PAT :: rx where
  "IF_PAREN_PAT = rseq [RWordB, RLit ''if'', RStar RSp, RLit ''('']"

definition START_BRACE_PAT :: rx where
  "START_BRACE_PAT = rseq [RStar RSp, RLit ''{'']"

definition REST_BLANK_PAT :: rx where
  "REST_BLANK_PAT = rseq [RStar RSp, REol]"

definition SEMICOLON_END_PAT :: rx where
  "SEMICOLON_END_PAT = rseq [RLit '';'', RStar (RIn [CSpace, CI (CHR ''}'')]),
     RGrp 1 (ROpt (RLit [bs])), REol]"

definition LAMBDA_LINE_PAT :: rx where
  "LAMBDA_LINE_PAT = rseq [RBol, RStar (RNotIn [CI (CHR ''{''), CI (CHR ''}''), CI (CHR '';'')]),
     RLit ''['', RStar (RNotIn [CI (CHR ''[''), CI (CHR '']'')]), RLit '']'',
     RStar (RNotIn [CI (CHR ''{''), CI (CHR ''}'')]), RLit ''{'', RStar (RNotIn [CI (CHR ''{''),
     CI (CHR ''}'')]), RLit ''}'', RStar RSp, RStar (RLit '')''), RIn [CI (CHR '';''),
     CI (CHR '','')], RStar RSp, REol]"

definition ELSE_WORD_PAT :: rx where
  "ELSE_WORD_PAT = rseq [RStar RSp, RLit ''else'', RWordB]"

definition brace_start_reports :: "int \<Rightarrow> cleansed_lines \<Rightarrow> nat \<Rightarrow> string \<Rightarrow> action list" where
  "brace_start_reports line_length clean_lines linenum line =
     (let n = int linenum; prevline = fst (GetPreviousNonBlankLine clean_lines linenum)
      in (if matches LONE_BRACE_PAT line \<and> \<not> searches OPEN_END_PAT prevline \<and>
             \<not> matches DIRECTIVE_PAT prevline \<and>
             \<not> (GetLineWidth prevline > line_length - 2 \<and> contains ''[]'' prevline)
          then [Report n ''whitespace/braces'' 4
            ''{ should almost always be at the end of the previous line''] else []) @
         (if matches ELSE_START_PAT line \<and> matches LONE_CLOSING_PAT prevline then
            [Report n ''whitespace/newline'' 4
              ''An else should appear on the same line as the preceding }''] else []))"

text \<open>The text after a closing bracket; a column of -1 means the last character, as in Python.\<close>

definition else_brace_reports :: "cleansed_lines \<Rightarrow> nat \<Rightarrow> string \<Rightarrow> action list option" where
  "else_brace_reports clean_lines linenum line =
     (let report = [Report (int linenum) ''readability/braces'' 5
            ''If an else has a brace on one side, it should have it on both'']
      in if searches ELSE_IF_PAT line then
           (let brace_on_left = searches BRACE_ELSE_IF_PAT line;
                pos = py_find_from line ''('' (nat (py_find line ''else if''))
            in if pos > 0 then
                 map_option (\<lambda>(endline, _, endpos).
                     if brace_on_left \<noteq> (py_find (slice_from endline endpos) ''{'' \<noteq> -1) then report else [])
                   (CloseExpression clean_lines linenum (nat pos))
               else Some [])
         else if searches LEFT_BRACE_ELSE_PAT line \<or> matches RIGHT_BRACE_ELSE_PAT line then Some report
         else Some [])"

definition clause_reports :: "nat \<Rightarrow> string \<Rightarrow> action list" where
  "clause_reports linenum line =
     (if searches ELSE_CLAUSE_PAT line \<and> \<not> searches ELSE_IF_WORD_PAT line then
        [Report (int linenum) ''whitespace/newline'' 4
          ''Else clause should never be on same line as else (use 2 lines)''] else []) @
     (if matches DO_CLAUSE_PAT line then
        [Report (int linenum) ''whitespace/newline'' 4 ''do/while clauses should not be on a single line'']
      else [])"

text \<open>The line from linenum on that has a semicolon at or after the position; the given lines begin
  with that line.\<close>

fun semicolon_line :: "nat \<Rightarrow> int \<Rightarrow> string list \<Rightarrow> nat" where
  "semicolon_line n pos [] = n"
| "semicolon_line n pos (line # ls) =
     (if contains '';'' (slice_from line pos) then n else semicolon_line (n + 1) 0 ls)"

definition body_end_reports ::
    "cleansed_lines \<Rightarrow> nat \<Rightarrow> bool \<Rightarrow> nat \<Rightarrow> nat \<Rightarrow> int \<Rightarrow> action list" where
  "body_end_reports clean_lines linenum is_if if_indent endlinenum0 endpos0 =
     (let es = elided clean_lines; n = int linenum;
          endlinenum = semicolon_line endlinenum0 endpos0 (drop endlinenum0 es)
      in if endlinenum < length es then
           (let endline = es ! endlinenum; endpos = py_find endline '';''
            in if \<not> matches SEMICOLON_END_PAT (slice_from endline endpos) then
                 (if \<not> matches LAMBDA_LINE_PAT endline then [Report n ''readability/braces'' 4
                    ''If/else bodies with multiple statements require braces''] else [])
               else if endlinenum + 1 < length es then
                 (let next_line = es ! (endlinenum + 1); next_indent = GetIndentLevel next_line
                  in if is_if \<and> matches ELSE_WORD_PAT next_line \<and> next_indent \<noteq> if_indent then
                       [Report n ''readability/braces'' 4
                         (''Else clause should be indented at the same level as if. '' @
                          ''Ambiguous nested if/else chains require braces.'')]
                     else if next_indent > if_indent then [Report n ''readability/braces'' 4
                       ''If/else bodies with multiple statements require braces'']
                     else [])
               else [])
         else [])"

definition single_body_reports ::
    "cleansed_lines \<Rightarrow> nat \<Rightarrow> bool \<Rightarrow> nat \<Rightarrow> string \<times> nat \<times> int \<Rightarrow> action list" where
  "single_body_reports clean_lines linenum is_if if_indent = (\<lambda>(endline, endlinenum, endpos).
     let rest = slice_from endline endpos; es = elided clean_lines
     in if \<not> matches START_BRACE_PAT rest \<and>
           \<not> (matches REST_BLANK_PAT rest \<and> endlinenum + 1 < length es \<and>
              matches START_BRACE_PAT (es ! (endlinenum + 1)))
        then body_end_reports clean_lines linenum is_if if_indent endlinenum endpos
        else [])"

definition if_body_reports :: "cleansed_lines \<Rightarrow> nat \<Rightarrow> string \<Rightarrow> action list option" where
  "if_body_reports clean_lines linenum line =
     (case Search IF_ELSE_PAT line of
        None \<Rightarrow> Some []
      | Some if_else_match \<Rightarrow>
          (if matches DIRECTIVE_PAT line then Some []
           else (let if_indent = GetIndentLevel line
                 in case Search IF_PAREN_PAT line of
                      None \<Rightarrow> Some (single_body_reports clean_lines linenum False if_indent
                        (line, linenum, int (mo_end if_else_match)))
                    | Some if_match \<Rightarrow>
                        map_option (single_body_reports clean_lines linenum True if_indent)
                          (CloseExpression clean_lines linenum (mo_end if_match - 1)))))"

definition CheckBraces :: "int \<Rightarrow> cleansed_lines \<Rightarrow> nat \<Rightarrow> action list option" where
  "CheckBraces line_length clean_lines linenum =
     (let line = elided clean_lines ! linenum
      in case (else_brace_reports clean_lines linenum line, if_body_reports clean_lines linenum line) of
           (Some as, Some as') \<Rightarrow>
             Some (brace_start_reports line_length clean_lines linenum line @ as @ clause_reports linenum line @ as')
         | _ \<Rightarrow> None)"

subsection \<open>Semicolons after a block\<close>

definition PAREN_BRACE_PAT :: rx where
  "PAREN_BRACE_PAT = rseq [RBol, RGrp 1 (rseq [RStar RAny, RLit '')'', RStar RSp]), RLit ''{'']"

definition MACRO_END_PAT :: rx where
  "MACRO_END_PAT = rseq [RWordB, RGrp 1 (rseq [RIn [CR (CHR ''A'') (CHR ''Z''), CI (CHR ''_'')],
     RStar (RIn [CR (CHR ''A'') (CHR ''Z''), CR (CHR ''0'') (CHR ''9''), CI (CHR ''_'')])]),
     RStar RSp, REol]"

definition BRACKET_END_PAT :: rx where
  "BRACKET_END_PAT = rseq [RBol, RGrp 1 (rseq [RStar RAny, RLit '']'']), RStar RSp, REol]"

definition OPERATOR_BRACKETS_PAT :: rx where
  "OPERATOR_BRACKETS_PAT = rseq [RWordB, RLit ''operator'', RStar RSp, RLit ''['', RStar RSp,
     RLit '']'']"

definition ALIGNAS_PAT :: rx where
  "ALIGNAS_PAT = rseq [RWordB, ralt [RLit ''struct'', RLit ''union''], RPlus RSp,
     RLit ''alignas'', RStar RSp, REol]"

definition DECLTYPE_END_PAT :: rx where
  "DECLTYPE_END_PAT = rseq [RWordB, RLit ''decltype'', REol]"

definition ASSIGN_END_PAT :: rx where
  "ASSIGN_END_PAT = rseq [RPlus RSp, RLit ''='', RStar RSp, REol]"

definition SQUARE_END_PAT :: rx where
  "SQUARE_END_PAT = rseq [RLit '']'', RStar RSp, REol]"

definition ELSE_CONST_BRACE_PAT :: rx where
  "ELSE_CONST_BRACE_PAT = rseq [RBol, RGrp 1 (rseq [RStar RAny, ralt [RLit ''else'',
     rseq [RLit '')'', RStar RSp, RLit ''const'']], RStar RSp]), RLit ''{'']"

definition STATEMENT_END_PAT :: rx where
  "STATEMENT_END_PAT = rseq [RIn [CI (CHR '';''), CI (CHR ''{''), CI (CHR ''}'')], RStar RSp,
     REol]"

definition FIRST_BRACE_PAT :: rx where
  "FIRST_BRACE_PAT = rseq [RBol, RGrp 1 (RStar RSp), RLit ''{'']"

definition SEMICOLON_START_PAT :: rx where
  "SEMICOLON_START_PAT = rseq [RBol, RStar RSp, RLit '';'']"

definition SAFE_MACROS :: "string list" where
  "SAFE_MACROS = [''TEST'', ''TEST_F'', ''MATCHER'', ''MATCHER_P'', ''TYPED_TEST'',
     ''EXCLUSIVE_LOCKS_REQUIRED'', ''SHARED_LOCKS_REQUIRED'', ''LOCKS_EXCLUDED'', ''INTERFACE_DEF'']"

text \<open>Whether what precedes the parenthesis makes the braces something else than a block.\<close>

definition not_a_block :: "string \<Rightarrow> bool" where
  "not_a_block line_prefix =
     ((case Search MACRO_END_PAT line_prefix of Some macro \<Rightarrow> grp macro 1 \<notin> set SAFE_MACROS | None \<Rightarrow> False) \<or>
      (case Match BRACKET_END_PAT line_prefix of
         Some func \<Rightarrow> \<not> searches OPERATOR_BRACKETS_PAT (grp func 1) | None \<Rightarrow> False) \<or>
      searches ALIGNAS_PAT line_prefix \<or> searches DECLTYPE_END_PAT line_prefix \<or>
      searches ASSIGN_END_PAT line_prefix)"

text \<open>The column of the brace that opens the block, if the line opens one.\<close>

definition block_brace :: "cleansed_lines \<Rightarrow> nat \<Rightarrow> nat option option" where
  "block_brace clean_lines linenum =
     (let line = elided clean_lines ! linenum
      in case Match PAREN_BRACE_PAT line of
           Some m \<Rightarrow>
             (case ReverseCloseExpression clean_lines linenum (nat (py_rfind (grp m 1) (CHR '')''))) of
                None \<Rightarrow> None
              | Some (opening_line, opening_linenum, opening_pos) \<Rightarrow>
                  Some (if opening_pos > -1 \<and> not_a_block (slice opening_line 0 opening_pos) then None
                        else if opening_linenum > 1 \<and>
                                searches SQUARE_END_PAT (elided clean_lines ! (opening_linenum - 1)) then None
                        else Some (length (grp m 1))))
         | None \<Rightarrow>
             (case Match ELSE_CONST_BRACE_PAT line of
                Some m \<Rightarrow> Some (Some (length (grp m 1)))
              | None \<Rightarrow>
                  (let prevline = fst (GetPreviousNonBlankLine clean_lines linenum)
                   in if prevline \<noteq> [] \<and> searches STATEMENT_END_PAT prevline then
                        Some (map_option (\<lambda>m. length (grp m 1)) (Match FIRST_BRACE_PAT line))
                      else Some None)))"

definition CheckTrailingSemicolon :: "cleansed_lines \<Rightarrow> nat \<Rightarrow> action list option" where
  "CheckTrailingSemicolon clean_lines linenum =
     (case block_brace clean_lines linenum of
        None \<Rightarrow> None
      | Some None \<Rightarrow> Some []
      | Some (Some pos) \<Rightarrow>
          (case CloseExpression clean_lines linenum pos of
             None \<Rightarrow> None
           | Some (endline, endlinenum, endpos) \<Rightarrow>
               (if endpos > -1 \<and> matches SEMICOLON_START_PAT (slice_from endline endpos) then
                  (case (py_index (raw_lines clean_lines) (int endlinenum - 1),
                         py_index (raw_lines clean_lines) (int endlinenum)) of
                     (Some before, Some at) \<Rightarrow>
                       Some [Nolint before (int endlinenum - 1), Nolint at (int endlinenum),
                         Report (int endlinenum) ''readability/braces'' 4
                           ((''You don'' @ [sq] @ ''t need a ; after a '') @ ''}'')]
                   | _ \<Rightarrow> None)
                else Some [])))"

subsection \<open>Empty bodies\<close>

definition CONDITIONAL_PAT :: rx where
  "CONDITIONAL_PAT = rseq [RStar RSp, RGrp 1 (ralt [RLit ''for'', RLit ''while'', RLit ''if'']),
     RStar RSp, RLit ''('']"

definition SEMICOLON_ONLY_PAT :: rx where
  "SEMICOLON_ONLY_PAT = RLit '';''"

definition BLOCK_START_PAT :: rx where
  "BLOCK_START_PAT = rseq [RBol, RStar RSp, RLit ''{'']"

definition NOT_BLANK_PAT :: rx where
  "NOT_BLANK_PAT = rseq [RBol, RNLook (rseq [RStar RSp, REol])]"

definition BLANK_OR_ELSE_PAT :: rx where
  "BLANK_OR_ELSE_PAT = ralt [rseq [RBol, RStar RSp, REol], rseq [RBol, RLook (rseq [RStar RSp,
     RLit ''else''])]]"

definition ELSE_AHEAD_PAT :: rx where
  "ELSE_AHEAD_PAT = rseq [RBol, RLook (rseq [RStar RSp, RLit ''else''])]"

text \<open>The line and the fragment with the opening brace; the lines after the current one are given.\<close>

fun find_opening :: "nat \<Rightarrow> string \<Rightarrow> string list \<Rightarrow> (nat \<times> string) option" where
  "find_opening n fragment [] = (if searches BLOCK_START_PAT fragment then Some (n, fragment) else None)"
| "find_opening n fragment (line # ls) =
     (if searches BLOCK_START_PAT fragment then Some (n, fragment)
      else if searches NOT_BLANK_PAT fragment then None
      else find_opening (n + 1) line ls)"

text \<open>Whether code other than an else clause, or the end of the file, follows.\<close>

fun no_else :: "string \<Rightarrow> string list \<Rightarrow> bool" where
  "no_else fragment [] = (\<not> searches BLANK_OR_ELSE_PAT fragment \<or> \<not> searches ELSE_AHEAD_PAT fragment)"
| "no_else fragment (line # ls) =
     (if searches BLANK_OR_ELSE_PAT fragment then
        (if searches ELSE_AHEAD_PAT fragment then False else no_else line ls)
      else True)"

text \<open>The body of a block; \<open>list\<close> splits the rest of the opening line into characters.\<close>

definition block_body :: "cleansed_lines \<Rightarrow> nat \<Rightarrow> nat \<Rightarrow> nat \<Rightarrow> int \<Rightarrow> string" where
  "block_body clean_lines opening_linenum opening_pos closing_linenum closing_pos =
     (let opening_line = elided clean_lines ! opening_linenum
      in if closing_linenum > opening_linenum then
           py_join [nl] (map (\<lambda>c. [c]) (drop (opening_pos + 1) opening_line) @
             map ((!) (raw_lines clean_lines)) [opening_linenum + 1..<closing_linenum] @
             [slice_to (elided clean_lines ! closing_linenum) (closing_pos - 1)])
         else slice opening_line (int opening_pos + 1) (closing_pos - 1))"

definition empty_if_reports :: "cleansed_lines \<Rightarrow> string \<Rightarrow> nat \<Rightarrow> nat \<Rightarrow> action list option" where
  "empty_if_reports clean_lines end_line end_linenum end_pos =
     (let es = elided clean_lines
      in case find_opening end_linenum (drop end_pos end_line) (drop (end_linenum + 1) es) of
           None \<Rightarrow> Some []
         | Some (opening_linenum, fragment) \<Rightarrow>
             (let opening_pos = nat (py_find fragment ''{'') + (if opening_linenum = end_linenum then end_pos else 0)
              in case CloseExpression clean_lines opening_linenum opening_pos of
                   None \<Rightarrow> None
                 | Some (closing_line, closing_linenum, closing_pos) \<Rightarrow>
                     Some (if closing_pos \<ge> 0 \<and>
                         raw_lines clean_lines ! opening_linenum =
                           CleanseComments (raw_lines clean_lines ! opening_linenum) \<and>
                         searches EMPTY_CONDITIONAL_BODY_PATTERN
                           (block_body clean_lines opening_linenum opening_pos closing_linenum closing_pos) \<and>
                         no_else (slice_from closing_line closing_pos) (drop (closing_linenum + 1) es)
                       then [Report (int end_linenum) ''whitespace/empty_if_body'' 4
                         ''If statement had no body and no else clause'']
                       else [])))"

definition CheckEmptyBlockBody :: "cleansed_lines \<Rightarrow> nat \<Rightarrow> action list option" where
  "CheckEmptyBlockBody clean_lines linenum =
     (let line = elided clean_lines ! linenum
      in case Match CONDITIONAL_PAT line of
           None \<Rightarrow> Some []
         | Some matched \<Rightarrow>
             (case CloseExpression clean_lines linenum (nat (py_find line ''('')) of
                None \<Rightarrow> None
              | Some (end_line, end_linenum, end_pos) \<Rightarrow>
                  (let is_if = (grp matched 1 = ''if'');
                       as = (if end_pos \<ge> 0 \<and> matches SEMICOLON_ONLY_PAT (slice_from end_line end_pos) then
                               (if is_if then [Report (int end_linenum) ''whitespace/empty_conditional_body'' 5
                                  ''Empty conditional bodies should use {}'']
                                else [Report (int end_linenum) ''whitespace/empty_loop_body'' 5
                                  ''Empty loop bodies should use {} or continue''])
                             else [])
                   in if end_pos \<ge> 0 \<and> is_if then
                        map_option (\<lambda>as'. as @ as')
                          (empty_if_reports clean_lines end_line end_linenum (nat end_pos))
                      else Some as)))"

end
