(* ===== verification/Check_Macros.thy ===== *)
theory Check_Macros
  imports Expressions Line_Checks
begin

text \<open>
  The check of assertion macros (tools/scripts/cpplint.py, lines 4181 to 4319): the macro on a line
  and the comparison in its argument, for which a more specific macro exists.
\<close>

subsection \<open>Finding the macro\<close>

definition CHECK_MACRO_PAT :: "string \<Rightarrow> rx" where
  "CHECK_MACRO_PAT macro = rseq [RBol, RGrp 1 (rseq [RStar RAny, RWordB, RLit macro, RStar RSp]),
     RLit ''('']"

fun find_macro :: "string list \<Rightarrow> string \<Rightarrow> (string \<times> nat) option" where
  "find_macro [] line = None"
| "find_macro (macro # ms) line =
     (if py_find line macro \<ge> 0 then
        (case Match (CHECK_MACRO_PAT macro) line of
           None \<Rightarrow> find_macro ms line
         | Some m \<Rightarrow> Some (macro, length (grp m 1)))
      else find_macro ms line)"

definition FindCheckMacro :: "string \<Rightarrow> (string \<times> nat) option" where
  "FindCheckMacro line = find_macro CHECK_MACROS line"

subsection \<open>Parsing the comparison\<close>

definition CHECK_TOKEN_PAT :: rx where
  "CHECK_TOKEN_PAT = rseq [RBol, RStar RSp, RGrp 1 (ralt [RLit ''<<'', RLit ''<<='', RLit ''>>'',
     RLit ''>>='', RLit ''->*'', RLit ''->'', RLit ''&&'', RLit ''||'', RLit ''=='', RLit ''!='',
     RLit ''>='', RLit ''>'', RLit ''<='', RLit ''<'', RLit ''('']), RGrp 2 (RStar RAny), REol]"

definition OPERAND_PAT :: rx where
  "OPERAND_PAT = rseq [RBol, RGrp 1 (RPlus (RNotIn [CI (CHR ''-''), CI (CHR ''=''),
     CI (CHR ''!''), CI (CHR ''<''), CI (CHR ''>''), CI (CHR ''(''), CI (CHR '')''),
     CI (CHR ''&''), CI (CHR ''|'')])), RGrp 2 (RStar RAny), REol]"

definition OPERAND_CHAR_PAT :: rx where
  "OPERAND_CHAR_PAT = rseq [RBol, RGrp 1 (rseq [RStar RSp, RNSp]), RGrp 2 (RStar RAny), REol]"

lemma CHECK_TOKEN_length: "Match CHECK_TOKEN_PAT e = Some m \<Longrightarrow> length (grp m 2) < length e"
  by (erule Match_mem) (auto simp: CHECK_TOKEN_PAT_def reach_simps)

lemma OPERAND_length: "Match OPERAND_PAT e = Some m \<Longrightarrow> length (grp m 2) < length e"
  by (erule Match_mem) (auto simp: OPERAND_PAT_def reach_simps)

lemma OPERAND_CHAR_length: "Match OPERAND_CHAR_PAT e = Some m \<Longrightarrow> length (grp m 2) < length e"
  by (erule Match_mem) (auto simp: OPERAND_CHAR_PAT_def reach_simps)

text \<open>The left operand, the operator and the right operand; \<open>None\<close> where the source gives up
  (an unmatched parenthesis or a logical operator), and no operator at the end of the
  expression.\<close>

function parse_check :: "string \<Rightarrow> string \<Rightarrow> (string \<times> string option \<times> string) option" where
  "parse_check lhs expression =
     (if expression = [] then Some (lhs, None, [])
      else (case Match CHECK_TOKEN_PAT expression of
              Some m \<Rightarrow>
                (let token = grp m 1; rest = grp m 2
                 in if token = ''('' then
                      (let end_pos = fst (FindEndOfExpressionInLine rest 0 ''('')
                       in if end_pos < 0 then None
                          else parse_check (lhs @ ''('' @ take (nat end_pos) rest) (drop (nat end_pos) rest))
                    else if token \<in> set [''&&'', ''||''] then None
                    else if token \<in> set [''<<'', ''<<='', ''>>'', ''>>='', ''->*'', ''->''] then
                      parse_check (lhs @ token) rest
                    else Some (lhs, Some token, rest))
            | None \<Rightarrow>
                (case Match OPERAND_PAT expression of
                   Some m \<Rightarrow> parse_check (lhs @ grp m 1) (grp m 2)
                 | None \<Rightarrow>
                     (case Match OPERAND_CHAR_PAT expression of
                        Some m \<Rightarrow> parse_check (lhs @ grp m 1) (grp m 2)
                      | None \<Rightarrow> Some (lhs, None, [])))))"
  by pat_completeness auto
termination
  by (relation "measure (\<lambda>(lhs, expression). length expression)")
     (auto dest: CHECK_TOKEN_length OPERAND_length OPERAND_CHAR_length intro: le_less_trans [OF diff_le_self])

declare parse_check.simps [simp del]

subsection \<open>The check\<close>

definition CONSTANT_PAT :: rx where
  "CONSTANT_PAT = rseq [RBol, RGrp 1 (ralt [rseq [ROpt (RIn [CI (CHR ''-''), CI (CHR ''+'')]),
     RGrp 2 (ralt [RPlus (RIn [CDigit]), rseq [RLit ''0'', RIn [CI (CHR ''x''), CI (CHR ''X'')],
     RPlus (RIn [CR (CHR ''0'') (CHR ''9''), CR (CHR ''a'') (CHR ''f''),
     CR (CHR ''A'') (CHR ''F'')])]]), RUpTo 3 (RIn [CI (CHR ''l''), CI (CHR ''L''),
     CI (CHR ''u''), CI (CHR ''U'')])], rseq [RLit [dq], RStar RAny, RLit [dq]], rseq [RLit [sq],
     RStar RAny, RLit [sq]]]), REol]"

definition SEMICOLON_NEXT_PAT :: rx where
  "SEMICOLON_NEXT_PAT = rseq [RStar RSp, RLit '';'']"

definition check_expression :: "cleansed_lines \<Rightarrow> nat \<Rightarrow> nat \<Rightarrow> string \<Rightarrow> nat \<Rightarrow> int \<Rightarrow> string" where
  "check_expression clean_lines linenum start_pos last_line end_line end_pos =
     (let es = elided clean_lines
      in if linenum = end_line then slice (es ! linenum) (int start_pos + 1) (end_pos - 1)
         else drop (start_pos + 1) (es ! linenum) @ concat (map ((!) es) [linenum + 1..<end_line]) @
              slice last_line 0 (end_pos - 1))"

definition comparison_report :: "nat \<Rightarrow> string \<Rightarrow> string \<times> string option \<times> string \<Rightarrow> action list option" where
  "comparison_report linenum check_macro = (\<lambda>(lhs, op, rhs).
     case op of
       None \<Rightarrow> Some []
     | Some operator \<Rightarrow>
         (if lhs = [] \<or> rhs = [] \<or> py_find rhs ''&&'' > -1 \<or> py_find rhs ''||'' > -1 then Some []
          else if matches CONSTANT_PAT (ustrip lhs) \<or> matches CONSTANT_PAT (ustrip rhs) then
            map_option (\<lambda>replacement. [Report (int linenum) ''readability/check'' 2
                (''Consider using '' @ replacement @ '' instead of '' @ check_macro @ ''(a '' @ operator @ '' b)'')])
              (CHECK_REPLACEMENT check_macro operator)
          else Some []))"

definition CheckCheck :: "cleansed_lines \<Rightarrow> nat \<Rightarrow> action list option" where
  "CheckCheck clean_lines linenum =
     (case FindCheckMacro (elided clean_lines ! linenum) of
        None \<Rightarrow> Some []
      | Some (check_macro, start_pos) \<Rightarrow>
          (case CloseExpression clean_lines linenum start_pos of
             None \<Rightarrow> None
           | Some (last_line, end_line, end_pos) \<Rightarrow>
               (if end_pos < 0 \<or> \<not> matches SEMICOLON_NEXT_PAT (slice_from last_line end_pos) then Some []
                else (case parse_check [] (check_expression clean_lines linenum start_pos last_line end_line end_pos) of
                        None \<Rightarrow> Some []
                      | Some parts \<Rightarrow> comparison_report linenum check_macro parts))))"

subsection \<open>The parts of the comparison\<close>

definition tokens_text :: "string \<Rightarrow> string" where
  "tokens_text s = filter (\<lambda>c. \<not> is_ws c) s"

lemma tokens_text_simps [simp]:
  "tokens_text (u @ v) = tokens_text u @ tokens_text v"
  "list_all (in_cset (CPos [CSpace])) w \<Longrightarrow> tokens_text w = []"
  "tokens_text [] = []"
  by (auto simp: tokens_text_def list_all_iff filter_empty_conv)

definition RELATIONS :: "string list" where
  "RELATIONS = [''=='', ''!='', ''>='', ''>'', ''<='', ''<'']"

lemma CHECK_TOKEN_groups:
  assumes "Match CHECK_TOKEN_PAT e = Some m" "nl \<notin> set e"
  shows "(\<exists>w. e = w @ grp m 1 @ grp m 2 \<and> list_all (in_cset (CPos [CSpace])) w) \<and>
    grp m 1 \<in> set ([''('', ''&&'', ''||'', ''<<'', ''<<='', ''>>'', ''>>='', ''->*'', ''->''] @ RELATIONS)"
  using assms(1)
  by (rule Match_mem) (use assms(2) in \<open>auto simp: CHECK_TOKEN_PAT_def reach_simps RELATIONS_def\<close>)

lemma OPERAND_groups:
  assumes "Match OPERAND_PAT e = Some m" "nl \<notin> set e"
  shows "e = grp m 1 @ grp m 2"
  using assms(1) by (rule Match_mem) (use assms(2) in \<open>auto simp: OPERAND_PAT_def reach_simps\<close>)

lemma OPERAND_CHAR_groups:
  assumes "Match OPERAND_CHAR_PAT e = Some m" "nl \<notin> set e"
  shows "e = grp m 1 @ grp m 2"
  using assms(1) by (rule Match_mem) (use assms(2) in \<open>auto simp: OPERAND_CHAR_PAT_def reach_simps\<close>)

lemma parse_check_parts:
  "parse_check lhs e = Some (l, Some op, r) \<Longrightarrow> nl \<notin> set e \<Longrightarrow>
     tokens_text (l @ op @ r) = tokens_text (lhs @ e) \<and> op \<in> set RELATIONS"
proof (induction lhs e arbitrary: l r rule: parse_check.induct)
  case (1 lhs e)
  from 1(5) have ne: "e \<noteq> []" by (auto simp: parse_check.simps)
  show ?case
  proof (cases "Match CHECK_TOKEN_PAT e")
    case (Some m)
    obtain w where w: "e = w @ grp m 1 @ grp m 2" "list_all (in_cset (CPos [CSpace])) w"
      and tok: "grp m 1 \<in> set ([''('', ''&&'', ''||'', ''<<'', ''<<='', ''>>'', ''>>='', ''->*'', ''->''] @ RELATIONS)"
      using CHECK_TOKEN_groups [OF Some 1(6)] by blast
    define p where "p = fst (FindEndOfExpressionInLine (grp m 2) 0 ''('')"
    let ?shifts = "[''<<'', ''<<='', ''>>'', ''>>='', ''->*'', ''->'']"
    have eq: "parse_check lhs e =
        (if grp m 1 = ''('' then
           (if p < 0 then None
            else parse_check (lhs @ ''('' @ take (nat p) (grp m 2)) (drop (nat p) (grp m 2)))
         else if grp m 1 \<in> set [''&&'', ''||''] then None
         else if grp m 1 \<in> set ?shifts then parse_check (lhs @ grp m 1) (grp m 2)
         else Some (lhs, Some (grp m 1), grp m 2))"
      by (subst parse_check.simps) (simp only: ne Some option.case Let_def p_def if_False)
    show ?thesis
    proof (cases "grp m 1 = ''(''")
      case paren: True
      then have p: "\<not> p < 0"
        "parse_check (lhs @ ''('' @ take (nat p) (grp m 2)) (drop (nat p) (grp m 2)) = Some (l, Some op, r)"
        using "1.prems"(1) unfolding eq by (simp_all only: if_True split: if_splits) simp_all
      have "nl \<notin> set (drop (nat p) (grp m 2))" using "1.prems"(2) w(1) by (auto dest: in_set_dropD)
      then have "tokens_text (l @ op @ r) = tokens_text ((lhs @ ''('' @ take (nat p) (grp m 2)) @ drop (nat p) (grp m 2))
          \<and> op \<in> set RELATIONS"
        using "1.IH"(3) [OF ne Some refl refl paren p_def p] by blast
      moreover have "tokens_text (take (nat p) (grp m 2)) @ tokens_text (drop (nat p) (grp m 2)) = tokens_text (grp m 2)"
        unfolding tokens_text_simps(1) [symmetric] by simp
      ultimately show ?thesis using w paren by simp
    next
      case noparen: False
      have nologic: "grp m 1 \<notin> set [''&&'', ''||'']" using "1.prems"(1) noparen unfolding eq by auto
      show ?thesis
      proof (cases "grp m 1 \<in> set ?shifts")
        case True
        then have "parse_check (lhs @ grp m 1) (grp m 2) = Some (l, Some op, r)"
          using "1.prems"(1) noparen nologic unfolding eq by (simp only: if_True if_False)
        then show ?thesis
          using "1.IH"(4) [OF ne Some refl refl noparen nologic True] "1.prems"(2) w by simp
      next
        case False
        then have "Some (lhs, Some (grp m 1), grp m 2) = Some (l, Some op, r)"
          using "1.prems"(1) noparen nologic unfolding eq by (simp only: if_True if_False)
        moreover have "grp m 1 \<in> set RELATIONS" using tok noparen nologic False by simp
        ultimately show ?thesis using w by simp
      qed
    qed
  next
    case None
    show ?thesis
    proof (cases "Match OPERAND_PAT e")
      case (Some m)
      then have "parse_check (lhs @ grp m 1) (grp m 2) = Some (l, Some op, r)"
        using "1.prems"(1) ne None by (subst (asm) parse_check.simps) simp
      then show ?thesis
        using "1.IH"(2) [OF ne None Some] OPERAND_groups [OF Some "1.prems"(2)] "1.prems"(2)
        by (metis Un_iff append.assoc set_append)
    next
      case no: None
      then obtain m where m: "Match OPERAND_CHAR_PAT e = Some m"
        using "1.prems"(1) ne None by (subst (asm) parse_check.simps) (auto split: option.splits)
      then have "parse_check (lhs @ grp m 1) (grp m 2) = Some (l, Some op, r)"
        using "1.prems"(1) ne None no by (subst (asm) parse_check.simps) simp
      then show ?thesis
        using "1.IH"(1) [OF ne None no m] OPERAND_CHAR_groups [OF m "1.prems"(2)] "1.prems"(2)
        by (metis Un_iff append.assoc set_append)
    qed
  qed
qed

lemma replacement_defined:
  assumes "macro \<in> set CHECK_MACROS" "op \<in> set RELATIONS"
  shows "\<exists>r. CHECK_REPLACEMENT macro op = Some r"
proof -
  have "list_all (\<lambda>m. list_all (\<lambda>r. CHECK_REPLACEMENT m r \<noteq> None) RELATIONS) CHECK_MACROS" by code_simp
  then show ?thesis using assms by (auto simp: list_all_iff)
qed

subsection \<open>Properties\<close>

text \<open>C34: When the argument of an assertion macro is taken apart as a comparison, the two operands and
  the operator between them are, blanks aside, the whole argument, and the operator is one of the
  six relations, for which every assertion macro has a replacement.\<close>

theorem check_comparison_parts:
  assumes "parse_check [] expression = Some (lhs, Some operator, rhs)" "nl \<notin> set expression"
    "macro \<in> set CHECK_MACROS"
  shows "tokens_text (lhs @ operator @ rhs) = tokens_text expression \<and>
    operator \<in> set RELATIONS \<and> (\<exists>replacement. CHECK_REPLACEMENT macro operator = Some replacement)"
  using parse_check_parts [OF assms(1,2)] replacement_defined [OF assms(3)] by auto

theorem check_comparison_parts_witness:
  "parse_check [] ''(a < 4) == b->c'' = Some (''(a < 4)'', Some ''=='', '' b->c'') \<and>
   (\<exists>replacement. CHECK_REPLACEMENT ''DCHECK'' ''=='' = Some replacement)"
proof -
  have e: "parse_check [] ''(a < 4) == b->c'' = Some (''(a < 4)'', Some ''=='', '' b->c'')" by code_simp
  have "nl \<notin> set ''(a < 4) == b->c''" "''DCHECK'' \<in> set CHECK_MACROS" by (simp_all add: CHECK_MACROS_def)
  from check_comparison_parts [OF e this] e show ?thesis by blast
qed

end
