(* ===== verification/Function_State.thy ===== *)
theory Function_State
  imports Cleanse
begin

text \<open>
  Class \<open>_FunctionState\<close> and the check of function lengths that drives it
  (tools/scripts/cpplint.py, lines 1033 to 1090 and 3055 to 3121).
\<close>

subsection \<open>State and operations\<close>

record function_state =
  in_a_function :: bool
  lines_in_function :: nat
  current_function :: string

definition init_function_state :: function_state where
  "init_function_state =
     \<lparr>in_a_function = False, lines_in_function = 0, current_function = []\<rparr>"

definition NORMAL_TRIGGER :: nat where "NORMAL_TRIGGER = 250"

definition TEST_TRIGGER :: nat where "TEST_TRIGGER = 400"

definition fs_Begin :: "string \<Rightarrow> function_state \<Rightarrow> function_state" where
  "fs_Begin function_name s =
     s\<lparr>in_a_function := True, lines_in_function := 0, current_function := function_name\<rparr>"

definition fs_Count :: "function_state \<Rightarrow> function_state" where
  "fs_Count s = (if in_a_function s then s\<lparr>lines_in_function := lines_in_function s + 1\<rparr> else s)"

definition fs_End :: "function_state \<Rightarrow> function_state" where
  "fs_End s = s\<lparr>in_a_function := False\<rparr>"

subsection \<open>Patterns\<close>

definition TEST_NAME_PAT :: rx where
  "TEST_NAME_PAT = rseq [RLit ''T'', RGrp 1 (ralt [RLit ''EST'', RLit ''est''])]"

definition FUNC_DECL_PAT :: rx where
  "FUNC_DECL_PAT = rseq [RGrp 1 (rseq [RWd, RStar (RGrp 2 (ralt [RWd, RLit ''::'', RLit ''*'',
     RLit ''&'', RSp]))]), RLit ''('']"

definition MACRO_NAME_PAT :: rx where
  "MACRO_NAME_PAT = rseq [RPlus (RIn [CR (CHR ''A'') (CHR ''Z''), CI (CHR ''_'')]), REol]"

definition DECL_END_PAT :: rx where
  "DECL_END_PAT = RGrp 1 (ralt [RLit '';'', RLit ''}''])"

definition BRACE_PAT :: rx where
  "BRACE_PAT = RLit ''{''"

definition FUNC_NAME_PAT :: rx where
  "FUNC_NAME_PAT = rseq [RGrp 1 (RStar (RGrp 2 (ralt [RWd, RLit '':'']))), RLit ''('']"

definition TEST_PREFIX_PAT :: rx where
  "TEST_PREFIX_PAT = RLit ''TEST''"

definition PARAMETER_PAT :: rx where
  "PARAMETER_PAT = RGrp 1 (rseq [RLit ''('', RStar RAny, RLit '')''])"

definition FUNC_END_PAT :: rx where
  "FUNC_END_PAT = rseq [RBol, RLit ''}'', RStar RSp, REol]"

definition BLANK_PAT :: rx where
  "BLANK_PAT = rseq [RBol, RStar RSp, REol]"

subsection \<open>The size check\<close>

definition base_trigger :: "function_state \<Rightarrow> nat" where
  "base_trigger s = (if matches TEST_NAME_PAT (current_function s) then TEST_TRIGGER else NORMAL_TRIGGER)"

text \<open>
  \<open>base_trigger * 2**_VerboseLevel()\<close>: a fraction when the level is negative, which is compared
  by cross multiplication and printed with its decimals cut off.
\<close>

definition exceeds_trigger :: "int \<Rightarrow> function_state \<Rightarrow> bool" where
  "exceeds_trigger verbose s =
     (if verbose \<ge> 0 then lines_in_function s > base_trigger s * 2 ^ nat verbose
      else lines_in_function s * 2 ^ nat (- verbose) > base_trigger s)"

definition shown_trigger :: "int \<Rightarrow> function_state \<Rightarrow> nat" where
  "shown_trigger verbose s =
     (if verbose \<ge> 0 then base_trigger s * 2 ^ nat verbose
      else base_trigger s div 2 ^ nat (- verbose))"

text \<open>The integer part of the binary logarithm.\<close>

fun ilog2 :: "nat \<Rightarrow> nat" where
  "ilog2 n = (if n < 2 then 0 else Suc (ilog2 (n div 2)))"

declare ilog2.simps [simp del]

text \<open>\<open>None\<close> is the ValueError of \<open>math.log(0, 2)\<close>.\<close>

definition fs_Check :: "int \<Rightarrow> int \<Rightarrow> function_state \<Rightarrow> action list option" where
  "fs_Check verbose linenum s =
     (if \<not> in_a_function s then Some []
      else if exceeds_trigger verbose s then
        (if lines_in_function s div base_trigger s = 0 then None
         else (let error_level = ilog2 (lines_in_function s div base_trigger s);
                   error_level' = (if error_level > 5 then 5 else error_level)
               in Some [Report linenum ''readability/fn_size'' (int error_level')
                    (''Small and focused functions are preferred: '' @ current_function s @
                     '' has '' @ py_str (int (lines_in_function s)) @
                     '' non-comment lines (error triggered by exceeding '' @
                     py_str (int (shown_trigger verbose s)) @ '' lines).'')]))
      else Some [])"

subsection \<open>Finding functions\<close>

text \<open>The name of the function on the line, when the line starts one.\<close>

definition starting_func :: "string \<Rightarrow> bool option" where
  "starting_func line =
     (case Match FUNC_DECL_PAT line of
        None \<Rightarrow> Some False
      | Some match_result \<Rightarrow>
          (case split_ws is_uws (grp match_result 1) of
             [] \<Rightarrow> None
           | w # ws \<Rightarrow>
               (let function_name = last (w # ws)
                in Some (function_name = ''TEST'' \<or> function_name = ''TEST_F'' \<or>
                     \<not> matches MACRO_NAME_PAT function_name))))"

datatype body = NoBody | Declaration | Body string

definition function_title :: "string \<Rightarrow> string \<Rightarrow> string option" where
  "function_title line joined_line =
     (case Search FUNC_NAME_PAT line of
        None \<Rightarrow> None
      | Some m \<Rightarrow>
          (let function = grp m 1
           in Some (if matches TEST_PREFIX_PAT function then
                (case Search PARAMETER_PAT joined_line of
                   None \<Rightarrow> function
                 | Some parameter_regexp \<Rightarrow> function @ grp parameter_regexp 1)
              else function @ ''()'')))"

text \<open>The loop over the lines from the start of the function on.\<close>

fun find_body :: "string \<Rightarrow> string \<Rightarrow> string list \<Rightarrow> body option" where
  "find_body line joined_line [] = Some NoBody"
| "find_body line joined_line (start_line # rest) =
     (let joined_line' = joined_line @ '' '' @ ulstrip start_line
      in if searches DECL_END_PAT start_line then Some Declaration
         else if searches BRACE_PAT start_line then
           map_option Body (function_title line joined_line')
         else find_body line joined_line' rest)"

definition CheckForFunctionLengths ::
    "int \<Rightarrow> cleansed_lines \<Rightarrow> nat \<Rightarrow> function_state \<Rightarrow> (action list \<times> function_state) option" where
  "CheckForFunctionLengths verbose clean_lines linenum s =
     (if linenum < length (lines clean_lines) then
        (let line = lines clean_lines ! linenum
         in case starting_func line of
              None \<Rightarrow> None
            | Some True \<Rightarrow>
                (case find_body line [] (drop linenum (lines clean_lines)) of
                   None \<Rightarrow> None
                 | Some NoBody \<Rightarrow> Some ([Report (int linenum) ''readability/fn_size'' 5
                     ''Lint failed to find start of function body.''], s)
                 | Some Declaration \<Rightarrow> Some ([], s)
                 | Some (Body function) \<Rightarrow> Some ([], fs_Begin function s))
            | Some False \<Rightarrow>
                (if matches FUNC_END_PAT line then
                   (case fs_Check verbose (int linenum) s of
                      None \<Rightarrow> None
                    | Some reports \<Rightarrow> Some (reports, fs_End s))
                 else if \<not> matches BLANK_PAT line then Some ([], fs_Count s)
                 else Some ([], s)))
      else None)"

subsection \<open>The check never raises\<close>

lemma FUNC_DECL_groups:
  assumes "Match FUNC_DECL_PAT line = Some m"
  shows "CHR ''('' \<in> set line" "\<exists>c w. grp m 1 = c # w \<and> is_word c"
proof -
  from assms obtain st where "reach FUNC_DECL_PAT ([], line, []) st" "m = mk_mobj ([], line, []) st"
    by (rule Match_mem)
  then show "CHR ''('' \<in> set line" "\<exists>c w. grp m 1 = c # w \<and> is_word c"
    unfolding FUNC_DECL_PAT_def
    by (auto simp: reach_simps reach_grp_general elim!: reach_advance)
qed

lemma starting_func_total: "\<exists>b. starting_func line = Some b"
proof (cases "Match FUNC_DECL_PAT line")
  case (Some m)
  obtain c w where "grp m 1 = c # w" "is_word c" using FUNC_DECL_groups(2) [OF Some] by blast
  then show ?thesis using Some word_not_space [of c] by (simp add: starting_func_def Let_def)
next
  case None
  then have "starting_func line = Some False" by (simp add: starting_func_def)
  then show ?thesis by blast
qed

lemma starting_func_paren: "starting_func line = Some True \<Longrightarrow> CHR ''('' \<in> set line"
  by (cases "Match FUNC_DECL_PAT line") (auto simp: starting_func_def dest: FUNC_DECL_groups(1))

lemma function_title_total:
  assumes "CHR ''('' \<in> set line"
  shows "\<exists>t. function_title line j = Some t"
proof -
  obtain u v where "line = u @ CHR ''('' # v" using split_list assms by metis
  moreover have "reach FUNC_NAME_PAT (rev u, CHR ''('' # v, []) (CHR ''('' # rev u, v, [(1, length u, [])])"
    unfolding FUNC_NAME_PAT_def
    by (auto simp: reach_simps reach_grp_general intro!: exI [of _ "[]"] reach_star_stop)
  ultimately have "searches FUNC_NAME_PAT line" unfolding searches_reach by blast
  then show ?thesis by (auto simp: searches_def function_title_def Let_def)
qed

lemma find_body_total:
  "CHR ''('' \<in> set line \<Longrightarrow> \<exists>b. find_body line j ls = Some b"
  by (induction ls arbitrary: j) (use function_title_total in \<open>auto simp: Let_def\<close>)

lemma ilog2_ge: "2 ^ v \<le> q \<Longrightarrow> v \<le> ilog2 q"
proof (induction q arbitrary: v rule: ilog2.induct)
  case (1 n)
  show ?case
  proof (cases v)
    case (Suc k)
    moreover have "(1::nat) \<le> 2 ^ k" by simp
    ultimately have "2 ^ k \<le> n div 2" "\<not> n < 2" using "1.prems" by (simp_all, linarith)
    then show ?thesis using "1.IH" [of k] Suc by (subst ilog2.simps) simp
  qed simp
qed

lemma base_trigger_pos: "0 < base_trigger s"
  by (simp add: base_trigger_def TEST_TRIGGER_def NORMAL_TRIGGER_def)

lemma exceeds_quotient:
  "0 \<le> verbose \<Longrightarrow> exceeds_trigger verbose s \<Longrightarrow>
     2 ^ nat verbose \<le> lines_in_function s div base_trigger s"
  using base_trigger_pos [of s]
  by (simp add: exceeds_trigger_def less_eq_div_iff_mult_less_eq mult.commute)

lemma fs_Check_total: "0 \<le> verbose \<Longrightarrow> \<exists>r. fs_Check verbose n s = Some r"
proof -
  assume v: "0 \<le> verbose"
  have "lines_in_function s div base_trigger s \<noteq> 0" if "exceeds_trigger verbose s"
    using exceeds_quotient [OF v that] by (metis not_le power_eq_0_iff zero_less_numeral less_not_refl
        zero_less_power)
  then show ?thesis by (cases "exceeds_trigger verbose s") (simp_all add: fs_Check_def Let_def)
qed

text \<open>C28: With a verbosity level that is not negative, the check of function lengths raises no
  exception on any line of a file and in any state.\<close>

theorem CheckForFunctionLengths_total:
  assumes "0 \<le> verbose" "n < length (lines cl)"
  shows "\<exists>r. CheckForFunctionLengths verbose cl n s = Some r"
proof -
  obtain b where b: "starting_func (lines cl ! n) = Some b" using starting_func_total by blast
  show ?thesis
  proof (cases b)
    case True
    then obtain r where "find_body (lines cl ! n) [] (drop n (lines cl)) = Some r"
      using find_body_total [OF starting_func_paren, of "lines cl ! n"] b by auto
    then show ?thesis
      using True b assms(2) by (cases r) (simp_all add: CheckForFunctionLengths_def Let_def)
  next
    case False
    then show ?thesis
      using b assms fs_Check_total [OF assms(1), of "int n" s]
      by (auto simp: CheckForFunctionLengths_def Let_def)
  qed
qed

theorem CheckForFunctionLengths_total_witness:
  "\<exists>r. CheckForFunctionLengths 1 \<lparr>elided = [''int f() {''], lines = [''int f() {''],
    raw_lines = [''int f() {''], lines_without_raw_strings = [''int f() {'']\<rparr> 0 init_function_state = Some r"
  by (rule CheckForFunctionLengths_total) simp_all

text \<open>C27: For the verbosity levels 0 to 5, a function is reported exactly when it has more lines than
  the trigger of that level, and the report has enough confidence to be shown at that level.\<close>

theorem long_functions_are_shown:
  assumes "0 \<le> verbose" "verbose \<le> 5" "in_a_function s"
  shows "\<exists>reports. fs_Check verbose n s = Some reports \<and>
     (reports \<noteq> [] \<longleftrightarrow> base_trigger s * 2 ^ nat verbose < lines_in_function s) \<and>
     (\<forall>r \<in> set reports. a_line r = n \<and> a_category r = ''readability/fn_size'' \<and>
        verbose \<le> a_confidence r \<and> a_confidence r \<le> 5)"
proof (cases "exceeds_trigger verbose s")
  case True
  note q = exceeds_quotient [OF assms(1) True]
  then have "lines_in_function s div base_trigger s \<noteq> 0"
    by (metis not_le zero_less_numeral zero_less_power)
  moreover have "nat verbose \<le> ilog2 (lines_in_function s div base_trigger s)" using ilog2_ge q by blast
  ultimately show ?thesis
    using True assms by (auto simp: fs_Check_def Let_def exceeds_trigger_def)
next
  case False
  then show ?thesis using assms by (simp add: fs_Check_def exceeds_trigger_def)
qed

theorem long_functions_are_shown_witness:
  "\<exists>r. fs_Check 1 9 \<lparr>in_a_function = True, lines_in_function = 501, current_function = ''f()''\<rparr> = Some [r] \<and>
     a_category r = ''readability/fn_size''"
proof -
  let ?s = "\<lparr>in_a_function = True, lines_in_function = 501, current_function = ''f()''\<rparr>"
  have "\<not> matches TEST_NAME_PAT ''f()''" by code_simp
  then have b: "base_trigger ?s = 250" by (simp add: base_trigger_def NORMAL_TRIGGER_def)
  obtain rs where rs: "fs_Check 1 9 ?s = Some rs" "rs \<noteq> []"
    "\<forall>r \<in> set rs. a_category r = ''readability/fn_size''"
    using long_functions_are_shown [of 1 ?s 9] b by auto
  then obtain r where "rs = [r]"
    by (auto simp: fs_Check_def Let_def split: if_splits)
  with rs show ?thesis by auto
qed


subsection \<open>Counting the lines of a body\<close>

text \<open>The check called on one line after the other, as \<open>ProcessLine\<close> does.\<close>

fun lengths_run ::
    "int \<Rightarrow> cleansed_lines \<Rightarrow> nat list \<Rightarrow> function_state \<Rightarrow> (action list \<times> function_state) option" where
  "lengths_run verbose cl [] s = Some ([], s)"
| "lengths_run verbose cl (n # ns) s =
     (case CheckForFunctionLengths verbose cl n s of
        None \<Rightarrow> None
      | Some (as, s') \<Rightarrow> map_option (\<lambda>(bs', s''). (as @ bs', s'')) (lengths_run verbose cl ns s'))"

text \<open>
  A line inside of a function, by its first column: it begins neither a declaration nor the end of
  the function.  Indented lines, an opening brace, a preprocessor line and a comment are such lines.
\<close>

definition inside_line :: "string \<Rightarrow> bool" where
  "inside_line line = (nl \<notin> set line \<and> (line = [] \<or> \<not> is_word (hd line) \<and> hd line \<noteq> CHR ''}''))"

definition blank :: "string \<Rightarrow> bool" where
  "blank line = list_all is_ws line"

lemma not_starting: "line = [] \<or> \<not> is_word (hd line) \<Longrightarrow> starting_func line = Some False"
proof -
  assume l: "line = [] \<or> \<not> is_word (hd line)"
  have "Match FUNC_DECL_PAT line = None"
  proof (rule ccontr)
    assume "Match FUNC_DECL_PAT line \<noteq> None"
    then obtain st where "reach FUNC_DECL_PAT ([], line, []) st" using Match_Some_iff by blast
    then show False using l
      by (auto simp: FUNC_DECL_PAT_def reach_simps reach_grp_general)
  qed
  then show ?thesis by (simp add: starting_func_def)
qed

lemma in_cset_space: "list_all (in_cset (CPos [CSpace])) w \<longleftrightarrow> list_all is_ws w"
  by (simp add: list_all_iff)

lemma matches_BLANK: "nl \<notin> set line \<Longrightarrow> matches BLANK_PAT line \<longleftrightarrow> blank line"
  unfolding matches_reach BLANK_PAT_def blank_def
  by (auto simp: reach_simps in_cset_space) force

lemma not_FUNC_END: "inside_line line \<Longrightarrow> \<not> matches FUNC_END_PAT line"
  by (auto simp: matches_reach FUNC_END_PAT_def inside_line_def reach_simps)

lemma FUNC_END: "blank w \<Longrightarrow> matches FUNC_END_PAT (CHR ''}'' # w)"
  unfolding matches_reach FUNC_END_PAT_def blank_def
  by (auto simp: reach_simps in_cset_space) force

definition add_lines :: "nat \<Rightarrow> function_state \<Rightarrow> function_state" where
  "add_lines k s = s\<lparr>lines_in_function := lines_in_function s + k\<rparr>"

lemma body_line:
  assumes "n < length (lines cl)" "inside_line (lines cl ! n)" "in_a_function s"
  shows "CheckForFunctionLengths verbose cl n s =
     Some ([], add_lines (if blank (lines cl ! n) then 0 else 1) s)"
proof -
  have "starting_func (lines cl ! n) = Some False"
    using assms(2) by (intro not_starting) (auto simp: inside_line_def)
  moreover have "matches BLANK_PAT (lines cl ! n) \<longleftrightarrow> blank (lines cl ! n)"
    using assms(2) by (intro matches_BLANK) (simp add: inside_line_def)
  ultimately show ?thesis
    using assms not_FUNC_END [OF assms(2)]
    by (auto simp: CheckForFunctionLengths_def Let_def fs_Count_def add_lines_def)
qed

lemma body_lines:
  assumes "\<forall>n \<in> set ns. n < length (lines cl) \<and> inside_line (lines cl ! n)" and "in_a_function s"
  shows "lengths_run verbose cl (ns @ ms) s =
     lengths_run verbose cl ms (add_lines (length (filter (\<lambda>n. \<not> blank (lines cl ! n)) ns)) s)"
  using assms
proof (induction ns arbitrary: s)
  case (Cons n ns)
  have "lengths_run verbose cl ((n # ns) @ ms) s =
      lengths_run verbose cl (ns @ ms) (add_lines (if blank (lines cl ! n) then 0 else 1) s)"
    using Cons.prems body_line [of n cl s verbose] by (simp add: option.map_id case_prod_beta)
  also have "\<dots> = lengths_run verbose cl ms (add_lines (length (filter (\<lambda>n. \<not> blank (lines cl ! n)) ns))
      (add_lines (if blank (lines cl ! n) then 0 else 1) s))"
    using Cons by (intro Cons.IH) (simp_all add: add_lines_def)
  finally show ?case by (simp add: add_lines_def)
qed (simp add: add_lines_def)

text \<open>The lines of the head of a function, before its opening brace and with it.\<close>

definition head_line :: "string \<Rightarrow> bool" where
  "head_line line = (CHR '';'' \<notin> set line \<and> CHR ''}'' \<notin> set line \<and> CHR ''{'' \<notin> set line)"

definition brace_line :: "string \<Rightarrow> bool" where
  "brace_line line = (CHR '';'' \<notin> set line \<and> CHR ''}'' \<notin> set line \<and> CHR ''{'' \<in> set line)"

lemma searches_DECL_END: "searches DECL_END_PAT line \<longleftrightarrow> CHR '';'' \<in> set line \<or> CHR ''}'' \<in> set line"
  unfolding searches_reach DECL_END_PAT_def in_set_conv_decomp by (auto simp: reach_simps) force+

lemma searches_BRACE: "searches BRACE_PAT line \<longleftrightarrow> CHR ''{'' \<in> set line"
  unfolding searches_reach BRACE_PAT_def by (auto simp: reach_simps in_set_conv_decomp)

lemma find_body_at_brace:
  "list_all head_line hs \<Longrightarrow> brace_line l \<Longrightarrow>
     find_body line j (hs @ l # rest) =
       map_option Body (function_title line (j @ concat (map (\<lambda>h. '' '' @ ulstrip h) (hs @ [l]))))"
  by (induction hs arbitrary: j)
     (simp_all add: head_line_def brace_line_def searches_DECL_END searches_BRACE Let_def)

lemma lines_upto:
  "b \<le> k \<Longrightarrow> k < length ls \<Longrightarrow> drop b ls = map ((!) ls) [b..<k] @ ls ! k # drop (Suc k) ls"
  by (induction rule: inc_induct) (simp_all add: Cons_nth_drop_Suc upt_conv_Cons flip: Cons_nth_drop_Suc)

lemma opening_line:
  assumes "b \<le> k" "k < length (lines cl)" "starting_func (lines cl ! b) = Some True"
    and "\<forall>n \<in> {b..<k}. head_line (lines cl ! n)" "brace_line (lines cl ! k)"
  obtains title where
    "function_title (lines cl ! b) (concat (map (\<lambda>n. '' '' @ ulstrip (lines cl ! n)) [b..<Suc k])) = Some title"
    "CheckForFunctionLengths verbose cl b s = Some ([], fs_Begin title s)"
proof -
  obtain title where t: "function_title (lines cl ! b)
      (concat (map (\<lambda>n. '' '' @ ulstrip (lines cl ! n)) [b..<Suc k])) = Some title"
    using function_title_total starting_func_paren [OF assms(3)] by blast
  have "list_all head_line (map ((!) (lines cl)) [b..<k])" using assms(4) by (simp add: list_all_iff)
  then have "find_body (lines cl ! b) [] (drop b (lines cl)) = Some (Body title)"
    using find_body_at_brace [OF _ assms(5)] t assms(1,2) lines_upto [OF assms(1,2)] by (simp add: comp_def)
  then have "CheckForFunctionLengths verbose cl b s = Some ([], fs_Begin title s)"
    using assms(1-3) by (simp add: CheckForFunctionLengths_def Let_def)
  with t show ?thesis by (rule that)
qed

lemma fs_Begin_record:
  "fs_Begin title s = \<lparr>in_a_function = True, lines_in_function = 0, current_function = title\<rparr>"
  by (cases s) (simp add: fs_Begin_def)

lemma closing_line:
  assumes "m < length (lines cl)" "lines cl ! m = CHR ''}'' # w" "blank w"
  shows "CheckForFunctionLengths verbose cl m s =
     map_option (\<lambda>reports. (reports, fs_End s)) (fs_Check verbose (int m) s)"
proof -
  have "\<not> is_word (CHR ''}'')" by code_simp
  then have "starting_func (CHR ''}'' # w) = Some False" by (intro not_starting) simp
  then show ?thesis
    using assms FUNC_END [OF assms(3)] by (simp add: CheckForFunctionLengths_def Let_def split: option.split)
qed

text \<open>C26: A function is counted from its opening line to its closing brace in the first column,
  whatever the state was before: the line that opens it, whose head may go on over several lines up
  to the opening brace, resets the count and sets the name, and at the closing brace the size check
  sees the number of lines in between that are not blank, and the function is left.  No line in
  between has an identifier character or a closing brace in its first column, and there is no
  semicolon and no closing brace up to the line with the opening brace.\<close>

theorem function_body_counted:
  assumes "b \<le> k" "k < m" "m < length (lines cl)"
    and "starting_func (lines cl ! b) = Some True"
    and "\<forall>n \<in> {b..<k}. head_line (lines cl ! n)" "brace_line (lines cl ! k)"
    and "\<forall>n \<in> {Suc b..<m}. inside_line (lines cl ! n)"
    and "lines cl ! m = CHR ''}'' # w" "blank w"
  shows "\<exists>title.
     function_title (lines cl ! b) (concat (map (\<lambda>n. '' '' @ ulstrip (lines cl ! n)) [b..<Suc k])) = Some title \<and>
     lengths_run verbose cl [b..<Suc m] s =
       (let s' = \<lparr>in_a_function = True,
              lines_in_function = length (filter (\<lambda>n. \<not> blank (lines cl ! n)) [Suc b..<m]),
              current_function = title\<rparr>
        in map_option (\<lambda>reports. (reports, s'\<lparr>in_a_function := False\<rparr>)) (fs_Check verbose (int m) s'))"
proof -
  have k: "k < length (lines cl)" using assms(2,3) by simp
  obtain title where t: "function_title (lines cl ! b)
      (concat (map (\<lambda>n. '' '' @ ulstrip (lines cl ! n)) [b..<Suc k])) = Some title"
    "CheckForFunctionLengths verbose cl b s = Some ([], fs_Begin title s)"
    using opening_line [OF assms(1) k assms(4-6)] by blast
  have run: "[b..<Suc m] = b # [Suc b..<m] @ [m]" using assms(1,2) by (simp add: upt_conv_Cons)
  have "\<forall>n \<in> set [Suc b..<m]. n < length (lines cl) \<and> inside_line (lines cl ! n)"
    using assms(3,7) by auto
  note body = body_lines [OF this, of "fs_Begin title s" verbose "[m]"]
  have "lengths_run verbose cl [b..<Suc m] s = lengths_run verbose cl [m]
      \<lparr>in_a_function = True, lines_in_function = length (filter (\<lambda>n. \<not> blank (lines cl ! n)) [Suc b..<m]),
        current_function = title\<rparr>"
    unfolding run using t(2) body by (simp add: fs_Begin_record add_lines_def option.map_id case_prod_beta)
  also have "\<dots> = (let s' = \<lparr>in_a_function = True,
              lines_in_function = length (filter (\<lambda>n. \<not> blank (lines cl ! n)) [Suc b..<m]),
              current_function = title\<rparr>
        in map_option (\<lambda>reports. (reports, s'\<lparr>in_a_function := False\<rparr>)) (fs_Check verbose (int m) s'))"
    using closing_line [OF assms(3,8,9)] by (simp add: Let_def fs_End_def split: option.split)
  finally have "lengths_run verbose cl [b..<Suc m] s =
       (let s' = \<lparr>in_a_function = True,
              lines_in_function = length (filter (\<lambda>n. \<not> blank (lines cl ! n)) [Suc b..<m]),
              current_function = title\<rparr>
        in map_option (\<lambda>reports. (reports, s'\<lparr>in_a_function := False\<rparr>)) (fs_Check verbose (int m) s'))" .
  with t(1) show ?thesis by blast
qed

theorem function_body_counted_witness:
  "lengths_run 0 \<lparr>elided = [], lines = [''int f(int a,'', ''      int b)'', ''{'', ''  x = 1;'', '''', ''}''],
     raw_lines = [], lines_without_raw_strings = []\<rparr>
     [0..<Suc 5] \<lparr>in_a_function = True, lines_in_function = 99, current_function = ''g()''\<rparr> =
   Some ([], \<lparr>in_a_function = False, lines_in_function = 3, current_function = ''f()''\<rparr>)"
proof -
  let ?ls = "[''int f(int a,'', ''      int b)'', ''{'', ''  x = 1;'', '''', ''}'']"
  let ?cl = "\<lparr>elided = [], lines = ?ls, raw_lines = [], lines_without_raw_strings = []\<rparr>"
  let ?s = "\<lparr>in_a_function = True, lines_in_function = 99, current_function = ''g()''\<rparr>"
  let ?s' = "\<lparr>in_a_function = True, lines_in_function = 3, current_function = ''f()''\<rparr>"
  have "starting_func (lines ?cl ! 0) = Some True" by code_simp
  moreover have "\<forall>n \<in> {0..<2}. head_line (lines ?cl ! n)" by code_simp
  moreover have "brace_line (lines ?cl ! 2)" by code_simp
  moreover have "\<forall>n \<in> {Suc 0..<5}. inside_line (lines ?cl ! n)" by code_simp
  moreover have "lines ?cl ! 5 = CHR ''}'' # []" by simp
  moreover have "blank []" by (simp add: blank_def)
  ultimately obtain title where t: "function_title (lines ?cl ! 0)
      (concat (map (\<lambda>n. '' '' @ ulstrip (lines ?cl ! n)) [0..<Suc 2])) = Some title"
    and r: "lengths_run 0 ?cl [0..<Suc 5] ?s =
       (let s' = \<lparr>in_a_function = True,
              lines_in_function = length (filter (\<lambda>n. \<not> blank (lines ?cl ! n)) [Suc 0..<5]),
              current_function = title\<rparr>
        in map_option (\<lambda>reports. (reports, s'\<lparr>in_a_function := False\<rparr>)) (fs_Check 0 (int 5) s'))"
    using function_body_counted [of 0 2 5 ?cl "[]" 0 ?s] by auto
  have "function_title (lines ?cl ! 0)
      (concat (map (\<lambda>n. '' '' @ ulstrip (lines ?cl ! n)) [0..<Suc 2])) = Some ''f()''" by code_simp
  then have "title = ''f()''" using t by (metis option.inject)
  moreover have "length (filter (\<lambda>n. \<not> blank (lines ?cl ! n)) [Suc 0..<5]) = 3" by code_simp
  moreover have "fs_Check 0 (int 5) ?s' = Some []" by code_simp
  ultimately show ?thesis using r by (simp add: Let_def)
qed
end
