(* ===== verification/Juniper_Checks.thy ===== *)
theory Juniper_Checks
  imports Nesting Function_State
begin

text \<open>
  The argument list of a function that spans several lines (\<open>_FunctionArguments\<close>, lines 4011 to
  4075 of tools/scripts/cpplint.py) and the naming rules that Juniper added (lines 5845 to 6101).
  An index out of range is \<open>None\<close>.
\<close>

subsection \<open>Function arguments\<close>

record function_args =
  start_linenum :: nat
  end_linenum :: nat
  start_pos :: nat
  end_pos :: int
  function_name :: "string option"

definition init_function_args :: function_args where
  "init_function_args = \<lparr>start_linenum = 0, end_linenum = 0, start_pos = 0, end_pos = 0, function_name = None\<rparr>"

definition in_a_functin_arg :: "nat \<Rightarrow> function_args \<Rightarrow> bool" where
  "in_a_functin_arg linenum s = (start_linenum s \<le> linenum \<and> linenum \<le> end_linenum s)"

definition MEMBER_DECL_PAT :: rx where
  "MEMBER_DECL_PAT = rseq [RStar RSp, RGrp 1 (rseq [RWd, RStar (RGrp 2 (ralt [RWd, RLit ''::'',
     RLit ''*'', RLit ''&'', RSp]))]), RLit ''('']"

text \<open>The last word of what precedes the parenthesis; \<open>split()[-1]\<close> of an empty list raises.\<close>

definition last_word :: "string \<Rightarrow> string option" where
  "last_word s = (case split_ws is_uws s of [] \<Rightarrow> None | w # ws \<Rightarrow> Some (last (w # ws)))"

definition fa_begin :: "cleansed_lines \<Rightarrow> nat \<Rightarrow> string \<Rightarrow> function_args \<Rightarrow> function_args option" where
  "fa_begin clean_lines linenum name s =
     (let startpos = py_find (lines clean_lines ! linenum) ''(''
      in if startpos < 0 then Some s
         else (case CloseExpression clean_lines linenum (nat startpos) of
                 None \<Rightarrow> None
               | Some (endline, endlinenum, endpos) \<Rightarrow>
                   Some (if endpos \<ge> 0 then
                       \<lparr>start_linenum = linenum, end_linenum = endlinenum, start_pos = nat startpos,
                        end_pos = endpos, function_name = Some name\<rparr>
                     else s)))"

definition fa_Update :: "cleansed_lines \<Rightarrow> nat \<Rightarrow> function_args \<Rightarrow> function_args option" where
  "fa_Update clean_lines linenum s =
     (case Match MEMBER_DECL_PAT (lines clean_lines ! linenum) of
        None \<Rightarrow> Some s
      | Some match_result \<Rightarrow>
          (if in_a_functin_arg linenum s then Some s
           else (case last_word (grp match_result 1) of
                   None \<Rightarrow> None
                 | Some name \<Rightarrow>
                     (if name = ''TEST'' \<or> name = ''TEST_F'' \<or> \<not> matches MACRO_NAME_PAT name
                      then fa_begin clean_lines linenum name s
                      else Some s))))"

subsection \<open>Names of types\<close>

definition KEYWORDS :: "string list" where
  "KEYWORDS = [''static_assert'', ''hash'', ''iterator'', ''make_tuple'']"

definition EXCLUDE_AFI_MEMBER_FUNC :: "string list" where
  "EXCLUDE_AFI_MEMBER_FUNC = [''SetUp'', ''TearDown'', ''SetUpTestCase'', ''TearDownTestCase'']"

definition JuniperCheckIdentifierTypeName :: "nesting_state \<Rightarrow> nat \<Rightarrow> action list" where
  "JuniperCheckIdentifierTypeName s linenum =
     (case stack s of
        [] \<Rightarrow> []
      | b # _ \<Rightarrow>
          (if starting_linenum b = linenum then
             (case kind b of
                ClassInfo ci \<Rightarrow>
                  (let name = ci_name ci
                   in if name = [] then []
                      else if matches NOT_UPPER_PAT name \<and> name \<in> set KEYWORDS then []
                      else (if matches NOT_UPPER_PAT name then
                              [Report (int linenum) ''Juniper/Identifier'' 4
                                ((if \<not> is_struct ci then ''Class'' else ''Struct'') @ '' type name '' @
                                 [sq] @ name @ [sq] @ '' must begin with an upper case letter.'')]
                            else []) @
                           underscore_report linenum 4 name)
              | _ \<Rightarrow> [])
           else []))"

subsection \<open>Names of member functions\<close>

fun split_scope :: "string \<Rightarrow> string list" where
  "split_scope [] = [[]]"
| "split_scope (c # s) =
     (if startswith (c # s) ''::'' then [] # split_scope (tl s)
      else (case split_scope s of [] \<Rightarrow> [[c]] | w # ws \<Rightarrow> (c # w) # ws))"

text \<open>The names have no special characters of the pattern language.\<close>

definition CONSTRUCTOR_PAT :: "string \<Rightarrow> rx" where
  "CONSTRUCTOR_PAT name = rseq [RPlus RSp, ROpt (RGrp 1 (rseq [RLit ''inline'', RPlus RSp])),
     ROpt (rseq [RLit ''explicit'', RPlus RSp]), ROpt (RGrp 2 (rseq [RLit ''inline'',
     RPlus RSp])), RLit name, RStar RSp, RLit ''('', RGrp 3 (RStar (ralt [RNotIn [CI (CHR ''(''),
     CI (CHR '')'')], rseq [RLit ''('', RStar (RNotIn [CI (CHR ''(''), CI (CHR '')'')]),
     RLit '')'']])), ROpt (RLit '')'')]"

definition JuniperIsConstructor :: "string \<Rightarrow> nesting_state \<Rightarrow> bool" where
  "JuniperIsConstructor line s =
     (case InnermostClass s of
        Some b \<Rightarrow>
          (case kind b of
             ClassInfo ci \<Rightarrow>
               seen_open_brace b \<and>
               (matches (CONSTRUCTOR_PAT (last (split_scope (ci_name ci)))) line \<or>
                list_ex (\<lambda>parent. matches (CONSTRUCTOR_PAT parent) line) (parent_classes ci))
           | _ \<Rightarrow> False)
      | None \<Rightarrow> False)"

definition OPEN_BLOCK_PAT :: rx where
  "OPEN_BLOCK_PAT = rseq [RPlus RAny, RLit ''{'', RStar RSp, REol]"

definition OPERATOR_CALL_PAT :: rx where
  "OPERATOR_CALL_PAT = rseq [RStar RSp, RLit ''operator'', RStar RSp, RPlus RAny, RLit ''('']"

definition OPERATOR_OVERLOAD_PAT :: rx where
  "OPERATOR_OVERLOAD_PAT = rseq [RStar RSp, ROpt (RGrp 1 (rseq [RWd, RStar (RGrp 2 (ralt [RWd,
     RLit ''::'', RLit ''*'', RLit ''&'', RSp]))])), RStar RSp, RLit ''operator'', RWordB,
     RStar RSp, RPlus (RNotIn [CR (CHR ''a'') (CHR ''z''), CR (CHR ''A'') (CHR ''Z''),
     CR (CHR ''0'') (CHR ''9'')]), RStar RSp, RLit ''('']"

definition COLON_END_PAT :: rx where
  "COLON_END_PAT = rseq [RLit '':'', RStar RSp, REol]"

definition METHOD_NAME_PAT :: rx where
  "METHOD_NAME_PAT = rseq [RBol, ROpt (RLit ''_''), RIn [CR (CHR ''a'') (CHR ''z'')]]"

definition method_name_reports :: "nat \<Rightarrow> string \<Rightarrow> action list" where
  "method_name_reports linenum name =
     (if \<not> matches METHOD_NAME_PAT name then
        [Report (int linenum) ''Juniper/Identifier'' 3
          (''Method '' @ [sq] @ name @ [sq] @
           '' must begin with an optional _ followed by a lower case letter.'')]
      else []) @ underscore_report linenum 3 name"

text \<open>The base class constructor after the colon of a constructor on the previous line; the line
  before line 0 is the last one.\<close>

definition base_initializer :: "cleansed_lines \<Rightarrow> nat \<Rightarrow> nesting_state \<Rightarrow> bool option" where
  "base_initializer clean_lines linenum s =
     (case (py_index (elided clean_lines) (int linenum - 1), py_index (lines clean_lines) (int linenum - 1)) of
        (Some prev, Some prev_line) \<Rightarrow>
          Some (JuniperIsConstructor prev s \<and> searches COLON_END_PAT prev_line)
      | _ \<Rightarrow> None)"

definition in_class_scope :: "string \<Rightarrow> nesting_state \<Rightarrow> bool" where
  "in_class_scope line s = (InnermostClass s \<noteq> None \<and>
     (length (stack s) = 1 \<or> length (stack s) = 2 \<and> matches OPEN_BLOCK_PAT line))"

definition JuniperCheckMemberFunctionName ::
    "cleansed_lines \<Rightarrow> nat \<Rightarrow> nesting_state \<Rightarrow> action list option" where
  "JuniperCheckMemberFunctionName clean_lines linenum s =
     (let line = lines clean_lines ! linenum
      in if \<not> in_class_scope line s then Some []
         else (case Match MEMBER_DECL_PAT line of
                 None \<Rightarrow> Some []
               | Some match_result \<Rightarrow>
                   (if JuniperIsConstructor (elided clean_lines ! linenum) s then Some []
                    else (case last_word (grp match_result 1) of
                            None \<Rightarrow> None
                          | Some word \<Rightarrow>
                              (let name = lstrip_by (\<lambda>c. c = CHR ''*'') word
                               in if name \<in> set EXCLUDE_AFI_MEMBER_FUNC then Some []
                                  else if matches OPERATOR_CALL_PAT line then Some []
                                  else if matches OPERATOR_OVERLOAD_PAT line then Some []
                                  else if matches MACRO_NAME_PAT name then Some []
                                  else if name \<in> set KEYWORDS then Some []
                                  else map_option (\<lambda>base. if base then [] else method_name_reports linenum name)
                                         (base_initializer clean_lines linenum s))))))"

subsection \<open>Names of data members and variables\<close>

definition DATA_MEMBER_PAT :: rx where
  "DATA_MEMBER_PAT = rseq [RBol, RStar RSp, ROpt (ralt [RLit ''static'', RLit ''register'']),
     RStar RSp, ROpt (ralt [RLit ''const'', RLit ''volatile'']), RStar RSp, RGrp 1 (RPlus RWd),
     ralt [rseq [RStar RSp, RLit ''*'', RStar RSp], RPlus RSp], RGrp 2 (RPlus RWd), RStar RSp,
     RIn [CI (CHR '',''), CI (CHR '';''), CI (CHR ''=''), CI (CHR ''['')]]"

definition OPERATOR_MEMBER_PAT :: rx where
  "OPERATOR_MEMBER_PAT = rseq [RStar RSp, RGrp 1 (rseq [RWd, RStar (RGrp 2 (ralt [RWd,
     RLit ''::'', RLit ''*'', RLit ''&'', RSp]))]), RStar RSp, RLit ''operator'', RWordB,
     RStar RSp, RPlus (RNotIn [CR (CHR ''a'') (CHR ''z''), CR (CHR ''A'') (CHR ''Z''),
     CR (CHR ''0'') (CHR ''9'')]), RStar RSp, RLit ''('']"

definition MEMBER_NAME_PAT :: rx where
  "MEMBER_NAME_PAT = rseq [RLit ''_'', RIn [CR (CHR ''a'') (CHR ''z'')]]"

definition NOT_DATA_WORDS :: "string list" where
  "NOT_DATA_WORDS = [''class'', ''typename'', ''return'', ''using'', ''struct'', ''override'',
     ''friend'', ''namespace'', ''public'', ''private'', ''protected'']"

definition data_member_scope :: "nat \<Rightarrow> nesting_state \<Rightarrow> function_state \<Rightarrow> function_args \<Rightarrow> bool" where
  "data_member_scope linenum s fs fa =
     (\<not> in_a_function fs \<and> InnermostClass s \<noteq> None \<and> length (stack s) = 1 \<and>
      \<not> in_a_functin_arg linenum fa \<and>
      (case stack s of
         b # _ \<Rightarrow> \<not> (is_class b \<and> function_name fa = Some ''operator'' \<and> open_parentheses b = 1) \<and>
                  \<not> (is_class b \<and> \<not> seen_open_brace b)
       | [] \<Rightarrow> True))"

definition JuniperCheckDataMembers ::
    "cleansed_lines \<Rightarrow> nat \<Rightarrow> nesting_state \<Rightarrow> function_state \<Rightarrow> function_args \<Rightarrow> action list" where
  "JuniperCheckDataMembers clean_lines linenum s fs fa =
     (let line = elided clean_lines ! linenum
      in if \<not> data_member_scope linenum s fs fa then []
         else (case Match DATA_MEMBER_PAT line of
                 None \<Rightarrow> []
               | Some m \<Rightarrow>
                   (let variable = grp m 2
                    in if grp m 1 \<in> set NOT_DATA_WORDS \<or> variable = [] \<or> matches OPERATOR_MEMBER_PAT line then []
                       else (if \<not> matches MEMBER_NAME_PAT variable then
                               [Report (int linenum) ''Juniper/Identifier'' 3
                                 (''Data member '' @ [sq] @ variable @ [sq] @
                                  '' must begin with a _ followed by lower case letter.'')]
                             else []) @ underscore_report linenum 3 variable)))"

definition VARIABLE_PAT :: rx where
  "VARIABLE_PAT = rseq [RBol, RStar RSp, ROpt (ralt [RLit ''extern'', RLit ''static'',
     RLit ''register'']), RStar RSp, ROpt (ralt [RLit ''const'', RLit ''volatile'']), RStar RSp,
     RGrp 1 (RPlus RWd), ralt [rseq [RStar RSp, RLit ''*'', RStar RSp], RPlus RSp],
     RGrp 2 (RPlus RWd), RStar RSp, RIn [CI (CHR '',''), CI (CHR '';''), CI (CHR ''=''),
     CI (CHR ''['')]]"

definition UPPER_START_PAT :: rx where
  "UPPER_START_PAT = rseq [RBol, RIn [CR (CHR ''A'') (CHR ''Z'')]]"

definition NOT_VARIABLE_WORDS :: "string list" where
  "NOT_VARIABLE_WORDS = [''class'', ''typename'', ''return'', ''using'', ''struct'', ''override'', ''namespace'']"

definition JuniperCheckVariableName :: "cleansed_lines \<Rightarrow> nat \<Rightarrow> nesting_state \<Rightarrow> action list" where
  "JuniperCheckVariableName clean_lines linenum s =
     (let in_class = (case stack s of
            [] \<Rightarrow> False
          | b # _ \<Rightarrow> (case kind b of ClassInfo ci \<Rightarrow> \<not> is_struct ci | _ \<Rightarrow> False))
      in if in_class then []
         else (case Match VARIABLE_PAT (elided clean_lines ! linenum) of
                 None \<Rightarrow> []
               | Some m \<Rightarrow>
                   (let variable = grp m 2
                    in if grp m 1 \<in> set NOT_VARIABLE_WORDS \<or> variable = [] then []
                       else (if matches UPPER_START_PAT variable then
                               [Report (int linenum) ''Juniper/Identifier'' 4
                                 (''Variable name '' @ [sq] @ variable @ [sq] @
                                  '' must begin with a lower case letter.'')]
                             else []) @ underscore_report linenum 4 variable)))"

subsection \<open>When the tracking of arguments raises\<close>

lemma CloseExpression_raises:
  assumes "n < length (elided cl)"
  shows "CloseExpression cl n i = None \<longleftrightarrow> length (elided cl ! n) \<le> i"
proof (cases "i < length (elided cl ! n)")
  case True
  then show ?thesis using CloseExpression_bound [OF assms True] by auto
next
  case False
  then show ?thesis by (simp add: CloseExpression_def)
qed

lemma MEMBER_DECL_groups:
  assumes "Match MEMBER_DECL_PAT line = Some m"
  shows "CHR ''('' \<in> set line \<and> (\<exists>w. last_word (grp m 1) = Some w)"
proof -
  from assms obtain st where st: "reach MEMBER_DECL_PAT ([], line, []) st" "m = mk_mobj ([], line, []) st"
    by (rule Match_mem)
  define X where "X = RStar (RGrp 2 (ralt [RWd, RLit ''::'', RLit ''*'', RLit ''&'', RSp]))"
  from st(1) obtain u v s1 where l: "line = u @ v" and g: "reach (RGrp 1 (RSeq RWd X)) (rev u, v, []) s1"
    and e: "reach (RLit ''('') s1 st"
    unfolding MEMBER_DECL_PAT_def X_def [symmetric] rseq.simps reach_seq reach_star_set by auto
  from g [unfolded reach_grp_general] obtain w v' ds where w: "v = w @ v'"
    "reach (RSeq RWd X) (rev u, v, []) (rev w @ rev u, v', ds)" "s1 = (rev w @ rev u, v', (1, length u, w) # ds)"
    by auto
  from w(2) [unfolded reach_seq] obtain s2 where s2: "reach RWd (rev u, v, []) s2" "reach X s2 (rev w @ rev u, v', ds)"
    by blast
  then obtain c v'' where c: "v = c # v''" "is_word c" "s2 = (c # rev u, v'', [])" by (auto simp: reach_set)
  obtain w' where "v'' = w' @ v'" "rev w @ rev u = rev w' @ c # rev u"
    using s2(2) unfolding c(3) by (auto elim!: reach_advance)
  then have "w = c # w'" by (metis append_eq_append_conv append.assoc rev.simps(2) append_Cons append_Nil rev_rev_ident)
  then show ?thesis
    using st(2) e w(3) l w(1) c(2) word_not_space [of c] by (auto simp: reach_lit last_word_def)
qed

text \<open>The name of the function that begins on a line, unless it looks like a macro.\<close>

definition begins_function :: "string \<Rightarrow> string option" where
  "begins_function line =
     (case Match MEMBER_DECL_PAT line of
        None \<Rightarrow> None
      | Some m \<Rightarrow> (case last_word (grp m 1) of
          Some w \<Rightarrow> if w \<in> {''TEST'', ''TEST_F''} \<or> \<not> matches MACRO_NAME_PAT w then Some w else None
        | None \<Rightarrow> None))"

lemma fa_Update_alt:
  "fa_Update cl n s =
     (if in_a_functin_arg n s then Some s
      else (case begins_function (lines cl ! n) of None \<Rightarrow> Some s | Some w \<Rightarrow> fa_begin cl n w s))"
  using MEMBER_DECL_groups [of "lines cl ! n"]
  by (auto simp: fa_Update_def begins_function_def split: option.split)

lemma begins_function_paren: "begins_function line = Some w \<Longrightarrow> 0 \<le> py_find line ''(''"
  using MEMBER_DECL_groups [of line] contains_iff [of "''(''" line] split_list [of "CHR ''(''" line]
  by (fastforce simp: begins_function_def contains_def split: option.splits)

lemma method_name_shape:
  "matches METHOD_NAME_PAT name \<longleftrightarrow>
     (\<exists>c r. (name = c # r \<or> name = CHR ''_'' # c # r) \<and> is_lower c)"
  by (cases name; cases "tl name")
     (auto simp: matches_iff METHOD_NAME_PAT_def startswith_def is_lower_def ord_def)

lemma reach_star_char [reach_simps]:
  "reach (RStar (RLit [c])) st st' \<longleftrightarrow> reach (RStar (RSet (CPos [CI c]))) st st'"
proof -
  have "rx_all (RLit [c]) st = rx_all (RSet (CPos [CI c])) st" for st
    by (cases st rule: prod_cases3; cases "fst (snd st)") (auto simp: startswith_def)
  then have "rx_all (RLit [c]) = rx_all (RSet (CPos [CI c]))" by blast
  then show ?thesis by (simp only: reach_def rx_all.simps)
qed

definition is_alnum :: "char \<Rightarrow> bool" where
  "is_alnum c \<longleftrightarrow> is_lower c \<or> is_upper c \<or> is_digit c"

lemma in_alnum [simp]:
  "in_cset (CPos [CR (CHR ''a'') (CHR ''z''), CR (CHR ''A'') (CHR ''Z''), CR (CHR ''0'') (CHR ''9'')]) c = is_alnum c"
  by (auto simp: is_alnum_def is_lower_def is_upper_def is_digit_def ord_def)

lemma underscores: "list_all (in_cset (CPos [CI x])) w \<longleftrightarrow> w = replicate (length w) x"
  by (induction w) auto

lemma reach_seqI: "reach r1 st st1 \<Longrightarrow> reach r2 st1 st' \<Longrightarrow> reach (RSeq r1 r2) st st'"
  unfolding reach_seq by blast

lemma inner_underscore_shape:
  "searches INNER_UNDERSCORE_PAT name \<longleftrightarrow>
     (\<exists>u a k b v. name = u @ a # replicate (Suc k) (CHR ''_'') @ b # v \<and> is_alnum a \<and> is_alnum b)"
  (is "?l \<longleftrightarrow> ?r")
proof
  assume ?l
  then obtain u a w b v where "name = u @ a # CHR ''_'' # w @ b # v" "w = replicate (length w) (CHR ''_'')"
    "is_alnum a" "is_alnum b"
    by (auto simp: searches_reach INNER_UNDERSCORE_PAT_def reach_simps underscores simp del: in_cset.simps)
  then show ?r by (metis append_Cons replicate_Suc)
next
  assume ?r
  then obtain u a k b v where name: "name = u @ a # CHR ''_'' # replicate k (CHR ''_'') @ b # v"
    "is_alnum a" "is_alnum b" by auto
  let ?w = "replicate k (CHR ''_'')"
  have "reach INNER_UNDERSCORE_PAT (rev u, a # CHR ''_'' # ?w @ b # v, [])
      (b # rev ?w @ CHR ''_'' # a # rev u, v, [])"
  proof -
    have "reach (RStar (RLit ''_'')) (CHR ''_'' # a # rev u, ?w @ b # v, [])
        (rev ?w @ CHR ''_'' # a # rev u, b # v, [])"
      unfolding reach_star_char reach_star_set underscores by (intro exI [of _ ?w] exI [of _ "b # v"]) simp
    moreover have "reach (RLit ''_'') (a # rev u, CHR ''_'' # ?w @ b # v, []) (CHR ''_'' # a # rev u, ?w @ b # v, [])"
      by (simp add: reach_lit)
    ultimately show ?thesis
      unfolding INNER_UNDERSCORE_PAT_def rseq.simps using name(2,3)
      by (intro reach_seqI) (auto simp: reach_set simp del: in_cset.simps)
  qed
  then show ?l using name(1) unfolding searches_reach by blast
qed

subsection \<open>Properties\<close>

text \<open>C36: Tracking the argument lists raises exactly on a line, outside a known argument list, that
  begins a function and whose elided copy is too short to have a character at the column at which
  the other copy has its first parenthesis.\<close>

theorem argument_tracking_raises:
  assumes "n < length (elided cl)"
  shows "fa_Update cl n s = None \<longleftrightarrow>
    \<not> in_a_functin_arg n s \<and> begins_function (lines cl ! n) \<noteq> None \<and>
    int (length (elided cl ! n)) \<le> py_find (lines cl ! n) ''(''"
proof (cases "begins_function (lines cl ! n)")
  case None
  then show ?thesis by (simp add: fa_Update_alt)
next
  case (Some w)
  then have "0 \<le> py_find (lines cl ! n) ''(''" by (rule begins_function_paren)
  then show ?thesis
    using CloseExpression_raises [OF assms, of "nat (py_find (lines cl ! n) ''('')"] Some
    by (auto simp: fa_Update_alt fa_begin_def Let_def split: option.split)
qed

text \<open>Two comments, each with a quote, around the name of the function are such a line.\<close>

definition quoted_comments :: "string list" where
  "quoted_comments = [''// marker'', ''/*'' @ [dq] @ ''*/ abcdefgh /*'' @ [dq] @ ''*/ (x'']"

theorem argument_tracking_raises_witness:
  "\<exists>cl. CleansedLines quoted_comments = Some cl \<and> fa_Update cl 1 init_function_args = None"
proof -
  have "CleansedLines quoted_comments = Some \<lparr>elided = [[], ''(x''], lines = [[], ''abcdefgh (x''],
      raw_lines = quoted_comments, lines_without_raw_strings = quoted_comments\<rparr>" (is "_ = Some ?cl")
    by code_simp
  moreover have "begins_function ''abcdefgh (x'' \<noteq> None" "py_find ''abcdefgh (x'' ''('' = 9"
    "\<not> in_a_functin_arg 1 init_function_args" by code_simp+
  ultimately show ?thesis using argument_tracking_raises [of 1 ?cl init_function_args] by simp
qed

text \<open>C37: The rule for the names of member functions accepts exactly the names that begin with a lower
  case letter, after an optional underscore, and have no underscores between two letters or
  digits.\<close>

theorem method_names_accepted:
  "method_name_reports n name = [] \<longleftrightarrow>
    (\<exists>c r. (name = c # r \<or> name = CHR ''_'' # c # r) \<and> is_lower c) \<and>
    \<not> (\<exists>u a k b v. name = u @ a # replicate (Suc k) (CHR ''_'') @ b # v \<and> is_alnum a \<and> is_alnum b)"
  unfolding method_name_shape [symmetric] inner_underscore_shape [symmetric]
  by (simp add: method_name_reports_def underscore_report_def)

end
