(* ===== verification/Construct_Checks.thy ===== *)
theory Construct_Checks
  imports Juniper_Checks
begin

text \<open>
  Non-standard constructs, constructors and function calls (tools/scripts/cpplint.py, lines 2789 to
  3023), and redundant virtual specifiers (lines 5686 to 5747).  An index out of range is \<open>None\<close>.
\<close>

subsection \<open>Constructs of a single line\<close>

definition PRINTF_Q_PAT :: rx where
  "PRINTF_Q_PAT = rseq [RLit ''printf'', RStar RSp, RLit ''('', RStar RAny, RLit [dq],
     RStar RAny, RLit ''%'', ROpt (RIn [CI (CHR ''-''), CI (CHR ''+''), CI (CHR '' '')]),
     RStar (RIn [CDigit]), RLit ''q'']"

definition PRINTF_N_PAT :: rx where
  "PRINTF_N_PAT = rseq [RLit ''printf'', RStar RSp, RLit ''('', RStar RAny, RLit [dq],
     RStar RAny, RLit ''%'', RPlus (RIn [CDigit]), RLit ''$'']"

definition UNDEFINED_ESCAPE_PAT :: rx where
  "UNDEFINED_ESCAPE_PAT = rseq [RGrp 1 (ralt [RLit [dq], RLit [sq]]), RStar RAny, RLit [bs],
     RGrp 2 (ralt [RLit ''%'', RLit ''['', RLit ''('', RLit ''{''])]"

definition STORAGE_CLASS_PAT :: rx where
  "STORAGE_CLASS_PAT = rseq [RWordB, RGrp 1 (ralt [RLit ''const'', RLit ''volatile'',
     RLit ''void'', RLit ''char'', RLit ''short'', RLit ''int'', RLit ''long'', RLit ''float'',
     RLit ''double'', RLit ''signed'', RLit ''unsigned'', RLit ''schar'',
     rseq [ROpt (RLit ''u''), RLit ''int8''], rseq [ROpt (RLit ''u''), RLit ''int16''],
     rseq [ROpt (RLit ''u''), RLit ''int32''], rseq [ROpt (RLit ''u''), RLit ''int64'']]),
     RPlus RSp, RGrp 2 (ralt [RLit ''register'', RLit ''static'', RLit ''extern'',
     RLit ''typedef'']), RWordB]"

definition ENDIF_TEXT_PAT :: rx where
  "ENDIF_TEXT_PAT = rseq [RStar RSp, RLit ''#'', RStar RSp, RLit ''endif'', RStar RSp,
     RPlus (RNotIn [CI (CHR ''/''), CSpace])]"

definition INNER_FORWARD_PAT :: rx where
  "INNER_FORWARD_PAT = rseq [RStar RSp, RLit ''class'', RPlus RSp,
     RPlus (RGrp 1 (rseq [RPlus RWd, RStar RSp, RLit ''::'', RStar RSp])), RPlus RWd, RStar RSp,
     RLit '';'']"

definition MAX_MIN_PAT :: rx where
  "MAX_MIN_PAT = rseq [RGrp 1 (ralt [RPlus RWd, rseq [ROpt (RIn [CI (CHR ''+''),
     CI (CHR ''-'')]), RPlus (RIn [CDigit]), ROpt (RGrp 2 (rseq [RLit ''.'',
     RStar (RIn [CDigit])]))]]), RStar RSp, RGrp 3 (ralt [RLit ''<'', RLit ''>'']), RLit ''?'',
     ROpt (RLit ''=''), RStar RSp, RGrp 4 (ralt [RPlus RWd, rseq [ROpt (RIn [CI (CHR ''+''),
     CI (CHR ''-'')]), RPlus (RIn [CDigit])]]), ROpt (RGrp 5 (rseq [RLit ''.'',
     RStar (RIn [CDigit])]))]"

definition STRING_REF_PAT :: rx where
  "STRING_REF_PAT = rseq [RBol, RStar RSp, RLit ''const'', RStar RSp, RLit ''string'', RStar RSp,
     RLit ''&'', RStar RSp, RPlus RWd, RStar RSp, RLit '';'']"

definition nonstandard_reports :: "cleansed_lines \<Rightarrow> nat \<Rightarrow> action list" where
  "nonstandard_reports clean_lines linenum =
     (let n = int linenum; line = lines clean_lines ! linenum;
          unescaped = py_replace [bs, bs] [] line; code = elided clean_lines ! linenum
      in (if searches PRINTF_Q_PAT line then [Report n ''runtime/printf_format'' 3
            ''%q in format strings is deprecated.  Use %ll instead.''] else []) @
         (if searches PRINTF_N_PAT line then [Report n ''runtime/printf_format'' 2
            ''%N$ formats are unconventional.  Try rewriting to avoid them.''] else []) @
         (if searches UNDEFINED_ESCAPE_PAT unescaped then [Report n ''build/printf_format'' 3
            ''%, [, (, and { are undefined character escapes.  Unescape them.''] else []) @
         (if searches STORAGE_CLASS_PAT code then [Report n ''build/storage_class'' 5
            ''Storage-class specifier (static, extern, typedef, etc) should be at the beginning of the declaration.'']
          else []) @
         (if matches ENDIF_TEXT_PAT code then [Report n ''build/endif_comment'' 5
            ''Uncommented text after #endif is non-standard.  Use a comment.''] else []) @
         (if matches INNER_FORWARD_PAT code then [Report n ''build/forward_decl'' 5
            ''Inner-style forward declarations are invalid.  Remove this line.''] else []) @
         (if searches MAX_MIN_PAT code then [Report n ''build/deprecated'' 3
            ''>? and <? (max and min) operators are non-standard and deprecated.''] else []) @
         (if searches STRING_REF_PAT code then [Report n ''runtime/member_string_references'' 2
            ''const string& members are dangerous. It is much better to use alternatives, such as pointers or simple constants.'']
          else []))"

subsection \<open>Constructors\<close>

definition EXPLICIT_PAT :: "string \<Rightarrow> rx" where
  "EXPLICIT_PAT name = rseq [RPlus RSp, RStar (rseq [ralt [RLit ''inline'', RLit ''constexpr''],
     RPlus RSp]), ROpt (RGrp 1 (rseq [RLit ''explicit'', RPlus RSp])),
     RStar (rseq [ralt [RLit ''inline'', RLit ''constexpr''], RPlus RSp]), RLit name, RStar RSp,
     RLit ''('', RGrp 2 (RStar (ralt [RNotIn [CI (CHR ''(''), CI (CHR '')'')], rseq [RLit ''('',
     RStar (RNotIn [CI (CHR ''(''), CI (CHR '')'')]), RLit '')'']])), RLit '')'']"

definition INITIALIZER_LIST_PAT :: rx where
  "INITIALIZER_LIST_PAT = rseq [RWordB, RLit ''std'', RStar RSp, RLit ''::'', RStar RSp,
     RLit ''initializer_list'', RWordB]"

definition COPY_PAT :: "string \<Rightarrow> rx" where
  "COPY_PAT name = rseq [ROpt (RGrp 1 (rseq [RLit ''const'', RPlus RSp])), RLit name,
     ROpt (RGrp 2 (rseq [RStar RSp, RLit ''<'', RStar (RNotIn [CI (CHR ''>'')]), RLit ''>''])),
     ROpt (RGrp 3 (rseq [RPlus RSp, RLit ''const''])), RStar RSp, ROpt (rseq [RLit ''<'',
     RPlus RWd, RLit ''>'', RStar RSp]), RLit ''&'']"

definition unclosed :: "string \<Rightarrow> bool" where
  "unclosed arg = (py_count ''<'' arg > py_count ''>'' arg \<or> py_count ''('' arg > py_count '')'' arg)"

text \<open>The inner loop, which joins an argument with those that follow until its brackets are closed;
  it raises when there are none left.\<close>

fun absorb :: "string \<Rightarrow> string list \<Rightarrow> (string \<times> string list) option" where
  "absorb arg [] = (if unclosed arg then None else Some (arg, []))"
| "absorb arg (next # rest) =
     (if unclosed arg then absorb (arg @ '','' @ next) rest else Some (arg, next # rest))"

lemma absorb_length: "absorb arg rest = Some (arg', rest') \<Longrightarrow> length rest' \<le> length rest"
  by (induction arg rest rule: absorb.induct) (auto split: if_splits)

function collapse_args :: "string list \<Rightarrow> string list option" where
  "collapse_args [] = Some []"
| "collapse_args (arg # args) =
     (case absorb arg args of
        None \<Rightarrow> None
      | Some (arg', rest) \<Rightarrow> map_option ((#) arg') (collapse_args rest))"
  by pat_completeness auto
termination
  by (relation "measure length") (auto dest: absorb_length)

definition explicit_reports :: "nat \<Rightarrow> string \<Rightarrow> bool \<Rightarrow> string list \<Rightarrow> action list" where
  "explicit_reports linenum base_classname is_marked_explicit args =
     (let n = int linenum;
          defaulted_args = filter (\<lambda>arg. contains ''='' arg) args;
          noarg_constructor = (args = [] \<or> length args = 1 \<and> ustrip (args ! 0) = ''void'');
          onearg_constructor =
            (length args = 1 \<and> \<not> noarg_constructor \<or>
             length args \<ge> 1 \<and> \<not> noarg_constructor \<and> length defaulted_args + 1 \<ge> length args);
          initializer_list_constructor = (onearg_constructor \<and> searches INITIALIZER_LIST_PAT (args ! 0));
          copy_constructor = (onearg_constructor \<and> matches (COPY_PAT base_classname) (ustrip (args ! 0)))
      in if \<not> is_marked_explicit \<and> onearg_constructor \<and> \<not> initializer_list_constructor \<and> \<not> copy_constructor then
           (if defaulted_args \<noteq> [] then [Report n ''runtime/explicit'' 5
              ''Constructors callable with one argument should be marked explicit.'']
            else [Report n ''runtime/explicit'' 5
              ''Single-parameter constructors should be marked explicit.''])
         else if is_marked_explicit \<and> \<not> onearg_constructor \<and> noarg_constructor then
           [Report n ''runtime/explicit'' 5
              ''Zero-parameter constructors should not be marked explicit.'']
         else [])"

definition constructor_reports :: "nat \<Rightarrow> string \<Rightarrow> string \<Rightarrow> action list option" where
  "constructor_reports linenum base_classname line =
     (case Match (EXPLICIT_PAT base_classname) line of
        None \<Rightarrow> Some []
      | Some m \<Rightarrow>
          map_option (explicit_reports linenum base_classname (group m 1 \<noteq> None))
            (collapse_args (if grp m 2 = [] then [] else split_char (CHR '','') (grp m 2))))"

definition CheckForNonStandardConstructs ::
    "cleansed_lines \<Rightarrow> nat \<Rightarrow> nesting_state \<Rightarrow> action list option" where
  "CheckForNonStandardConstructs clean_lines linenum s =
     map_option (\<lambda>as. nonstandard_reports clean_lines linenum @ as)
       (case InnermostClass s of
          None \<Rightarrow> Some []
        | Some b \<Rightarrow>
            (case kind b of
               ClassInfo ci \<Rightarrow>
                 (if \<not> seen_open_brace b then Some []
                  else constructor_reports linenum (last (split_scope (ci_name ci))) (elided clean_lines ! linenum))
             | _ \<Rightarrow> Some []))"

subsection \<open>Function calls\<close>

definition IF_CALL_PAT :: rx where
  "IF_CALL_PAT = rseq [RWordB, RLit ''if'', RStar RSp, RLit ''('', RGrp 1 (RStar RAny),
     RLit '')'', RStar RSp, RLit ''{'']"

definition FOR_CALL_PAT :: rx where
  "FOR_CALL_PAT = rseq [RWordB, RLit ''for'', RStar RSp, RLit ''('', RGrp 1 (RStar RAny),
     RLit '')'', RStar RSp, RLit ''{'']"

definition WHILE_CALL_PAT :: rx where
  "WHILE_CALL_PAT = rseq [RWordB, RLit ''while'', RStar RSp, RLit ''('', RGrp 1 (RStar RAny),
     RLit '')'', RStar RSp, RIn [CI (CHR ''{''), CI (CHR '';'')]]"

definition SWITCH_CALL_PAT :: rx where
  "SWITCH_CALL_PAT = rseq [RWordB, RLit ''switch'', RStar RSp, RLit ''('', RGrp 1 (RStar RAny),
     RLit '')'', RStar RSp, RLit ''{'']"

text \<open>What the first of the control statements that matches has between its parentheses.\<close>

fun inside_control :: "rx list \<Rightarrow> string \<Rightarrow> string" where
  "inside_control [] line = line"
| "inside_control (p # ps) line =
     (case Search p line of Some m \<Rightarrow> grp m 1 | None \<Rightarrow> inside_control ps line)"

definition CONTROL_WORD_PAT :: rx where
  "CONTROL_WORD_PAT = rseq [RWordB, RGrp 1 (ralt [RLit ''if'', RLit ''for'', RLit ''while'',
     RLit ''switch'', RLit ''return'', RLit ''new'', RLit ''delete'', RLit ''catch'',
     RLit ''sizeof'']), RWordB]"

definition FUNCTION_POINTER_PAT :: rx where
  "FUNCTION_POINTER_PAT = rseq [RLit '' ('', RPlus (RNotIn [CI (CHR '')'')]), RLit '')('',
     RStar (RNotIn [CI (CHR '')'')]), RGrp 1 (ralt [RLit '')'', rseq [RLit '','', REol]])]"

definition ARRAY_POINTER_PAT :: rx where
  "ARRAY_POINTER_PAT = rseq [RLit '' ('', RPlus (RNotIn [CI (CHR '')'')]), RLit '')['',
     RPlus (RNotIn [CI (CHR '']'')]), RLit '']'']"

definition CALL_SPACE_PAT :: rx where
  "CALL_SPACE_PAT = rseq [RWd, RStar RSp, RLit ''('', RSp, RNLook (rseq [RStar RSp, RLit [bs],
     REol])]"

definition PAREN_SPACE_PAT :: rx where
  "PAREN_SPACE_PAT = rseq [RLit ''('', RPlus RSp, RNLook (ralt [RGrp 1 (rseq [RStar RSp,
     RLit [bs]]), RLit ''(''])]"

definition SPACE_PAREN_PAT :: rx where
  "SPACE_PAREN_PAT = rseq [RWd, RPlus RSp, RLit ''('']"

definition ASM_VOLATILE_PAT :: rx where
  "ASM_VOLATILE_PAT = rseq [RUpTo 2 (RLit ''_''), RLit ''asm'', RUpTo 2 (RLit ''_''), RPlus RSp,
     RUpTo 2 (RLit ''_''), RLit ''volatile'', RUpTo 2 (RLit ''_''), RPlus RSp, RLit ''('']"

definition DEFINE_USING_PAT :: rx where
  "DEFINE_USING_PAT = ralt [rseq [RLit ''#'', RStar RSp, RLit ''define''], RLit ''typedef'',
     rseq [RLit ''using'', RPlus RSp, RPlus RWd, RStar RSp, RLit ''='']]"

definition MEMBER_POINTER_PAT :: rx where
  "MEMBER_POINTER_PAT = rseq [RWd, RPlus RSp, RLit ''('', RStar (RGrp 1 (rseq [RPlus RWd,
     RLit ''::''])), RLit ''*'', RPlus RWd, RLit '')('']"

definition CASE_PAREN_PAT :: rx where
  "CASE_PAREN_PAT = rseq [RWordB, RLit ''case'', RPlus RSp, RLit ''('']"

definition OPERATOR_WORD_PAT :: rx where
  "OPERATOR_WORD_PAT = rseq [RWordB, RLit ''operator'', RStar (RLit ''_''), RWordB]"

definition SPACE_CLOSE_PAT :: rx where
  "SPACE_CLOSE_PAT = rseq [RNotIn [CI (CHR '')'')], RPlus RSp, RLit '')'', RStar RSp,
     RNotIn [CI (CHR ''{''), CSpace]]"

definition LONE_CLOSE_PAT :: rx where
  "LONE_CLOSE_PAT = rseq [RBol, RPlus RSp, RLit '')'']"

definition CheckSpacingForFunctionCall :: "cleansed_lines \<Rightarrow> nat \<Rightarrow> action list" where
  "CheckSpacingForFunctionCall clean_lines linenum =
     (let n = int linenum; line = elided clean_lines ! linenum;
          fncall = inside_control [IF_CALL_PAT, FOR_CALL_PAT, WHILE_CALL_PAT, SWITCH_CALL_PAT] line
      in if \<not> searches CONTROL_WORD_PAT fncall \<and> \<not> searches FUNCTION_POINTER_PAT fncall \<and>
            \<not> searches ARRAY_POINTER_PAT fncall then
           (if searches CALL_SPACE_PAT fncall then [Report n ''whitespace/parens'' 4
              ''Extra space after ( in function call'']
            else if searches PAREN_SPACE_PAT fncall then [Report n ''whitespace/parens'' 2
              ''Extra space after ('']
            else []) @
           (if searches SPACE_PAREN_PAT fncall \<and> \<not> searches ASM_VOLATILE_PAT fncall \<and>
               \<not> searches DEFINE_USING_PAT fncall \<and> \<not> searches MEMBER_POINTER_PAT fncall \<and>
               \<not> searches CASE_PAREN_PAT fncall
            then [Report n ''whitespace/parens'' (if searches OPERATOR_WORD_PAT line then 0 else 4)
              ''Extra space before ( in function call'']
            else []) @
           (if searches SPACE_CLOSE_PAT fncall then
              (if searches LONE_CLOSE_PAT fncall then [Report n ''whitespace/parens'' 2
                 ''Closing ) should be moved to the previous line'']
               else [Report n ''whitespace/parens'' 2 ''Extra space before )''])
            else [])
         else [])"

subsection \<open>Redundant virtual\<close>

definition VIRTUAL_PAT :: rx where
  "VIRTUAL_PAT = rseq [RBol, RGrp 1 (RStar RAny), RGrp 2 (rseq [RWordB, RLit ''virtual'',
     RWordB]), RGrp 3 (RStar RAny), REol]"

definition ACCESS_BEFORE_PAT :: rx where
  "ACCESS_BEFORE_PAT = rseq [RWordB, RGrp 1 (ralt [RLit ''public'', RLit ''protected'',
     RLit ''private'']), RPlus RSp, REol]"

definition ACCESS_AFTER_PAT :: rx where
  "ACCESS_AFTER_PAT = rseq [RBol, RPlus RSp, RGrp 1 (ralt [RLit ''public'', RLit ''protected'',
     RLit ''private'']), RWordB]"

definition SINGLE_COLON_PAT :: rx where
  "SINGLE_COLON_PAT = rseq [RBol, RStar RAny, RNotIn [CI (CHR '':'')], RLit '':'',
     RNotIn [CI (CHR '':'')], RStar RAny, REol]"

definition PARAMETER_LIST_PAT :: rx where
  "PARAMETER_LIST_PAT = rseq [RBol, RGrp 1 (RStar (RNotIn [CI (CHR ''('')])), RLit ''('']"

definition OVERRIDE_FINAL_PAT :: rx where
  "OVERRIDE_FINAL_PAT = rseq [RWordB, RGrp 1 (ralt [RLit ''override'', RLit ''final'']), RWordB]"

definition NOT_WORD_END_PAT :: rx where
  "NOT_WORD_END_PAT = rseq [RNotIn [CWord], RStar RSp, REol]"

text \<open>The end of the parameter list, looked for on the given lines: its line and column, with column
  -1 when there is none.\<close>

fun parameter_end :: "cleansed_lines \<Rightarrow> nat \<Rightarrow> nat list \<Rightarrow> (nat \<times> int) option" where
  "parameter_end clean_lines start_col [] = Some (0, -1)"
| "parameter_end clean_lines start_col (start_line # ls) =
     (case Match PARAMETER_LIST_PAT (drop start_col (elided clean_lines ! start_line)) of
        Some m \<Rightarrow>
          map_option (\<lambda>(_, end_line, end_col). (end_line, end_col))
            (CloseExpression clean_lines start_line (start_col + length (grp m 1)))
      | None \<Rightarrow> parameter_end clean_lines 0 ls)"

fun specifier_reports :: "cleansed_lines \<Rightarrow> nat \<Rightarrow> nat \<Rightarrow> nat list \<Rightarrow> action list" where
  "specifier_reports clean_lines linenum end_col [] = []"
| "specifier_reports clean_lines linenum end_col (i # is) =
     (let line = drop end_col (elided clean_lines ! i)
      in (case Search OVERRIDE_FINAL_PAT line of
            None \<Rightarrow> []
          | Some m \<Rightarrow> [Report (int linenum) ''readability/inheritance'' 4
              (([dq] @ ''virtual'' @ [dq] @ '' is redundant since function is already declared as '' @ [dq]) @ grp m 1 @ [dq])]) @
         (if searches NOT_WORD_END_PAT line then [] else specifier_reports clean_lines linenum 0 is))"

definition CheckRedundantVirtual :: "cleansed_lines \<Rightarrow> nat \<Rightarrow> action list option" where
  "CheckRedundantVirtual clean_lines linenum =
     (let line = elided clean_lines ! linenum
      in case Match VIRTUAL_PAT line of
           None \<Rightarrow> Some []
         | Some virtual \<Rightarrow>
             (if searches ACCESS_BEFORE_PAT (grp virtual 1) \<or> matches ACCESS_AFTER_PAT (grp virtual 3) then Some []
              else if matches SINGLE_COLON_PAT line then Some []
              else (case parameter_end clean_lines (length (grp virtual 2))
                           [linenum..<min (linenum + 3) (NumLines clean_lines)] of
                      None \<Rightarrow> None
                    | Some (end_line, end_col) \<Rightarrow>
                        (if end_col < 0 then Some []
                         else Some (specifier_reports clean_lines linenum (nat end_col)
                                [end_line..<min (end_line + 3) (NumLines clean_lines)])))))"

subsection \<open>Collapsed argument lists\<close>

lemma py_join_merge:
  "py_join '','' ((a @ CHR '','' # b) # ws) = a @ CHR '','' # py_join '','' (b # ws)"
  by (cases ws) simp_all

lemma absorb_join:
  "absorb arg rest = Some (arg', rest') \<Longrightarrow>
     py_join '','' (arg' # rest') = py_join '','' (arg # rest) \<and> \<not> unclosed arg'"
  by (induction arg rest rule: absorb.induct) (auto simp: py_join_merge split: if_splits)

lemma collapse_args_join:
  "collapse_args args = Some r \<Longrightarrow> py_join '','' r = py_join '','' args \<and> list_all (\<lambda>a. \<not> unclosed a) r"
proof (induction args arbitrary: r rule: collapse_args.induct)
  case (2 arg args)
  then obtain arg' rest r' where a: "absorb arg args = Some (arg', rest)" "collapse_args rest = Some r'"
    "r = arg' # r'" by (auto split: option.splits)
  have "py_join '','' (arg' # r') = py_join '','' (arg' # rest)" "list_all (\<lambda>a. \<not> unclosed a) r'"
    using 2(1) [OF a(1) refl a(2)] a(2) by (cases rest; cases r'; auto split: option.splits)+
  then show ?case using absorb_join [OF a(1)] a(3) by simp
qed simp

text \<open>
  Pieces of the argument list that make up one argument: joined with commas they have no more
  opening than closing brackets, of either kind, and this holds for no shorter joining from the
  first piece on.  \<open>never_complete\<close>: no joining from the first piece on gets there.
\<close>

definition open_bracket :: "string \<Rightarrow> bool" where
  "open_bracket s = (count_list s (CHR ''<'') > count_list s (CHR ''>'') \<or>
     count_list s (CHR ''('') > count_list s (CHR '')''))"

lemma unclosed_open [simp]: "unclosed = open_bracket"
  by (intro ext) (simp add: unclosed_def open_bracket_def py_count_char)

definition complete_arg :: "string list \<Rightarrow> bool" where
  "complete_arg g = (g \<noteq> [] \<and> \<not> open_bracket (py_join '','' g) \<and>
     list_all (\<lambda>m. open_bracket (py_join '','' (take m g))) [1..<length g])"

definition never_complete :: "string list \<Rightarrow> bool" where
  "never_complete g = (g \<noteq> [] \<and> list_all (\<lambda>m. open_bracket (py_join '','' (take m g))) [1..<Suc (length g)])"

lemma all_prefixes_Cons:
  "list_all (\<lambda>m. open_bracket (py_join '','' (take m (a # x # us)))) [1..<Suc (Suc n)] \<longleftrightarrow>
     open_bracket a \<and> list_all (\<lambda>m. open_bracket (py_join '','' (take m ((a @ '','' @ x) # us)))) [1..<Suc n]"
proof -
  have "[1..<Suc (Suc n)] = 1 # map Suc [1..<Suc n]"
    unfolding map_Suc_upt by (subst upt_conv_Cons) simp_all
  moreover have "list_all (\<lambda>m. open_bracket (py_join '','' (take (Suc m) (a # x # us)))) [1..<Suc n] \<longleftrightarrow>
      list_all (\<lambda>m. open_bracket (py_join '','' (take m ((a @ '','' @ x) # us)))) [1..<Suc n]"
  proof (rule list.pred_cong [OF refl])
    fix m assume "m \<in> set [1..<Suc n]"
    then have "1 \<le> m" by (simp only: set_upt atLeastLessThan_iff)
    then obtain k where "m = Suc k" by (cases m) simp_all
    then show "open_bracket (py_join '','' (take (Suc m) (a # x # us))) =
        open_bracket (py_join '','' (take m ((a @ '','' @ x) # us)))" by (simp add: py_join_merge)
  qed
  ultimately show ?thesis by (simp add: list.pred_map comp_def)
qed

lemma absorb_complete:
  "absorb arg rest = Some (arg', rest') \<longleftrightarrow>
     (\<exists>us. rest = us @ rest' \<and> complete_arg (arg # us) \<and> arg' = py_join '','' (arg # us))"
proof (induction arg rest rule: absorb.induct)
  case (2 arg x rest)
  show ?case
  proof (cases "open_bracket arg")
    case True
    then have "\<not> complete_arg [arg]" by (simp add: complete_arg_def)
    then have "(\<exists>us. x # rest = us @ rest' \<and> complete_arg (arg # us) \<and> arg' = py_join '','' (arg # us)) \<longleftrightarrow>
        (\<exists>us. rest = us @ rest' \<and> complete_arg (arg # x # us) \<and> arg' = py_join '','' (arg # x # us))"
      unfolding Cons_eq_append_conv by blast
    moreover have "complete_arg (arg # x # us) \<longleftrightarrow> complete_arg ((arg @ '','' @ x) # us)" for us
      using True all_prefixes_Cons [of arg x us "length us"] unfolding complete_arg_def
      by (simp add: py_join_merge del: upt_Suc)
    ultimately show ?thesis using 2 True by (simp add: py_join_merge)
  next
    case False
    have "complete_arg (arg # us) \<longleftrightarrow> us = []" for us
    proof (cases us)
      case (Cons y vs)
      then have "1 \<in> set [1..<length (arg # us)]" by (simp only: set_upt) simp
      then have "complete_arg (arg # us) \<Longrightarrow> open_bracket arg"
        unfolding complete_arg_def list_all_iff by (metis One_nat_def py_join.simps(2) take0 take_Suc_Cons)
      with False Cons show ?thesis by auto
    qed (use False in \<open>simp add: complete_arg_def\<close>)
    then show ?thesis using False by auto
  qed
qed (auto simp: complete_arg_def)

lemma absorb_never: "absorb arg rest = None \<longleftrightarrow> never_complete (arg # rest)"
proof (induction arg rest rule: absorb.induct)
  case (2 arg x rest)
  then show ?case using all_prefixes_Cons [of arg x rest "Suc (length rest)"] unfolding never_complete_def
    by (simp del: upt_Suc)
qed (simp add: never_complete_def)

lemma collapse_args_groups:
  "collapse_args args = Some r \<longleftrightarrow>
     (\<exists>gs. args = concat gs \<and> list_all complete_arg gs \<and> r = map (py_join '','') gs)"
proof (induction args arbitrary: r rule: collapse_args.induct)
  case 1
  have "concat gs = [] \<and> list_all complete_arg gs \<longleftrightarrow> gs = []" for gs
    by (cases gs) (auto simp: complete_arg_def)
  then show ?case by (auto simp: eq_commute [of "[]"])
next
  case (2 arg args)
  show ?case
  proof
    assume "collapse_args (arg # args) = Some r"
    then obtain arg' rest r' where a: "absorb arg args = Some (arg', rest)" "collapse_args rest = Some r'"
      "r = arg' # r'" by (auto split: option.splits)
    obtain us where us: "args = us @ rest" "complete_arg (arg # us)" "arg' = py_join '','' (arg # us)"
      using a(1) unfolding absorb_complete by blast
    obtain gs where "rest = concat gs" "list_all complete_arg gs" "r' = map (py_join '','') gs"
      using "2.IH" [OF a(1) refl] a(2) by blast
    with us a(3) show "\<exists>gs. arg # args = concat gs \<and> list_all complete_arg gs \<and> r = map (py_join '','') gs"
      by (intro exI [of _ "(arg # us) # gs"]) simp
  next
    assume "\<exists>gs. arg # args = concat gs \<and> list_all complete_arg gs \<and> r = map (py_join '','') gs"
    then obtain gs' where "arg # args = concat gs'" "list_all complete_arg gs'" "r = map (py_join '','') gs'" by blast
    then obtain g gs where gs: "arg # args = g @ concat gs" "complete_arg g" "list_all complete_arg gs"
      "r = py_join '','' g # map (py_join '','') gs"
      by (cases gs') auto
    then obtain us where g: "g = arg # us" by (cases g) (auto simp: complete_arg_def)
    have a: "absorb arg args = Some (py_join '','' g, concat gs)" using gs g unfolding absorb_complete by auto
    have "collapse_args (concat gs) = Some (map (py_join '','') gs)" using "2.IH" [OF a refl] gs(3) by blast
    then show "collapse_args (arg # args) = Some r" using a gs(4) by simp
  qed
qed

lemma collapse_args_never:
  "collapse_args args = None \<longleftrightarrow>
     (\<exists>gs rest. args = concat gs @ rest \<and> list_all complete_arg gs \<and> never_complete rest)"
proof (induction args rule: collapse_args.induct)
  case 1
  then show ?case by (auto simp: never_complete_def)
next
  case (2 arg args)
  show ?case
  proof (cases "absorb arg args")
    case None
    then have "arg # args = concat [] @ (arg # args) \<and> list_all complete_arg [] \<and> never_complete (arg # args)"
      by (simp add: absorb_never)
    with None show ?thesis by (metis collapse_args.simps(2) option.case(1))
  next
    case (Some p)
    then obtain arg' rest where p: "absorb arg args = Some (arg', rest)" by (cases p) auto
    then obtain us where us: "args = us @ rest" "complete_arg (arg # us)" unfolding absorb_complete by blast
    show ?thesis
    proof
      assume "collapse_args (arg # args) = None"
      then obtain gs t where "rest = concat gs @ t" "list_all complete_arg gs" "never_complete t"
        using "2.IH" [OF p refl] p by (auto split: option.splits)
      then show "\<exists>gs t. arg # args = concat gs @ t \<and> list_all complete_arg gs \<and> never_complete t"
        using us by (intro exI [of _ "(arg # us) # gs"] exI [of _ t]) simp
    next
      assume "\<exists>gs t. arg # args = concat gs @ t \<and> list_all complete_arg gs \<and> never_complete t"
      then obtain gs t where gs: "arg # args = concat gs @ t" "list_all complete_arg gs" "never_complete t" by blast
      show "collapse_args (arg # args) = None"
      proof (cases gs)
        case Nil
        then show ?thesis using gs by (metis absorb_never append_Nil concat.simps(1) option.distinct(1) p)
      next
        case (Cons g gs')
        then obtain vs where g: "g = arg # vs" using gs by (cases g) (auto simp: complete_arg_def)
        then have "absorb arg args = Some (py_join '','' g, concat gs' @ t)"
          using gs Cons unfolding absorb_complete by auto
        then have "rest = concat gs' @ t" using p by simp
        then have "collapse_args rest = None" using "2.IH" [OF p refl] gs Cons by auto
        then show ?thesis using p by simp
      qed
    qed
  qed
qed

subsection \<open>Properties\<close>

text \<open>C35: Collapsing the arguments of a constructor returns exactly when the pieces between the
  commas fall into consecutive groups that are each the shortest joining with no more opening than
  closing brackets, and then returns the groups, joined; the text of the argument list is kept.  It
  raises exactly when, behind such groups, pieces are left of which no joining closes the brackets.
  A shift operator in a default value is such a case: the check of the constructor raises.\<close>

theorem constructor_arguments_collapsed:
  "(collapse_args args = Some r \<longleftrightarrow>
      (\<exists>gs. args = concat gs \<and> list_all complete_arg gs \<and> r = map (py_join '','') gs)) \<and>
   (collapse_args args = None \<longleftrightarrow>
      (\<exists>gs rest. args = concat gs @ rest \<and> list_all complete_arg gs \<and> never_complete rest)) \<and>
   (collapse_args args = Some r \<longrightarrow> py_join '','' r = py_join '','' args)"
  using collapse_args_groups [of args r] collapse_args_never [of args] collapse_args_join [of args r] by simp

theorem constructor_arguments_collapsed_witness:
  "constructor_reports 1 ''Foo'' ''  Foo(int a = 1 << 2);'' = None \<and>
   (\<exists>gs rest. [''int a = 1 << 2''] = concat gs @ rest \<and> list_all complete_arg gs \<and> never_complete rest) \<and>
   py_join '','' [''map<int,int> m'', ''int b''] = py_join '','' [''map<int'', ''int> m'', ''int b'']"
proof -
  have "collapse_args [''int a = 1 << 2''] = None" by code_simp
  moreover have "collapse_args [''map<int'', ''int> m'', ''int b''] = Some [''map<int,int> m'', ''int b'']" by code_simp
  moreover have "constructor_reports 1 ''Foo'' ''  Foo(int a = 1 << 2);'' = None" by code_simp
  ultimately show ?thesis
    using constructor_arguments_collapsed [of "[''int a = 1 << 2'']"]
      constructor_arguments_collapsed [of "[''map<int'', ''int> m'', ''int b'']" "[''map<int,int> m'', ''int b'']"]
    by blast
qed
end
