(* ===== verification/Style_Checks.thy ===== *)
theory Style_Checks
  imports Spacing_Checks Brace_Checks Check_Macros Construct_Checks "HOL-Library.Monad_Syntax"
begin

text \<open>
  \<open>CheckStyle\<close> (tools/scripts/cpplint.py, lines 4376 to 4492): the rules of the style guide for one
  line, among them those of the theories above, in the order in which they are called.
\<close>

subsection \<open>Indentation, line ends and line length\<close>

definition CONTINUED_LINE_PAT :: rx where
  "CONTINUED_LINE_PAT = rseq [RIn [CI dq, CI (CHR '',''), CI (CHR ''=''), CI (CHR ''>''),
     CI (CHR ''<'')], RStar (RLit '' ''), REol]"

definition SCOPE_OR_LABEL_PAT :: rx where
  "SCOPE_OR_LABEL_PAT = rseq [RStar RSp, RPlus RWd, RStar RSp, RLit '':'', RStar RSp,
     ROpt (RLit [bs]), REol]"

definition EMPTY_STRING_START_PAT :: rx where
  "EMPTY_STRING_START_PAT = rseq [RBol, RStar RSp, RLit ([dq] @ [dq])]"

definition layout_reports :: "cleansed_lines \<Rightarrow> nat \<Rightarrow> action list" where
  "layout_reports clean_lines linenum =
     (let n = int linenum; raw = lines_without_raw_strings clean_lines; line = raw ! linenum;
          prev = (if linenum > 0 then raw ! (linenum - 1) else []);
          initial_spaces = length (takeWhile (\<lambda>c. c = CHR '' '') line)
      in (if py_find line [tab] \<noteq> -1 then [Report n ''whitespace/tab'' 1 ''Tab found; better to use spaces'']
          else []) @
         (if \<not> searches CONTINUED_LINE_PAT prev \<and> (initial_spaces = 1 \<or> initial_spaces = 3) \<and>
             \<not> matches SCOPE_OR_LABEL_PAT (elided clean_lines ! linenum) \<and>
             \<not> (raw_lines clean_lines ! linenum \<noteq> line \<and> matches EMPTY_STRING_START_PAT line)
          then [Report n ''whitespace/indent'' 3
            ''Weird number of spaces at line-start.  Are you using a 2-space indent?''] else []) @
         (if line \<noteq> [] \<and> py_isspace [last line] then [Report n ''whitespace/end_of_line'' 4
            ''Line ends in whitespace.  Consider deleting these extra spaces.''] else []))"

text \<open>The extensions of headers are set by the \<open>--headers\<close> option.\<close>

definition IsHeaderExtension :: "string list \<Rightarrow> string \<Rightarrow> bool" where
  "IsHeaderExtension hpp_headers file_extension = (file_extension \<in> set hpp_headers)"

definition is_header_guard ::
    "(string \<Rightarrow> bool) \<Rightarrow> string \<Rightarrow> string option \<Rightarrow> string list \<Rightarrow> string \<Rightarrow> string \<Rightarrow> string \<Rightarrow> bool option" where
  "is_header_guard exists cwd root hpp_headers filename file_extension line =
     (if IsHeaderExtension hpp_headers file_extension then
        map_option (\<lambda>cppvar. startswith line (''#ifndef '' @ cppvar) \<or> startswith line (''#define '' @ cppvar) \<or>
            startswith line (''#endif  // '' @ cppvar))
          (GetHeaderGuardCPPVariable exists cwd root filename)
      else Some False)"

definition URL_COMMENT_PAT :: rx where
  "URL_COMMENT_PAT = rseq [RBol, RStar RSp, RLit ''//'', RStar RAny, RLit ''http'',
     RGrp 1 (ROpt (RLit ''s'')), RLit ''://'', RStar RNSp, REol]"

definition ONE_WORD_COMMENT_PAT :: rx where
  "ONE_WORD_COMMENT_PAT = rseq [RBol, RStar RSp, RLit ''//'', RStar RSp, RStar (RNotIn [CSpace]),
     REol]"

definition ID_COMMENT_PAT :: rx where
  "ID_COMMENT_PAT = rseq [RBol, RLit ''// $Id:'', RStar RAny, RLit ''#'',
     RPlus (RIn [CR (CHR ''0'') (CHR ''9'')]), RLit '' $'', REol]"

definition length_reports :: "int \<Rightarrow> int \<Rightarrow> bool \<Rightarrow> string \<Rightarrow> action list" where
  "length_reports line_length n header_guard line =
     (if \<not> startswith line ''#include'' \<and> \<not> header_guard \<and> \<not> matches URL_COMMENT_PAT line \<and>
         \<not> matches ONE_WORD_COMMENT_PAT line \<and> \<not> matches ID_COMMENT_PAT line \<and>
         GetLineWidth line > line_length
      then [Report n ''whitespace/line_length'' 2
        (''Lines should be <= '' @ py_str line_length @ '' characters long'')] else [])"

definition command_reports :: "cleansed_lines \<Rightarrow> nat \<Rightarrow> action list" where
  "command_reports clean_lines linenum =
     (let line = elided clean_lines ! linenum; prevline = fst (GetPreviousNonBlankLine clean_lines linenum)
      in if py_count '';'' line > 1 \<and> py_find line ''for'' = -1 \<and>
            (py_find prevline ''for'' = -1 \<or> py_find prevline '';'' \<noteq> -1) \<and>
            \<not> ((py_find line ''case '' \<noteq> -1 \<or> py_find line ''default:'' \<noteq> -1) \<and> py_find line ''break;'' \<noteq> -1)
         then [Report (int linenum) ''whitespace/newline'' 0 ''More than one command on the same line'']
         else [])"

subsection \<open>The whole of the style checks\<close>

text \<open>The environment of a run: the file system, the working directory and the options.\<close>

record lint_env =
  le_exists :: "string \<Rightarrow> bool"
  le_cwd :: string
  le_root :: "string option"
  le_hpp_headers :: "string list"
  le_line_length :: int

definition section_reports :: "cleansed_lines \<Rightarrow> nat \<Rightarrow> nesting_state \<Rightarrow> action list" where
  "section_reports clean_lines linenum s =
     (case InnermostClass s of
        Some b \<Rightarrow> (case kind b of ClassInfo ci \<Rightarrow> CheckSectionSpacing clean_lines b ci linenum | _ \<Rightarrow> [])
      | None \<Rightarrow> [])"

definition CheckStyle ::
    "lint_env \<Rightarrow> string \<Rightarrow> cleansed_lines \<Rightarrow> nat \<Rightarrow> string \<Rightarrow> nesting_state \<Rightarrow> action list option" where
  "CheckStyle env filename clean_lines linenum file_extension s = do {
     let line = lines_without_raw_strings clean_lines ! linenum;
     header_guard \<leftarrow> is_header_guard (le_exists env) (le_cwd env) (le_root env) (le_hpp_headers env)
       filename file_extension line;
     braces \<leftarrow> CheckBraces (le_line_length env) clean_lines linenum;
     semicolons \<leftarrow> CheckTrailingSemicolon clean_lines linenum;
     bodies \<leftarrow> CheckEmptyBlockBody clean_lines linenum;
     spacing \<leftarrow> CheckSpacing clean_lines linenum s;
     operators \<leftarrow> CheckOperatorSpacing clean_lines linenum;
     brace_spacing \<leftarrow> CheckBracesSpacing clean_lines linenum s;
     checks \<leftarrow> CheckCheck clean_lines linenum;
     Some (layout_reports clean_lines linenum @
       length_reports (le_line_length env) (int linenum) header_guard line @
       command_reports clean_lines linenum @ braces @ semicolons @ bodies @ spacing @ operators @
       CheckParenthesisSpacing clean_lines linenum @ CheckCommaSpacing clean_lines linenum @
       brace_spacing @ CheckSpacingForFunctionCall clean_lines linenum @ checks @
       CheckAltTokens clean_lines linenum @ section_reports clean_lines linenum s)
   }"

end
