(* ===== verification/Language_Checks.thy ===== *)
theory Language_Checks
  imports Cast_Checks Include_Checks Style_Checks
begin

text \<open>
  The language rules for one line (tools/scripts/cpplint.py, lines 4665 to 4995):
  \<open>_GetTextInside\<close>, \<open>CheckLanguage\<close>, \<open>CheckGlobalStatic\<close> and \<open>CheckPrintf\<close>.  An exception of the
  source is \<open>None\<close>.
\<close>

subsection \<open>The text between two brackets\<close>

definition closing :: "char \<Rightarrow> char" where
  "closing c = (if c = CHR ''('' then CHR '')'' else if c = CHR ''{'' then CHR ''}'' else CHR '']'')"

text \<open>The position behind the bracket that closes the last one of the stack.\<close>

fun text_end :: "string \<Rightarrow> nat \<Rightarrow> string \<Rightarrow> nat option" where
  "text_end [] position rest = Some position"
| "text_end (p # punctuation_stack) position [] = None"
| "text_end (p # punctuation_stack) position (c # rest) =
     (if c = p then text_end punctuation_stack (position + 1) rest
      else if c \<in> set '')}]'' then None
      else if c \<in> set ''({['' then text_end (closing c # p # punctuation_stack) (position + 1) rest
      else text_end (p # punctuation_stack) (position + 1) rest)"

text \<open>The outer \<open>None\<close> is the failure of one of the two assertions.\<close>

definition GetTextInside :: "string \<Rightarrow> rx \<Rightarrow> string option option" where
  "GetTextInside s start_pattern =
     (case Search start_pattern s of
        None \<Rightarrow> Some None
      | Some m \<Rightarrow>
          (let start_position = mo_end m
           in if start_position > 0 \<and> s ! (start_position - 1) \<in> set ''({['' then
                Some (map_option (\<lambda>position. slice s (int start_position) (int position - 1))
                  (text_end [closing (s ! (start_position - 1))] start_position (drop start_position s)))
              else None))"

subsection \<open>Static objects and printf\<close>

definition DECL_MARK_PAT :: rx where
  "DECL_MARK_PAT = RIn [CI (CHR '';''), CI (CHR ''(''), CI (CHR ''{'')]"
definition GLOBAL_STRING_PAT :: rx where
  "GLOBAL_STRING_PAT = rseq [RGrp 1 (rseq [ralt [REps, rseq [RLit ''static'',
     RPlus (RLit '' '')]], ralt [REps, rseq [RLit ''const'', RPlus (RLit '' '')]]]),
     ROpt (rseq [RStar (RLit '':''), RLit ''std::'']), RLit ''string'',
     ROpt (RGrp 2 (rseq [RPlus (RLit '' ''), RLit ''const''])), RPlus (RLit '' ''),
     RGrp 3 (RPlus (RIn [CR (CHR ''a'') (CHR ''z''), CR (CHR ''A'') (CHR ''Z''),
     CR (CHR ''0'') (CHR ''9''), CI (CHR ''_''), CI (CHR '':'')])), RWordB, RGrp 4 (RStar RAny)]"
definition STRING_POINTER_PAT :: rx where
  "STRING_POINTER_PAT = rseq [RWordB, RLit ''string'', RWordB, ROpt (RGrp 1 (rseq [RPlus RSp,
     RLit ''const''])), RStar RSp, RIn [CI (CHR ''*''), CI (CHR ''&'')], RStar RSp,
     ROpt (RGrp 2 (rseq [RLit ''const'', RPlus RSp])), RWd]"
definition OPERATOR_TEXT_PAT :: rx where
  "OPERATOR_TEXT_PAT = rseq [RWordB, RLit ''operator'', RIn [CNWord]]"
definition STRING_FUNCTION_PAT :: rx where
  "STRING_FUNCTION_PAT = rseq [RStar RSp, ROpt (RGrp 1 (rseq [RLit ''<'', RStar RAny,
     RLit ''>''])), RStar (RGrp 2 (rseq [RLit ''::'', RPlus (RIn [CR (CHR ''a'') (CHR ''z''),
     CR (CHR ''A'') (CHR ''Z''), CR (CHR ''0'') (CHR ''9''), CI (CHR ''_'')])])), RStar RSp,
     RLit ''('', RGrp 3 (ralt [RNotIn [CI dq], REol])]"
definition CONST_WORD_PAT :: rx where
  "CONST_WORD_PAT = rseq [RWordB, RLit ''const'', RWordB]"
definition SELF_INIT_PAT :: rx where
  "SELF_INIT_PAT = rseq [RWordB, RGrp 1 (rseq [RStar (RIn [CR (CHR ''A'') (CHR ''Z''),
     CR (CHR ''a'') (CHR ''z''), CR (CHR ''0'') (CHR ''9''), CI (CHR ''_'')]), RLit ''_'']),
     RLit ''('', RRef 1, RLit '')'']"
definition SELF_INIT_NOTNULL_PAT :: rx where
  "SELF_INIT_NOTNULL_PAT = rseq [RWordB, RGrp 1 (rseq [RStar (RIn [CR (CHR ''A'') (CHR ''Z''),
     CR (CHR ''a'') (CHR ''z''), CR (CHR ''0'') (CHR ''9''), CI (CHR ''_'')]), RLit ''_'']),
     RLit ''(CHECK_NOTNULL('', RRef 1, RLit ''))'']"

definition CheckGlobalStatic :: "cleansed_lines \<Rightarrow> nat \<Rightarrow> action list" where
  "CheckGlobalStatic clean_lines linenum =
     (let n = int linenum; es = elided clean_lines;
          line = es ! linenum @ (if linenum + 1 < NumLines clean_lines \<and> \<not> searches DECL_MARK_PAT (es ! linenum)
            then ustrip (es ! (linenum + 1)) else [])
      in (case Match GLOBAL_STRING_PAT line of
            None \<Rightarrow> []
          | Some m \<Rightarrow>
              (if searches STRING_POINTER_PAT line \<or> searches OPERATOR_TEXT_PAT line \<or>
                  matches STRING_FUNCTION_PAT (grp m 4) then []
               else if searches CONST_WORD_PAT line then
                 [Report n ''runtime/string'' 4
                   ((''For a static/global string constant, use a C style string instead: '' @ [dq]) @ grp m 1 @
                    ''char'' @ grp m 2 @ '' '' @ grp m 3 @ (''[]'' @ [dq] @ ''.''))]
               else [Report n ''runtime/string'' 4 ''Static/global string variables are not permitted.''])) @
         (if searches SELF_INIT_PAT line \<or> searches SELF_INIT_NOTNULL_PAT line then
            [Report n ''runtime/init'' 4 ''You seem to be initializing a member variable with itself.'']
          else []))"

definition SNPRINTF_PAT :: rx where
  "SNPRINTF_PAT = rseq [RLit ''snprintf'', RStar RSp, RLit ''('',
     RGrp 1 (RStar (RNotIn [CI (CHR '','')])), RLit '','', RStar RSp,
     RGrp 2 (RStar (RIn [CR (CHR ''0'') (CHR ''9'')])), RStar RSp, RLit '','']"
definition SPRINTF_PAT :: rx where
  "SPRINTF_PAT = rseq [RWordB, RLit ''sprintf'', RStar RSp, RLit ''('']"
definition STRCPY_PAT :: rx where
  "STRCPY_PAT = rseq [RWordB, RGrp 1 (ralt [RLit ''strcpy'', RLit ''strcat'']), RStar RSp,
     RLit ''('']"

definition CheckPrintf :: "cleansed_lines \<Rightarrow> nat \<Rightarrow> action list" where
  "CheckPrintf clean_lines linenum =
     (let n = int linenum; line = elided clean_lines ! linenum
      in (case Search SNPRINTF_PAT line of
            None \<Rightarrow> []
          | Some m \<Rightarrow> (if grp m 2 \<noteq> ''0'' then
              [Report n ''runtime/printf'' 3 (''If you can, use sizeof('' @ grp m 1 @ '') instead of '' @
                grp m 2 @ '' as the 2nd arg to snprintf.'')] else [])) @
         (if searches SPRINTF_PAT line then
            [Report n ''runtime/printf'' 5 ''Never use sprintf. Use snprintf instead.''] else []) @
         (case Search STRCPY_PAT line of
            None \<Rightarrow> []
          | Some m \<Rightarrow> [Report n ''runtime/printf'' 4 (''Almost always, snprintf is better than '' @ grp m 1)]))"

subsection \<open>The rules of CheckLanguage\<close>

definition SHORT_PORT_PAT :: rx where
  "SHORT_PORT_PAT = rseq [RWordB, RLit ''short port'', RWordB]"
definition UNSIGNED_PORT_PAT :: rx where
  "UNSIGNED_PORT_PAT = rseq [RWordB, RLit ''unsigned short port'', RWordB]"
definition C_INTEGER_PAT :: rx where
  "C_INTEGER_PAT = rseq [RWordB, RGrp 1 (ralt [RLit ''short'', rseq [RLit ''long'',
     RNLook (rseq [RPlus (RLit '' ''), RLit ''double''])], RLit ''long long'']), RWordB]"

definition integer_reports :: "int \<Rightarrow> string \<Rightarrow> action list" where
  "integer_reports n line =
     (if searches SHORT_PORT_PAT line then
        (if searches UNSIGNED_PORT_PAT line then []
         else [Report n ''runtime/int'' 4 (''Use '' @ [dq] @ ''unsigned short'' @ [dq] @ '' for ports, not '' @ [dq] @ ''short'' @ [dq])])
      else (case Search C_INTEGER_PAT line of
              None \<Rightarrow> []
            | Some m \<Rightarrow> [Report n ''runtime/int'' 4
                (''Use int16/int64/etc, rather than the C type '' @ grp m 1)]))"

definition UNARY_AND_PAT :: rx where
  "UNARY_AND_PAT = rseq [RWordB, RLit ''operator'', RStar RSp, RLit ''&'', RStar RSp, RLit ''('',
     RStar RSp, RLit '')'']"
definition BRACE_IF_PAT :: rx where
  "BRACE_IF_PAT = rseq [RLit ''}'', RStar RSp, RLit ''if'', RStar RSp, RLit ''('']"

definition operator_if_reports :: "int \<Rightarrow> string \<Rightarrow> action list" where
  "operator_if_reports n line =
     (if searches UNARY_AND_PAT line then
        [Report n ''runtime/operator'' 4 ''Unary operator& is dangerous.  Do not use it.''] else []) @
     (if searches BRACE_IF_PAT line then
        [Report n ''readability/braces'' 4 (''Did you mean '' @ [dq] @ ''else if'' @ [dq] @ ''? If not, start a new line for '' @ [dq] @ ''if'' @ [dq] @ ''.'')]
      else [])"

definition PRINTF_PAT :: rx where
  "PRINTF_PAT = rseq [RWordB, ROpt (RGrp 1 (rseq [RIn [CI (CHR ''s''), CI (CHR ''S'')],
     RIn [CI (CHR ''t''), CI (CHR ''T'')], RIn [CI (CHR ''r''), CI (CHR ''R'')],
     RIn [CI (CHR ''i''), CI (CHR ''I'')], RIn [CI (CHR ''n''), CI (CHR ''N'')],
     RIn [CI (CHR ''g''), CI (CHR ''G'')]])), RIn [CI (CHR ''p''), CI (CHR ''P'')],
     RIn [CI (CHR ''r''), CI (CHR ''R'')], RIn [CI (CHR ''i''), CI (CHR ''I'')],
     RIn [CI (CHR ''n''), CI (CHR ''N'')], RIn [CI (CHR ''t''), CI (CHR ''T'')],
     RIn [CI (CHR ''f''), CI (CHR ''F'')], RStar RSp, RLit ''('']"
definition PRINTF_ARG_PAT :: rx where
  "PRINTF_ARG_PAT = rseq [RGrp 1 (RPlus (RIn [CWord, CI (CHR ''.''), CI (CHR ''-''),
     CI (CHR ''>''), CI (CHR ''(''), CI (CHR '')'')])), REol]"
definition PRINTF_NAME_PAT :: rx where
  "PRINTF_NAME_PAT = rseq [RWordB, RGrp 1 (rseq [ROpt (rseq [RIn [CI (CHR ''s''),
     CI (CHR ''S'')], RIn [CI (CHR ''t''), CI (CHR ''T'')], RIn [CI (CHR ''r''), CI (CHR ''R'')],
     RIn [CI (CHR ''i''), CI (CHR ''I'')], RIn [CI (CHR ''n''), CI (CHR ''N'')],
     RIn [CI (CHR ''g''), CI (CHR ''G'')]]), RIn [CI (CHR ''p''), CI (CHR ''P'')],
     RIn [CI (CHR ''r''), CI (CHR ''R'')], RIn [CI (CHR ''i''), CI (CHR ''I'')],
     RIn [CI (CHR ''n''), CI (CHR ''N'')], RIn [CI (CHR ''t''), CI (CHR ''T'')],
     RIn [CI (CHR ''f''), CI (CHR ''F'')]]), RStar RSp, RLit ''('']"

definition printf_reports :: "int \<Rightarrow> string \<Rightarrow> action list option" where
  "printf_reports n line = do {
     printf_args \<leftarrow> GetTextInside line PRINTF_PAT;
     case printf_args of
       None \<Rightarrow> Some []
     | Some args \<Rightarrow>
         (case (if args = [] then None else Match PRINTF_ARG_PAT args) of
            None \<Rightarrow> Some []
          | Some m \<Rightarrow>
              (if grp m 1 = ''__VA_ARGS__'' then Some []
               else map_option (\<lambda>name. [Report n ''runtime/printf'' 4
                      (''Potential format string bug. Do '' @ grp name 1 @ (''('' @ [dq] @ ''%s'' @ [dq] @ '', '') @ grp m 1 @
                       '') instead.'')])
                 (Search PRINTF_NAME_PAT line)))
   }"

definition MEMSET_PAT :: rx where
  "MEMSET_PAT = rseq [RLit ''memset'', RStar RSp, RLit ''('',
     RGrp 1 (RStar (RNotIn [CI (CHR '','')])), RLit '','', RStar RSp,
     RGrp 2 (RStar (RNotIn [CI (CHR '','')])), RLit '','', RStar RSp, RLit ''0'', RStar RSp,
     RLit '')'']"
definition MEMSET_VALUE_PAT :: rx where
  "MEMSET_VALUE_PAT = ralt [rseq [RBol, RLit ([sq] @ [sq])], rseq [ROpt (RLit ''-''),
     RPlus (RIn [CR (CHR ''0'') (CHR ''9'')])], rseq [RLit ''0x'',
     RIn [CR (CHR ''0'') (CHR ''9''), CR (CHR ''A'') (CHR ''F''), CR (CHR ''a'') (CHR ''f'')],
     REol]]"
definition USING_NAMESPACE_PAT :: rx where
  "USING_NAMESPACE_PAT = rseq [RWordB, RLit ''using namespace'', RWordB]"

definition memset_reports :: "int \<Rightarrow> string \<Rightarrow> action list" where
  "memset_reports n line =
     (case Search MEMSET_PAT line of
        None \<Rightarrow> []
      | Some m \<Rightarrow>
          (if matches MEMSET_VALUE_PAT (grp m 2) then []
           else [Report n ''runtime/memset'' 4 ((''Did you mean '' @ [dq] @ ''memset('') @ grp m 1 @ '', 0, '' @ grp m 2 @
             ('')'' @ [dq] @ ''?''))])) @
     (if searches USING_NAMESPACE_PAT line then
        [Report n ''build/namespaces'' 5
          (''Do not use namespace using-directives.  '' @ ''Use using-declarations instead.'')] else [])"

subsubsection \<open>Arrays of variable length\<close>

text \<open>\<open>re.split\<close> for a pattern without groups that never matches the empty text: what is left
  between the matches.\<close>

fun pieces :: "nat \<Rightarrow> string \<Rightarrow> mobj list \<Rightarrow> string list" where
  "pieces p s [] = [drop p s]"
| "pieces p s (m # ms) = take (mo_start m - p) (drop p s) # pieces (mo_end m) s ms"

definition re_split :: "rx \<Rightarrow> string \<Rightarrow> string list" where
  "re_split r s = pieces 0 s (finditer r s)"

definition ARRAY_PAT :: rx where
  "ARRAY_PAT = rseq [RStar RSp, ROpt (RGrp 1 (rseq [RPlus RAny, RLit ''::''])),
     RGrp 2 (RPlus RWd), RLit '' '', RIn [CR (CHR ''a'') (CHR ''z'')], RStar RWd, RLit ''['',
     RGrp 3 (RPlus RAny), RLit ''];'']"
definition SIZE_SPLIT_PAT :: rx where
  "SIZE_SPLIT_PAT = ralt [RSp, RLit ''+'', RLit ''-'', RLit ''*'', RLit ''/'', RLit ''<<'',
     RLit ''>>]'']"
definition SIZEOF_PAT :: rx where
  "SIZEOF_PAT = rseq [RLit ''sizeof('', RPlus RAny, RLit '')'']"
definition ARRAYSIZE_PAT :: rx where
  "ARRAYSIZE_PAT = rseq [RLit ''arraysize('', RPlus RWd, RLit '')'']"
definition NUMBER_PAT :: rx where
  "NUMBER_PAT = RPlus (RIn [CDigit])"
definition HEX_NUMBER_PAT :: rx where
  "HEX_NUMBER_PAT = rseq [RLit ''0'', RIn [CI (CHR ''x''), CI (CHR ''X'')],
     RPlus (RIn [CR (CHR ''0'') (CHR ''9''), CR (CHR ''a'') (CHR ''f''),
     CR (CHR ''A'') (CHR ''F'')])]"
definition K_CONSTANT_PAT :: rx where
  "K_CONSTANT_PAT = rseq [RLit ''k'', RIn [CR (CHR ''A'') (CHR ''Z''),
     CR (CHR ''0'') (CHR ''9'')], RStar RWd]"
definition SCOPED_CONSTANT_PAT :: rx where
  "SCOPED_CONSTANT_PAT = rseq [ROpt (RGrp 1 (rseq [RPlus RAny, RLit ''::''])), RLit ''k'',
     RIn [CR (CHR ''A'') (CHR ''Z''), CR (CHR ''0'') (CHR ''9'')], RStar RWd]"
definition MACRO_CONSTANT_PAT :: rx where
  "MACRO_CONSTANT_PAT = rseq [ROpt (RGrp 1 (rseq [RPlus RAny, RLit ''::''])),
     RIn [CR (CHR ''A'') (CHR ''Z'')], RStar (RIn [CR (CHR ''A'') (CHR ''Z''),
     CR (CHR ''0'') (CHR ''9''), CI (CHR ''_'')])]"

definition CONSTANT_PATS :: "rx list" where
  "CONSTANT_PATS = [NUMBER_PAT, HEX_NUMBER_PAT, K_CONSTANT_PAT, SCOPED_CONSTANT_PAT, MACRO_CONSTANT_PAT]"

definition bare_token :: "string \<Rightarrow> string" where
  "bare_token tok = rstrip_by (\<lambda>c. c = CHR '')'') (lstrip_by (\<lambda>c. c = CHR ''('') tok)"

fun const_size :: "bool \<Rightarrow> string list \<Rightarrow> bool" where
  "const_size skip_next [] = True"
| "const_size skip_next (tok # toks) =
     (if skip_next then const_size False toks
      else if searches SIZEOF_PAT tok \<or> searches ARRAYSIZE_PAT tok then const_size False toks
      else (let t = bare_token tok
            in if t = [] \<or> list_ex (\<lambda>r. matches r t) CONSTANT_PATS then const_size False toks
               else startswith t ''sizeof'' \<and> const_size True toks))"

definition array_reports :: "int \<Rightarrow> string \<Rightarrow> action list" where
  "array_reports n line =
     (case Match ARRAY_PAT line of
        None \<Rightarrow> []
      | Some m \<Rightarrow>
          (if grp m 2 \<noteq> ''return'' \<and> grp m 2 \<noteq> ''delete'' \<and> py_find (grp m 3) '']'' = -1 \<and>
              \<not> const_size False (re_split SIZE_SPLIT_PAT (grp m 3))
           then [Report n ''runtime/arrays'' 1
             ((''Do not use variable-length arrays.  Use an appropriately named ('' @ [sq] @ ''k'' @ [sq] @ '' followed by CamelCase) '') @
              ''compile-time constant for the size.'')]
           else []))"

subsubsection \<open>The whole check\<close>

definition PP_CONDITIONAL_PAT :: rx where
  "PP_CONDITIONAL_PAT = rseq [RBol, RStar RSp, RLit ''#'', RStar RSp, RGrp 1 (ralt [RLit ''if'',
     RLit ''ifdef'', RLit ''ifndef'', RLit ''elif'', RLit ''else'', RLit ''endif'']), RWordB]"
definition UNNAMED_NAMESPACE_PAT :: rx where
  "UNNAMED_NAMESPACE_PAT = rseq [RWordB, RLit ''namespace'', RStar RSp, RLit ''{'']"

definition namespace_reports :: "string list \<Rightarrow> string \<Rightarrow> int \<Rightarrow> string \<Rightarrow> action list" where
  "namespace_reports hpp_headers file_extension n line =
     (if IsHeaderExtension hpp_headers file_extension \<and> searches UNNAMED_NAMESPACE_PAT line \<and> last line \<noteq> bs
      then [Report n ''build/namespaces'' 4
        (''Do not use unnamed namespaces in header files.  See '' @
         ''https://google-styleguide.googlecode.com/svn/trunk/cppguide.xml#Namespaces'' @
         '' for more information.'')]
      else [])"

definition rule_reports :: "lint_env \<Rightarrow> string \<Rightarrow> cleansed_lines \<Rightarrow> nat \<Rightarrow> action list option" where
  "rule_reports env file_extension clean_lines linenum = do {
     let n = int linenum;
     let line = elided clean_lines ! linenum;
     casts \<leftarrow> CheckCasts clean_lines linenum;
     printf \<leftarrow> printf_reports n line;
     Some (casts @ CheckGlobalStatic clean_lines linenum @ CheckPrintf clean_lines linenum @
       integer_reports n line @ operator_if_reports n line @ printf @ memset_reports n line @
       array_reports n line @ namespace_reports (le_hpp_headers env) file_extension n line)
   }"

definition CheckLanguage ::
    "lint_env \<Rightarrow> string \<Rightarrow> cleansed_lines \<Rightarrow> nat \<Rightarrow> string \<Rightarrow> include_state \<Rightarrow>
     (action list \<times> include_state) option" where
  "CheckLanguage env filename clean_lines linenum file_extension s =
     (let line = elided clean_lines ! linenum
      in if line = [] then Some ([], s)
         else if searches RE_PATTERN_INCLUDE line then
           CheckIncludeLine (le_exists env) (le_cwd env) filename clean_lines linenum s
         else do {
           s' \<leftarrow> (case Match PP_CONDITIONAL_PAT line of Some m \<Rightarrow> ResetSection (grp m 1) s | None \<Rightarrow> Some s);
           as \<leftarrow> rule_reports env file_extension clean_lines linenum;
           Some (as, s')
         })"

subsection \<open>What lies between the brackets\<close>

definition no_bracket :: "char \<Rightarrow> bool" where
  "no_bracket c \<longleftrightarrow> c \<notin> set ''(){}[]''"

lemma bracket_pair_closing: "bracket_pair a b \<longleftrightarrow> a \<in> set ''({['' \<and> b = closing a"
  by (auto simp: bracket_pair_def closing_def)

lemma closing_bracket: "a \<in> set ''({['' \<Longrightarrow> closing a \<in> set '')}]''"
  by (auto simp: closing_def)

lemma text_end_nested:
  assumes "nested bracket_pair no_bracket w" "p \<in> set '')}]''"
  shows "text_end (p # ps) i (w @ v) = text_end (p # ps) (i + length w) v"
  using assms
proof (induction w arbitrary: p ps i v rule: nested.induct)
  case nested_nil
  then show ?case by simp
next
  case (nested_plain c w)
  then show ?case by (auto simp: no_bracket_def)
next
  case (nested_wrap a b w u)
  then have ab: "a \<in> set ''({[''" "b = closing a" "b \<in> set '')}]''"
    using closing_bracket [of a] by (auto simp: bracket_pair_closing)
  have "text_end (p # ps) i (a # w @ b # u @ v) = text_end (b # p # ps) (i + 1) (w @ b # u @ v)"
    using ab nested_wrap.prems by auto
  also have "\<dots> = text_end (b # p # ps) (i + 1 + length w) (b # u @ v)"
    by (rule nested_wrap.IH(1) [OF ab(3)])
  also have "\<dots> = text_end (p # ps) (i + length w + 2) (u @ v)" by simp
  also have "\<dots> = text_end (p # ps) (i + length w + 2 + length u) v"
    by (rule nested_wrap.IH(2) [OF nested_wrap.prems])
  finally show ?case by (simp add: add.commute add.left_commute)
qed

lemma text_end_Some:
  assumes "text_end (p # ps) i t = Some j" "p \<in> set '')}]''"
  shows "\<exists>w v. t = w @ p # v \<and> nested bracket_pair no_bracket w \<and> text_end ps (i + length w + 1) v = Some j"
  using assms
proof (induction "length t" arbitrary: t p ps i rule: less_induct)
  case less
  then obtain c t' where t: "t = c # t'" by (cases t) auto
  consider "c = p" | "c \<noteq> p" "c \<in> set ''({[''" "text_end (closing c # p # ps) (i + 1) t' = Some j"
    | "c \<noteq> p" "no_bracket c" "text_end (p # ps) (i + 1) t' = Some j"
    using less.prems unfolding t by (auto simp: no_bracket_def split: if_splits)
  then show ?case
  proof cases
    case 1
    then show ?thesis using less.prems t by (intro exI [of _ "[]"] exI [of _ t']) (auto intro: nested_nil)
  next
    case 2
    obtain w v where w: "t' = w @ closing c # v" "nested bracket_pair no_bracket w"
      "text_end (p # ps) (i + 1 + length w + 1) v = Some j"
      using less.hyps [OF _ 2(3) closing_bracket [OF 2(2)]] t by auto
    obtain u v' where u: "v = u @ p # v'" "nested bracket_pair no_bracket u"
      "text_end ps (i + 1 + length w + 1 + length u + 1) v' = Some j"
      using less.hyps [OF _ w(3) less.prems(2)] t w(1) by auto
    have "nested bracket_pair no_bracket (c # w @ closing c # u)"
      using 2(2) w(2) u(2) by (intro nested_wrap) (auto simp: bracket_pair_closing)
    then show ?thesis using t w(1) u
      by (intro exI [of _ "c # w @ closing c # u"] exI [of _ v']) (simp add: add.commute add.left_commute)
  next
    case 3
    obtain w v where "t' = w @ p # v" "nested bracket_pair no_bracket w"
      "text_end ps (i + 1 + length w + 1) v = Some j"
      using less.hyps [OF _ 3(3) less.prems(2)] t by auto
    then show ?thesis using t 3(2)
      by (intro exI [of _ "c # w"] exI [of _ v]) (auto intro: nested_plain)
  qed
qed

text \<open>C32: Once the start pattern has matched up to an opening bracket, the function returns a text
  exactly when the match is followed by that text and the closing bracket, and all brackets in the
  text pair off; any other bracket structure gives None.\<close>

theorem text_inside_brackets:
  assumes "Search r s = Some m" "s = u @ a # t" "mo_end m = length u + 1" "bracket_pair a b"
  shows "GetTextInside s r = Some (Some w) \<longleftrightarrow>
    (\<exists>v. t = w @ b # v \<and> nested bracket_pair no_bracket w)"
proof -
  have ab: "a \<in> set ''({[''" "b = closing a" "b \<in> set '')}]''"
    using assms(4) closing_bracket [of a] by (auto simp: bracket_pair_closing)
  have g: "GetTextInside s r = Some (map_option (\<lambda>j. slice s (int (length u + 1)) (int j - 1))
      (text_end [b] (length u + 1) t))"
    using assms(1-3) ab by (simp add: GetTextInside_def)
  have sl: "slice s (int (length u + 1)) (int (length u + 1 + length x + 1) - 1) = x" if "t = x @ b # v" for x v
    using that assms(2) by (simp add: slice_def clip_def nat_add_distrib)
  show ?thesis
  proof
    assume "GetTextInside s r = Some (Some w)"
    then obtain j where j: "text_end [b] (length u + 1) t = Some j" "w = slice s (int (length u + 1)) (int j - 1)"
      using g by auto
    then obtain x v where "t = x @ b # v" "nested bracket_pair no_bracket x" "j = length u + 1 + length x + 1"
      using text_end_Some [OF j(1) ab(3)] by auto
    then show "\<exists>v. t = w @ b # v \<and> nested bracket_pair no_bracket w" using sl j(2) by auto
  next
    assume "\<exists>v. t = w @ b # v \<and> nested bracket_pair no_bracket w"
    then obtain v where v: "t = w @ b # v" "nested bracket_pair no_bracket w" by blast
    then have "text_end [b] (length u + 1) t = Some (length u + 1 + length w + 1)"
      using text_end_nested [OF v(2) ab(3), of "[]" "length u + 1" "b # v"] by simp
    then show "GetTextInside s r = Some (Some w)" using g sl [OF v(1)] by simp
  qed
qed

theorem text_inside_brackets_witness:
  "GetTextInside ''printf(a(b));'' PRINTF_PAT = Some (Some ''a(b)'')"
proof -
  obtain m where m: "Search PRINTF_PAT ''printf(a(b));'' = Some m" "mo_end m = length ''printf'' + 1"
  proof -
    have "map_option mo_end (Search PRINTF_PAT ''printf(a(b));'') = Some 7" by code_simp
    then show ?thesis using that by auto
  qed
  have "nested bracket_pair no_bracket (CHR ''a'' # CHR ''('' # ''b'' @ CHR '')'' # [])"
    by (intro nested_plain nested_wrap nested_nil) (auto simp: no_bracket_def bracket_pair_def)
  then show ?thesis
    by (subst text_inside_brackets [OF m(1) _ m(2), of "CHR ''(''" "''a(b));''" "CHR '')''"])
      (auto simp: bracket_pair_def)
qed

end
