(* ===== verification/Reference_Checks.thy ===== *)
theory Reference_Checks
  imports Nesting
begin

text \<open>
  The check of non-const references (tools/scripts/cpplint.py, lines 4720 to 4748 and 4998 to 5214).
  An index out of range is \<open>None\<close>.
\<close>

subsection \<open>Where the line stands\<close>

definition FUNCTION_HEAD_PAT :: rx where
  "FUNCTION_HEAD_PAT = rseq [RBol, RGrp 1 (rseq [RStar (RNotIn [CI (CHR ''(''), CI (CHR '')'')]),
     RPlus RWd]), RLit ''('']"
definition OVERRIDE_WORD_PAT :: rx where
  "OVERRIDE_WORD_PAT = rseq [RWordB, RLit ''override'', RWordB]"
definition METHOD_HEAD_PAT :: rx where
  "METHOD_HEAD_PAT = rseq [RBol, RStar (RNotIn [CI (CHR ''(''), CI (CHR '')'')]), RPlus RWd,
     RLit ''::'', RPlus RWd, RLit ''('']"

text \<open>The lines looked at, from the current one back.\<close>

fun find_head :: "cleansed_lines \<Rightarrow> nat list \<Rightarrow> (nat \<times> mobj) option" where
  "find_head clean_lines [] = None"
| "find_head clean_lines (i # is) =
     (case Match FUNCTION_HEAD_PAT (elided clean_lines ! i) of
        Some m \<Rightarrow> Some (i, m)
      | None \<Rightarrow> find_head clean_lines is)"

definition recent_lines :: "nat \<Rightarrow> nat list" where
  "recent_lines linenum = rev [linenum - 9..<linenum + 1]"

definition IsDerivedFunction :: "cleansed_lines \<Rightarrow> nat \<Rightarrow> bool option" where
  "IsDerivedFunction clean_lines linenum =
     (case find_head clean_lines (recent_lines linenum) of
        None \<Rightarrow> Some False
      | Some (i, m) \<Rightarrow>
          map_option (\<lambda>(line, _, closing_paren). closing_paren \<ge> 0 \<and>
              searches OVERRIDE_WORD_PAT (slice_from line closing_paren))
            (CloseExpression clean_lines i (length (grp m 1))))"

definition IsOutOfLineMethodDefinition :: "cleansed_lines \<Rightarrow> nat \<Rightarrow> bool" where
  "IsOutOfLineMethodDefinition clean_lines linenum =
     (case find_head clean_lines (recent_lines linenum) of
        None \<Rightarrow> False
      | Some (i, _) \<Rightarrow> matches METHOD_HEAD_PAT (elided clean_lines ! i))"

definition FUNCTION_BODY_PAT :: rx where
  "FUNCTION_BODY_PAT = rseq [RBol, RGrp 1 (RStar RAny), RLit ''{'', RStar RSp, REol]"
definition INITIALIZER_COLON_PAT :: rx where
  "INITIALIZER_COLON_PAT = rseq [RSp, RLit '':'', RStar RSp, RPlus RWd, RIn [CI (CHR ''(''),
     CI (CHR ''{'')]]"
definition BRACE_COMMA_PAT :: rx where
  "BRACE_COMMA_PAT = rseq [RLit ''}'', RStar RSp, RLit '','', RStar RSp, REol]"
definition BLOCK_EDGE_PAT :: rx where
  "BLOCK_EDGE_PAT = rseq [RIn [CI (CHR ''{''), CI (CHR ''}''), CI (CHR '';'')], RStar RSp, REol]"

fun initializer_above :: "cleansed_lines \<Rightarrow> nat \<Rightarrow> nat list \<Rightarrow> bool" where
  "initializer_above clean_lines linenum [] = False"
| "initializer_above clean_lines linenum (i # is) =
     (let full = elided clean_lines ! i;
          line = (if i = linenum then (case Match FUNCTION_BODY_PAT full of Some m \<Rightarrow> grp m 1 | None \<Rightarrow> full)
                  else full)
      in if searches INITIALIZER_COLON_PAT line then True
         else if searches BRACE_COMMA_PAT line then True
         else if searches BLOCK_EDGE_PAT line then False
         else initializer_above clean_lines linenum is)"

definition IsInitializerList :: "cleansed_lines \<Rightarrow> nat \<Rightarrow> bool" where
  "IsInitializerList clean_lines linenum = initializer_above clean_lines linenum (rev [2..<linenum + 1])"

subsection \<open>The parameters\<close>

definition RE_PATTERN_REF_PARAM :: rx where
  "RE_PATTERN_REF_PARAM = rseq [RGrp 1 (rseq [ROpt (rseq [RLit ''const'', RPlus RSp]),
     ROpt (ralt [rseq [RLit ''typename'', RPlus RSp], rseq [RLit ''class'', RPlus RSp],
     rseq [RLit ''struct'', RPlus RSp], rseq [RLit ''union'', RPlus RSp], rseq [RLit ''enum'',
     RPlus RSp]]), RPlus (ralt [RWd, rseq [RStar RSp, RLit ''<'', RStar (ralt [rseq [RLit ''<'',
     RStar (ralt [rseq [RLit ''<'', RStar (RNotIn [CI (CHR ''<''), CI (CHR ''>'')]), RLit ''>''],
     RNotIn [CI (CHR ''<''), CI (CHR ''>'')]]), RLit ''>''], RNotIn [CI (CHR ''<''),
     CI (CHR ''>'')]]), RLit ''>''], RLit ''::'']), RStar (rseq [RStar RSp, ralt [rseq [RWordB,
     RLit ''const'', RWordB], RLit ''*'']]), RStar RSp, RLit ''&'', RStar RSp,
     RIn [CI (CHR ''_''), CR (CHR ''a'') (CHR ''z''), CR (CHR ''A'') (CHR ''Z'')], RStar RWd]),
     RStar RSp, ROpt (rseq [RLit ''='', RPlus (RNotIn [CI (CHR '',''), CI (CHR ''(''),
     CI (CHR '')'')])]), RIn [CI (CHR '',''), CI (CHR '')'')]]"
definition RE_PATTERN_CONST_REF_PARAM :: rx where
  "RE_PATTERN_CONST_REF_PARAM = ralt [rseq [RStar RAny, RStar RSp, RWordB, RLit ''const'',
     RStar RSp, RLit ''&'', RStar RSp, RIn [CI (CHR ''_''), CR (CHR ''a'') (CHR ''z''),
     CR (CHR ''A'') (CHR ''Z'')], RStar RWd], rseq [RLit ''const'', RPlus RSp,
     ROpt (rseq [RLit ''const'', RPlus RSp]), ROpt (ralt [rseq [RLit ''typename'', RPlus RSp],
     rseq [RLit ''class'', RPlus RSp], rseq [RLit ''struct'', RPlus RSp], rseq [RLit ''union'',
     RPlus RSp], rseq [RLit ''enum'', RPlus RSp]]), RPlus (ralt [RWd, rseq [RStar RSp,
     RLit ''<'', RStar (ralt [rseq [RLit ''<'', RStar (ralt [rseq [RLit ''<'',
     RStar (RNotIn [CI (CHR ''<''), CI (CHR ''>'')]), RLit ''>''], RNotIn [CI (CHR ''<''),
     CI (CHR ''>'')]]), RLit ''>''], RNotIn [CI (CHR ''<''), CI (CHR ''>'')]]), RLit ''>''],
     RLit ''::'']), RStar RSp, RLit ''&'', RStar RSp, RIn [CI (CHR ''_''),
     CR (CHR ''a'') (CHR ''z''), CR (CHR ''A'') (CHR ''Z'')], RStar RWd]]"
definition RE_PATTERN_REF_STREAM_PARAM :: rx where
  "RE_PATTERN_REF_STREAM_PARAM = rseq [RStar RAny, RLit ''stream'', RStar RSp, RLit ''&'',
     RStar RSp, RIn [CI (CHR ''_''), CR (CHR ''a'') (CHR ''z''), CR (CHR ''A'') (CHR ''Z'')],
     RStar RWd]"
definition BODY_BRACES_PAT :: rx where
  "BODY_BRACES_PAT = rseq [RLit ''{'', RStar (RNotIn [CI (CHR ''}'')]), RLit ''}'']"
definition SPACED_LESS_PAT :: rx where
  "SPACED_LESS_PAT = rseq [RStar (RLit '' ''), RLit ''<'']"

definition parameter_reports :: "int \<Rightarrow> string \<Rightarrow> action list" where
  "parameter_reports n line =
     [Report n ''runtime/references'' 2
        (''Is this a non-const reference? '' @ ''If so, make const or use a pointer: '' @
         ReplaceAll SPACED_LESS_PAT ''<'' parameter).
      parameter \<leftarrow> findall1 RE_PATTERN_REF_PARAM (ReplaceAll BODY_BRACES_PAT '' '' line),
      \<not> matches RE_PATTERN_CONST_REF_PARAM parameter, \<not> matches RE_PATTERN_REF_STREAM_PARAM parameter]"

subsection \<open>The line joined with the one before\<close>

definition SCOPED_REF_PAT :: rx where
  "SCOPED_REF_PAT = rseq [RStar RSp, RLit ''::'', RPlus (ralt [RIn [CWord, CI (CHR ''<''),
     CI (CHR ''>'')], RLit ''::'']), RStar RSp, RLit ''&'', RStar RSp, RNSp]"
definition TYPE_BEFORE_PAT :: rx where
  "TYPE_BEFORE_PAT = rseq [RWordB, RGrp 1 (rseq [ROpt (rseq [RLit ''const'', RStar RSp]),
     RPlus (ralt [RIn [CWord, CI (CHR ''<''), CI (CHR ''>'')], RLit ''::'']), RIn [CWord,
     CI (CHR ''<''), CI (CHR ''>'')]]), RStar RSp, REol]"
definition TYPED_REF_PAT :: rx where
  "TYPED_REF_PAT = rseq [RStar RSp, RIn [CR (CHR ''a'') (CHR ''z''), CR (CHR ''A'') (CHR ''Z''),
     CI (CHR ''_'')], RPlus (RGrp 1 (ralt [RIn [CWord, CI (CHR ''<''), CI (CHR ''>'')],
     RLit ''::''])), RStar RSp, RLit ''&'', RStar RSp, RNSp]"
definition SCOPE_BEFORE_PAT :: rx where
  "SCOPE_BEFORE_PAT = rseq [RWordB, RGrp 1 (rseq [ROpt (rseq [RLit ''const'', RStar RSp]),
     RPlus (ralt [RIn [CWord, CI (CHR ''<''), CI (CHR ''>'')], RLit ''::'']), RLit ''::'']),
     RStar RSp, REol]"

definition joined_line :: "cleansed_lines \<Rightarrow> nat \<Rightarrow> string option" where
  "joined_line clean_lines linenum =
     (let es = elided clean_lines; line = es ! linenum
      in if linenum > 1 then
           (case (if matches SCOPED_REF_PAT line then Search TYPE_BEFORE_PAT (es ! (linenum - 1))
                  else if matches TYPED_REF_PAT line then Search SCOPE_BEFORE_PAT (es ! (linenum - 1))
                  else None) of
              Some previous \<Rightarrow> Some (grp previous 1 @ ulstrip line)
            | None \<Rightarrow>
                (let endpos = py_rfind line (CHR ''>'')
                 in if endpos > -1 then
                      map_option (\<lambda>(_, startline, startpos).
                          if startpos > -1 \<and> startline < linenum then
                            concat (map (\<lambda>i. ustrip (es ! i)) [startline..<linenum + 1])
                          else line)
                        (ReverseCloseExpression clean_lines linenum (nat endpos))
                    else Some line))
         else Some line)"

subsection \<open>The whole check\<close>

definition inside_body :: "nesting_state \<Rightarrow> bool" where
  "inside_body s =
     (case previous_stack_top s of
        None \<Rightarrow> False
      | Some b \<Rightarrow> (case kind b of ClassInfo _ \<Rightarrow> False | NamespaceInfo _ \<Rightarrow> False | _ \<Rightarrow> True))"

definition LIST_END_PAT :: rx where
  "LIST_END_PAT = rseq [RIn [CI (CHR '')''), CI (CHR '','')], RStar RSp, REol]"
definition COLON_START_PAT :: rx where
  "COLON_START_PAT = rseq [RBol, RStar RSp, RLit '':'', RPlus RSp, RNSp]"

fun initializer_before :: "string list \<Rightarrow> nat list \<Rightarrow> bool" where
  "initializer_before es [] = False"
| "initializer_before es (i # is) =
     (if \<not> searches LIST_END_PAT (es ! i) then False
      else matches COLON_START_PAT (es ! i) \<or> initializer_before es is)"

definition MACRO_LINE_END_PAT :: rx where
  "MACRO_LINE_END_PAT = rseq [RLit [bs], RStar RSp, REol]"
definition WHITELISTED_PAT :: rx where
  "WHITELISTED_PAT = rseq [ralt [rseq [RIn [CI (CHR ''s''), CI (CHR ''S'')], RLit ''wap'',
     ROpt (rseq [RLit ''<'', RWd, RPlus (RLit '':''), RLit ''>''])], rseq [RLit ''operator'',
     RStar RSp, RIn [CI (CHR ''<''), CI (CHR ''>'')], RIn [CI (CHR ''<''), CI (CHR ''>'')]],
     RLit ''static_assert'', RLit ''COMPILE_ASSERT''], RStar RSp, RLit ''('']"
definition OPEN_CALL_PAT :: rx where
  "OPEN_CALL_PAT = rseq [RPlus RNSp, RLit ''('', RStar (RNotIn [CI (CHR '')'')]), REol]"

definition whitelisted :: "string list \<Rightarrow> nat \<Rightarrow> string \<Rightarrow> bool" where
  "whitelisted es linenum line =
     (searches WHITELISTED_PAT line \<or>
      \<not> searches OPEN_CALL_PAT line \<and>
        (\<exists>i \<in> set [0, 1]. linenum > i \<and> searches WHITELISTED_PAT (es ! (linenum - i - 1))))"

definition CheckForNonConstReference :: "cleansed_lines \<Rightarrow> nat \<Rightarrow> nesting_state \<Rightarrow> action list option" where
  "CheckForNonConstReference clean_lines linenum s =
     (let es = elided clean_lines
      in if CHR ''&'' \<notin> set (es ! linenum) then Some []
         else (case IsDerivedFunction clean_lines linenum of
             None \<Rightarrow> None
           | Some derived \<Rightarrow>
               (if derived \<or> IsOutOfLineMethodDefinition clean_lines linenum then Some []
                else map_option (\<lambda>line.
                    if inside_body s \<or> initializer_before es (rev [(linenum - 10) + 1..<linenum]) \<or>
                       searches MACRO_LINE_END_PAT line \<or> IsInitializerList clean_lines linenum \<or>
                       whitelisted es linenum line
                    then []
                    else parameter_reports (int linenum) line)
                  (joined_line clean_lines linenum))))"

subsection \<open>The check always returns\<close>

lemma rfind_at_range: "rfind_at i c s j = j \<or> int i \<le> rfind_at i c s j \<and> rfind_at i c s j < int (i + length s)"
  by (induction i c s j rule: rfind_at.induct) auto

lemma py_rfind_range: "py_rfind s c \<noteq> -1 \<Longrightarrow> 0 \<le> py_rfind s c \<and> nat (py_rfind s c) < length s"
  using rfind_at_range [of 0 c s "-1"] by (auto simp: py_rfind_def)

lemma FUNCTION_HEAD_group: "Match FUNCTION_HEAD_PAT line = Some m \<Longrightarrow> length (grp m 1) < length line"
  by (erule Match_mem) (auto simp: FUNCTION_HEAD_PAT_def reach_simps)

lemma find_head_Some:
  "find_head cl is = Some (i, m) \<Longrightarrow> i \<in> set is \<and> length (grp m 1) < length (elided cl ! i)"
  by (induction "is") (auto split: option.splits dest: FUNCTION_HEAD_group)

lemma ReverseCloseExpression_total:
  "n < length (elided cl) \<Longrightarrow> i < length (elided cl ! n) \<Longrightarrow> ReverseCloseExpression cl n i \<noteq> None"
  by (simp add: ReverseCloseExpression_def Let_def del: not_None_eq split: prod.splits)

lemma IsDerivedFunction_total:
  assumes "linenum < length (elided cl)"
  shows "IsDerivedFunction cl linenum \<noteq> None"
proof -
  have "CloseExpression cl i (length (grp m 1)) \<noteq> None"
    if "find_head cl (recent_lines linenum) = Some (i, m)" for i m
    using find_head_Some [OF that] assms CloseExpression_bound [of i cl "length (grp m 1)"]
    by (auto simp: recent_lines_def)
  then show ?thesis by (fastforce simp: IsDerivedFunction_def split: option.splits)
qed

lemma joined_line_total:
  assumes "linenum < length (elided cl)"
  shows "joined_line cl linenum \<noteq> None"
  using ReverseCloseExpression_total [OF assms] py_rfind_range [of "elided cl ! linenum" "CHR ''>''"]
  by (auto simp: joined_line_def Let_def split: option.splits)

text \<open>C33: The check of references returns for every line of the file, whatever the state: none of the
  bracket searches it starts is given a position outside its line.\<close>

theorem reference_check_returns:
  assumes "linenum < length (elided cl)"
  shows "\<exists>as. CheckForNonConstReference cl linenum s = Some as"
  using IsDerivedFunction_total [OF assms] joined_line_total [OF assms]
  by (auto simp: CheckForNonConstReference_def Let_def)

theorem reference_check_returns_witness:
  "\<exists>as. CheckForNonConstReference \<lparr>elided = [''void f(int& x);''], lines = [''void f(int& x);''],
     raw_lines = [''void f(int& x);''], lines_without_raw_strings = [''void f(int& x);'']\<rparr> 0 init_nesting_state = Some as"
  by (rule reference_check_returns) simp

end
