(* ===== verification/Include_Use.thy ===== *)
theory Include_Use
  imports Include_Checks
begin

text \<open>
  The headers a file needs (tools/scripts/cpplint.py, lines 5411 to 5660): which templates are used,
  which headers are included, by the file or by the header of its own module, and what is missing.

  The files are a parameter: \<open>read\<close> gives the decoded text of a file, or \<open>None\<close> for IOError.
  A dict is an association list; the order of its keys is that of their insertion, where Python
  leaves it open.
\<close>

subsection \<open>Templates and their headers\<close>

definition HEADERS_CONTAINING_TEMPLATES :: "(string \<times> string list) list" where
  "HEADERS_CONTAINING_TEMPLATES =
     [(''<deque>'', [''deque'']),
     (''<functional>'', [''unary_function'', ''binary_function'', ''plus'', ''minus'',
        ''multiplies'', ''divides'', ''modulus'', ''negate'', ''equal_to'', ''not_equal_to'',
        ''greater'', ''less'', ''greater_equal'', ''less_equal'', ''logical_and'',
        ''logical_or'', ''logical_not'', ''unary_negate'', ''not1'', ''binary_negate'', ''not2'',
        ''bind1st'', ''bind2nd'', ''pointer_to_unary_function'', ''pointer_to_binary_function'',
        ''ptr_fun'', ''mem_fun_t'', ''mem_fun'', ''mem_fun1_t'', ''mem_fun1_ref_t'',
        ''mem_fun_ref_t'', ''const_mem_fun_t'', ''const_mem_fun1_t'', ''const_mem_fun_ref_t'',
        ''const_mem_fun1_ref_t'', ''mem_fun_ref'']),
     (''<limits>'', [''numeric_limits'']),
     (''<list>'', [''list'']),
     (''<map>'', [''map'', ''multimap'']),
     (''<memory>'', [''allocator'', ''make_shared'', ''make_unique'', ''shared_ptr'',
        ''unique_ptr'', ''weak_ptr'']),
     (''<queue>'', [''queue'', ''priority_queue'']),
     (''<set>'', [''set'', ''multiset'']),
     (''<stack>'', [''stack'']),
     (''<string>'', [''char_traits'', ''basic_string'']),
     (''<tuple>'', [''tuple'']),
     (''<unordered_map>'', [''unordered_map'', ''unordered_multimap'']),
     (''<unordered_set>'', [''unordered_set'', ''unordered_multiset'']),
     (''<utility>'', [''pair'']),
     (''<vector>'', [''vector'']),
     (''<hash_map>'', [''hash_map'', ''hash_multimap'']),
     (''<hash_set>'', [''hash_set'', ''hash_multiset'']),
     (''<slist>'', [''slist''])]"

definition HEADERS_MAYBE_TEMPLATES :: "(string \<times> string list) list" where
  "HEADERS_MAYBE_TEMPLATES =
     [(''<algorithm>'', [''copy'', ''max'', ''min'', ''min_element'', ''sort'', ''transform'']),
     (''<utility>'', [''forward'', ''make_pair'', ''move'', ''swap''])]"

definition RE_PATTERN_STRING :: rx where
  "RE_PATTERN_STRING = rseq [RWordB, RLit ''string'', RWordB]"
definition MAYBE_TEMPLATE_PAT :: "string \<Rightarrow> rx" where
  "MAYBE_TEMPLATE_PAT name = rseq [RNotIn [CI (CHR ''>''), CI (CHR ''.'')], RWordB, RLit name,
     ROpt (RGrp 1 (rseq [RLit ''<'', RLazy RAny, RLit ''>''])), RLit ''('',
     RNotIn [CI (CHR '')'')]]"
definition TEMPLATE_PAT :: "string \<Rightarrow> rx" where
  "TEMPLATE_PAT name = rseq [RGrp 1 (ralt [RLit ''<'', RWordB]), RLit name, RStar RSp,
     RLit ''<'']"

definition re_pattern_headers_maybe_templates :: "(rx \<times> string \<times> string) list" where
  "re_pattern_headers_maybe_templates =
     concat (map (\<lambda>(header, templates). map (\<lambda>template. (MAYBE_TEMPLATE_PAT template, template, header)) templates)
       HEADERS_MAYBE_TEMPLATES)"

definition re_pattern_templates :: "(rx \<times> string \<times> string) list" where
  "re_pattern_templates =
     concat (map (\<lambda>(header, templates). map (\<lambda>template. (TEMPLATE_PAT template, template @ ''<>'', header)) templates)
       HEADERS_CONTAINING_TEMPLATES)"

definition stl_prefix :: "string \<Rightarrow> bool" where
  "stl_prefix pfx = (endswith pfx ''std::'' \<or> \<not> endswith pfx ''::'')"

definition string_uses :: "string \<Rightarrow> (string \<times> string) list" where
  "string_uses line =
     (case Search RE_PATTERN_STRING line of
        None \<Rightarrow> []
      | Some m \<Rightarrow> (if stl_prefix (take (mo_start m) line) then [(''<string>'', ''string'')] else []))"

definition maybe_uses :: "string \<Rightarrow> (string \<times> string) list" where
  "maybe_uses line =
     [(header, template). (pattern, template, header) \<leftarrow> re_pattern_headers_maybe_templates, searches pattern line]"

definition template_uses :: "string \<Rightarrow> (string \<times> string) list" where
  "template_uses line = concat (map (\<lambda>(pattern, template, header).
     case Search pattern line of
       None \<Rightarrow> []
     | Some m \<Rightarrow> (if stl_prefix (take (mo_start m) line) then [(header, template)] else []))
     re_pattern_templates)"

text \<open>The headers one line asks for, in the order of the assignments; a line without \<open><\<close> skips the
  last group.\<close>

definition line_uses :: "string \<Rightarrow> (string \<times> string) list" where
  "line_uses line =
     (if line = [] \<or> hd line = CHR ''#'' then []
      else string_uses line @ maybe_uses line @
        (if CHR ''<'' \<notin> set line then [] else template_uses line))"

fun required_from :: "nat \<Rightarrow> string list \<Rightarrow> (string \<times> nat \<times> string) list \<Rightarrow> (string \<times> nat \<times> string) list" where
  "required_from linenum [] required = required"
| "required_from linenum (line # ls) required =
     required_from (linenum + 1) ls
       (fold (\<lambda>(header, template). AList.update header (linenum, template)) (line_uses line) required)"

subsection \<open>The headers of the module\<close>

definition module_path :: "string \<Rightarrow> string" where
  "module_path f = py_replace ''/internal/'' ''/'' (py_replace ''/public/'' ''/'' f)"

definition module_header :: "string \<Rightarrow> string" where
  "module_header filename_h =
     (let h = slice_to filename_h (- int (length ''.h''))
      in module_path (if endswith h ''-inl'' then slice_to h (- int (length ''-inl'')) else h))"

definition FilesBelongToSameModule ::
    "(string \<Rightarrow> bool) \<Rightarrow> string \<Rightarrow> string \<Rightarrow> string \<Rightarrow> (bool \<times> string) option" where
  "FilesBelongToSameModule exists cwd filename_cc filename_h = do {
     is_source \<leftarrow> IsSource exists cwd filename_cc;
     if \<not> is_source then Some (False, [])
     else do {
       extension \<leftarrow> Extension exists cwd filename_cc;
       basename \<leftarrow> BaseName exists cwd filename_cc;
       let stem = slice_to filename_cc (- int (length extension));
       let stem' = (case Search TEST_FILE_SUFFIX basename of
         None \<Rightarrow> stem | Some m \<Rightarrow> slice_to stem (- int (length (grp m 1))));
       let cc = module_path stem';
       let h = module_header filename_h;
       if \<not> endswith filename_h ''.h'' then Some (False, [])
       else Some (endswith cc h, if endswith cc h then slice_to cc (- int (length h)) else [])
     }
   }"

fun set_defaults :: "int \<Rightarrow> string list \<Rightarrow> (string \<times> int) list \<Rightarrow> (string \<times> int) list" where
  "set_defaults linenum [] include_dict = include_dict"
| "set_defaults linenum (line # ls) include_dict =
     set_defaults (linenum + 1) ls
       (case Search RE_PATTERN_INCLUDE (CleanseComments line) of
          None \<Rightarrow> include_dict
        | Some m \<Rightarrow> (if map_of include_dict (grp m 2) = None
                      then AList.update (grp m 2) linenum include_dict else include_dict))"

text \<open>The lines of a decoded file, as its reader yields them: each ends with its line break, and the
  breaks are those of Unicode.\<close>

definition line_break :: "char \<Rightarrow> bool" where
  "line_break c = (c \<in> {nl, cr, CHR 0x0B, CHR 0x0C, CHR 0x1C, CHR 0x1D, CHR 0x1E, CHR 0x85})"

fun read_lines :: "string \<Rightarrow> string \<Rightarrow> string list" where
  "read_lines line [] = (if line = [] then [] else [line])"
| "read_lines line [c] = [line @ [c]]"
| "read_lines line (c # d # cs) =
     (if c = cr \<and> d = nl then (line @ [c, d]) # read_lines [] cs
      else if line_break c then (line @ [c]) # read_lines [] (d # cs)
      else read_lines (line @ [c]) (d # cs))"

definition UpdateIncludeState ::
    "(string \<Rightarrow> string option) \<Rightarrow> string \<Rightarrow> (string \<times> int) list \<Rightarrow> bool \<times> (string \<times> int) list" where
  "UpdateIncludeState read filename include_dict =
     (case read filename of
        None \<Rightarrow> (False, include_dict)
      | Some headerfile \<Rightarrow> (True, set_defaults 1 (read_lines [] headerfile) include_dict))"

fun module_includes ::
    "(string \<Rightarrow> bool) \<Rightarrow> string \<Rightarrow> (string \<Rightarrow> string option) \<Rightarrow> string \<Rightarrow> string list \<Rightarrow>
     bool \<times> (string \<times> int) list \<Rightarrow> (bool \<times> (string \<times> int) list) option" where
  "module_includes exists cwd read abs_filename [] st = Some st"
| "module_includes exists cwd read abs_filename (header # headers) (header_found, include_dict) = do {
     (same_module, common_path) \<leftarrow> FilesBelongToSameModule exists cwd abs_filename header;
     if same_module then
       (case UpdateIncludeState read (common_path @ header) include_dict of
          (loaded, d) \<Rightarrow> module_includes exists cwd read abs_filename headers (header_found \<or> loaded, d))
     else module_includes exists cwd read abs_filename headers (header_found, include_dict)
   }"

subsection \<open>The check\<close>

definition FLYMAKE_PAT :: rx where
  "FLYMAKE_PAT = rseq [RLit ''_flymake.cc'', REol]"

definition bare_header :: "string \<Rightarrow> string" where
  "bare_header h = strip_by (\<lambda>c. c \<in> {CHR ''<'', CHR ''>'', dq}) h"

definition CheckForIncludeWhatYouUse ::
    "(string \<Rightarrow> bool) \<Rightarrow> string \<Rightarrow> (string \<Rightarrow> string option) \<Rightarrow> string \<Rightarrow> cleansed_lines \<Rightarrow>
     include_state \<Rightarrow> action list option" where
  "CheckForIncludeWhatYouUse exists cwd read filename clean_lines s = do {
     let required = required_from 0 (elided clean_lines) [];
     let include_dict = fold (\<lambda>(header, n). AList.update header n) (concat (include_list s)) [];
     let abs_filename = re_sub FLYMAKE_PAT (\<lambda>_. ''.cc'') (FullName cwd filename);
     (header_found, include_dict') \<leftarrow>
       module_includes exists cwd read abs_filename (map fst include_dict) (False, include_dict);
     if endswith filename ''.cc'' \<and> \<not> header_found then Some []
     else Some [Report (int n) ''build/include_what_you_use'' 4 (''Add #include '' @ h @ '' for '' @ template).
       (h, n, template) \<leftarrow> required, bare_header h \<notin> set (map fst include_dict')]
   }"

subsection \<open>What is required\<close>

text \<open>The use of a header on a line, without the shortcut for lines that have no \<open><\<close>: the last
  template of the line that needs it.\<close>

definition all_uses :: "string \<Rightarrow> (string \<times> string) list" where
  "all_uses line = (if line = [] \<or> hd line = CHR ''#'' then []
     else string_uses line @ maybe_uses line @ template_uses line)"

definition last_use :: "string \<Rightarrow> string \<Rightarrow> string option" where
  "last_use line header = map_of (rev (all_uses line)) header"

lemma TEMPLATE_less:
  assumes "searches (TEMPLATE_PAT name) line"
  shows "CHR ''<'' \<in> set line"
  using assms by (auto simp: searches_reach TEMPLATE_PAT_def reach_simps)

lemma template_uses_none:
  assumes "CHR ''<'' \<notin> set line"
  shows "template_uses line = []"
proof -
  have "Search (TEMPLATE_PAT name) line = None" for name
    using TEMPLATE_less [of name line] assms unfolding searches_def by blast
  then show ?thesis by (auto simp: template_uses_def re_pattern_templates_def)
qed

lemma line_uses_all: "line_uses line = all_uses line"
  by (simp add: line_uses_def all_uses_def template_uses_none)

lemma map_of_assigned:
  "map_of (fold (\<lambda>(header, template). AList.update header (n, template)) us d) h =
     (case map_of (rev us) h of Some t \<Rightarrow> Some (n, t) | None \<Rightarrow> map_of d h)"
  by (induction us arbitrary: d) (auto simp: update_conv' map_add_def split: option.splits)

lemma required_from_snoc:
  "required_from k (ls @ [l]) d =
     fold (\<lambda>(header, template). AList.update header (k + length ls, template)) (line_uses l) (required_from k ls d)"
  by (induction ls arbitrary: k d) simp_all


end
