(* ===== verification/File_Run.thy ===== *)
theory File_Run
  imports Language_Checks Reference_Checks Include_Use
begin

text \<open>
  One file through the linter (tools/scripts/cpplint.py, \<open>ProcessLine\<close> and \<open>ProcessFileData\<close>): the
  state objects of the file and the order in which the checks of the other theories are run.

  An exception, or a search that does not end, is \<open>None\<close>.  No check looks at what was printed or
  suppressed, so the calls to the \<open>error\<close> callback are collected and carried out in order.
\<close>

subsection \<open>State\<close>

text \<open>The three objects made for each file, and the module variable \<open>function_arg_state\<close>.\<close>

record file_state =
  st_include :: include_state
  st_function :: function_state
  st_nesting :: nesting_state
  st_args :: function_args

type_synonym extra_check = "cleansed_lines \<Rightarrow> nat \<Rightarrow> action list"

subsection \<open>One line\<close>

definition style_and_language ::
    "lint_env \<Rightarrow> string \<Rightarrow> string \<Rightarrow> cleansed_lines \<Rightarrow> nat \<Rightarrow> file_state \<Rightarrow> (action list \<times> file_state) option" where
  "style_and_language env filename file_extension clean_lines line st = do {
     style \<leftarrow> CheckStyle env filename clean_lines line file_extension (st_nesting st);
     (language, inc) \<leftarrow> CheckLanguage env filename clean_lines line file_extension (st_include st);
     references \<leftarrow> CheckForNonConstReference clean_lines line (st_nesting st);
     constructs \<leftarrow> CheckForNonStandardConstructs clean_lines line (st_nesting st);
     virtuals \<leftarrow> CheckRedundantVirtual clean_lines line;
     Some (style @ language @ references @ constructs @ CheckVlogArguments clean_lines line @
       CheckPosixThreading clean_lines line @ CheckInvalidIncrement clean_lines line @
       CheckMakePairUsesDeduction clean_lines line @ virtuals @
       CheckRedundantOverrideOrFinal clean_lines line, st\<lparr>st_include := inc\<rparr>)
   }"

definition juniper_checks :: "cleansed_lines \<Rightarrow> nat \<Rightarrow> file_state \<Rightarrow> action list option" where
  "juniper_checks clean_lines line st = do {
     methods \<leftarrow> JuniperCheckMemberFunctionName clean_lines line (st_nesting st);
     Some (JuniperCheckIdentifierTypeName (st_nesting st) line @
       JuniperCheckEnumIdentifierTypeName clean_lines line @ methods @
       JuniperCheckDataMembers clean_lines line (st_nesting st) (st_function st) (st_args st) @
       JuniperCheckVariableName clean_lines line (st_nesting st) @ JuniperCheckTypedef clean_lines line)
   }"

definition ProcessLine ::
    "lint_env \<Rightarrow> int \<Rightarrow> extra_check list \<Rightarrow> string \<Rightarrow> string \<Rightarrow> cleansed_lines \<Rightarrow> nat \<Rightarrow> file_state \<Rightarrow>
     (action list \<times> file_state) option" where
  "ProcessLine env verbose extra filename file_extension clean_lines line st = do {
     let nolint = Nolint (raw_lines clean_lines ! line) (int line);
     (blocks, nesting) \<leftarrow> Update clean_lines line (st_nesting st);
     args \<leftarrow> fa_Update clean_lines line (st_args st);
     let st1 = st\<lparr>st_nesting := nesting, st_args := args\<rparr>;
     let as1 = nolint # blocks @ CheckForNamespaceIndentation nesting clean_lines line;
     if InAsmBlock nesting then Some (as1, st1)
     else do {
       (lengths, fs) \<leftarrow> CheckForFunctionLengths verbose clean_lines line (st_function st1);
       (as2, st2) \<leftarrow> style_and_language env filename file_extension clean_lines line (st1\<lparr>st_function := fs\<rparr>);
       as3 \<leftarrow> juniper_checks clean_lines line st2;
       Some (as1 @ lengths @ CheckForMultilineCommentsAndStrings clean_lines line @ as2 @
         concat (map (\<lambda>check. check clean_lines line) extra) @ as3, st2)
     }
   }"

fun process_lines ::
    "lint_env \<Rightarrow> int \<Rightarrow> extra_check list \<Rightarrow> string \<Rightarrow> string \<Rightarrow> cleansed_lines \<Rightarrow> nat list \<Rightarrow> file_state \<Rightarrow>
     (action list \<times> file_state) option" where
  "process_lines env verbose extra filename file_extension clean_lines [] st = Some ([], st)"
| "process_lines env verbose extra filename file_extension clean_lines (line # ls) st = do {
     (as, st1) \<leftarrow> ProcessLine env verbose extra filename file_extension clean_lines line st;
     (as', st2) \<leftarrow> process_lines env verbose extra filename file_extension clean_lines ls st1;
     Some (as @ FlagCxx11Features clean_lines line @ as', st2)
   }"

subsection \<open>One file\<close>

definition START_MARKER :: string where
  "START_MARKER = ''// marker so line numbers and indices both start at 1''"

definition END_MARKER :: string where
  "END_MARKER = ''// marker so line numbers end in a known way''"

definition init_file_state :: "function_args \<Rightarrow> file_state" where
  "init_file_state args = \<lparr>st_include = init_include_state, st_function = init_function_state,
     st_nesting = init_nesting_state, st_args = args\<rparr>"

text \<open>The checks of the cleansed file, from the header guard to the end of the file; \<open>ls\<close> are the
  lines after the comments were removed, \<open>replaced\<close> those in which decoding failed.\<close>

definition file_checks ::
    "lint_env \<Rightarrow> (string \<Rightarrow> string option) \<Rightarrow> int \<Rightarrow> extra_check list \<Rightarrow> string \<Rightarrow> string \<Rightarrow> (nat \<Rightarrow> bool) \<Rightarrow>
     string list \<Rightarrow> function_args \<Rightarrow> (action list \<times> function_args) option" where
  "file_checks env read verbose extra filename file_extension replaced ls args = do {
     clean_lines \<leftarrow> CleansedLines ls;
     guard \<leftarrow> (if IsHeaderExtension (le_hpp_headers env) file_extension
       then CheckForHeaderGuard (le_exists env) (le_cwd env) (le_root env) filename clean_lines else Some []);
     (as, st) \<leftarrow> process_lines env verbose extra filename file_extension clean_lines [0..<NumLines clean_lines]
       (init_file_state args);
     missing \<leftarrow> CheckForIncludeWhatYouUse (le_exists env) (le_cwd env) read filename clean_lines (st_include st);
     own \<leftarrow> (if IsSourceExtension file_extension
       then CheckHeaderFileIncluded (le_exists env) (le_cwd env) filename (st_include st) else Some []);
     Some (guard @ as @ CheckCompletedBlocks (st_nesting st) @ missing @ own @
       CheckForBadCharacters replaced ls @ CheckForNewlineAtEOF ls, st_args st)
   }"

definition ProcessFileData ::
    "lint_env \<Rightarrow> (string \<Rightarrow> string option) \<Rightarrow> extra_check list \<Rightarrow> string \<Rightarrow> string \<Rightarrow> (nat \<Rightarrow> bool) \<Rightarrow>
     string list \<Rightarrow> function_args \<times> globals \<Rightarrow> (function_args \<times> globals) option" where
  "ProcessFileData env read extra filename file_extension replaced ls0 = (\<lambda>(args, g). do {
     let ls = START_MARKER # ls0 @ [END_MARKER];
     g1 \<leftarrow> perform_all filename (CheckForCopyright ls) (ResetNolintSuppressions g);
     let g2 = ProcessGlobalSuppresions ls g1;
     let (ls', as) = RemoveMultiLineComments ls;
     (as', args') \<leftarrow> file_checks env read (verbose_level (lint g)) extra filename file_extension
       (\<lambda>i. replaced i \<and> ls' ! i = ls ! i) ls' args;
     g3 \<leftarrow> perform_all filename (as @ as') g2;
     Some (args', g3)
   })"

subsection \<open>What reporting leaves alone\<close>

definition settings :: "cpplint_state \<Rightarrow> cpplint_state" where
  "settings s = s\<lparr>error_count := 0, errors_by_category := []\<rparr>"

lemma Error_settings: "Error f n c k msg g = Some g' \<Longrightarrow> settings (lint g') = settings (lint g)"
  by (auto simp: Error_def settings_def IncrementErrorCount_def Let_def split: option.splits bool.splits)

lemma perform_settings: "perform f a g = Some g' \<Longrightarrow> settings (lint g') = settings (lint g)"
  by (cases a) (auto simp: ParseNolintSuppressions_def Let_def dest: Error_settings split: option.splits if_splits)

interpretation reporting: state_steps "perform f" wf_globals "\<lambda>g. settings (lint g)"
  for f
proof unfold_locales
  show "wf_globals g \<Longrightarrow> perform f a g = Some g' \<Longrightarrow> wf_globals g'" for g a g'
    using perform_all_total [of g f "[a]"] by auto
qed (rule perform_settings)

lemma perform_all_steps: "perform_all f as g = reporting.run_steps f as g"
  by (induction as arbitrary: g) (auto split: option.split)

lemmas perform_all_settings = reporting.run_steps_view [folded perform_all_steps]
lemmas perform_all_wf = reporting.run_steps_inv [folded perform_all_steps]

lemma set_global_lint [simp]: "lint (set_global_suppressions cs g) = lint g"
  by (induction cs arbitrary: g) simp_all

lemma ProcessGlobal_lint [simp]: "lint (ProcessGlobalSuppresions ls g) = lint g"
  by (induction ls arbitrary: g) (simp_all add: Let_def)

lemma ResetNolint_lint [simp]: "lint (ResetNolintSuppressions g) = lint g"
  by (simp add: ResetNolintSuppressions_def)

lemma ProcessFileData_runs:
  assumes "ProcessFileData env read extra f ext replaced ls (args, g) = Some (args', g')"
  obtains as1 as2 g1 where "perform_all f as1 (ResetNolintSuppressions g) = Some g1"
    "perform_all f as2 (ProcessGlobalSuppresions (START_MARKER # ls @ [END_MARKER]) g1) = Some g'"
  using assms
  unfolding ProcessFileData_def Let_def split_beta bind_eq_Some_conv fst_conv snd_conv option.inject prod.inject
  by blast

lemma ProcessFileData_settings:
  assumes "ProcessFileData env read extra f ext replaced ls (args, g) = Some (args', g')"
  shows "settings (lint g') = settings (lint g)"
  using assms by (rule ProcessFileData_runs) (auto dest!: perform_all_settings)

lemma ProcessFileData_wf:
  assumes "ProcessFileData env read extra f ext replaced ls (args, g) = Some (args', g')" "wf_globals g"
  shows "wf_globals g'"
  using assms(1) by (rule ProcessFileData_runs) (metis assms(2) perform_all_wf ProcessGlobal_lint ResetNolint_lint)

subsection \<open>Lines with a NOLINT comment\<close>

definition muted :: "int \<Rightarrow> globals \<Rightarrow> bool" where
  "muted n g = (case error_suppressions g None of None \<Rightarrow> False | Some ns \<Rightarrow> n \<in> ns)"

lemma muted_report: "muted n g \<Longrightarrow> perform f (Report n c k msg) g = Some g"
  by (auto simp: muted_def Error_def ShouldPrintError_def IsErrorSuppressedByNolint_def split: option.splits)

lemma muted_suppress: "muted n g \<Longrightarrow> muted n (suppress k m g)"
  by (auto simp: muted_def suppress_def split: option.splits)

lemma muted_Error: "muted n g \<Longrightarrow> Error f m c k msg g = Some g' \<Longrightarrow> muted n g'"
  by (auto simp: muted_def Error_def split: option.splits bool.splits)

lemma muted_perform: "muted n g \<Longrightarrow> perform f a g = Some g' \<Longrightarrow> muted n g'"
  by (cases a) (auto simp: ParseNolintSuppressions_def Let_def
      intro: muted_suppress muted_Error split: option.splits if_splits)

definition about_line :: "int \<Rightarrow> action \<Rightarrow> bool" where
  "about_line n a = (is_report a \<and> a_line a = n)"

lemma muted_about: "muted n g \<Longrightarrow> about_line n a \<Longrightarrow> perform f a g = Some g"
  by (cases a) (auto simp: about_line_def is_report_def muted_report simp del: perform.simps)

lemma perform_muted:
  "muted n g \<Longrightarrow> perform_all f as g = perform_all f (filter (\<lambda>a. \<not> about_line n a) as) g"
proof (induction as arbitrary: g)
  case (Cons a as)
  then show ?case
    by (cases "about_line n a") (auto simp: muted_about dest: muted_perform split: option.split)
qed simp

lemma ProcessLine_Nolint:
  assumes "ProcessLine env verbose extra f ext cl line st = Some (as, st')"
  obtains as' where "as = Nolint (raw_lines cl ! line) (int line) # as'"
proof (cases "InAsmBlock (snd (the (Update cl line (st_nesting st))))")
  case True
  then show ?thesis using assms that unfolding ProcessLine_def Let_def split_beta
    by (auto simp only: bind_eq_Some_conv option.sel if_True option.inject prod.inject append_Cons)
next
  case False
  then show ?thesis using assms that unfolding ProcessLine_def Let_def split_beta
    by (auto simp only: bind_eq_Some_conv option.sel if_False option.inject prod.inject append_Cons)
qed

lemma process_lines_Nolint:
  assumes "process_lines env verbose extra f ext cl (line # ls) st = Some (as, st')"
  obtains as' where "as = Nolint (raw_lines cl ! line) (int line) # as'"
  using assms by (auto simp: bind_eq_Some_conv elim: ProcessLine_Nolint)

subsection \<open>An example\<close>

definition example_file :: cleansed_lines where
  "example_file = \<lparr>elided = [''typedef int T;''], lines = [''typedef int T;''],
     raw_lines = [''typedef int T;  // NOLINT''], lines_without_raw_strings = [''typedef int T;  // NOLINT'']\<rparr>"

definition example_env :: lint_env where
  "example_env = \<lparr>le_exists = (\<lambda>_. False), le_cwd = ''/r'', le_root = None, le_hpp_headers = [''h''],
     le_line_length = 80\<rparr>"

lemma example_file_reports:
  "map_option (\<lambda>(as, st). map a_category (filter (about_line 0) as))
     (process_lines example_env 1 [] ''a.cc'' ''cc'' example_file [0] (init_file_state init_function_args)) =
   Some [''Juniper/Keywords'']"
  by code_simp

text \<open>C4: Once the linter comes to a line with a NOLINT comment that names no category, no check on
  that line or on a later one can report on it any more: the messages and the counts of the rest of
  the file are the same with all reports on that line left out.\<close>

theorem nolint_line_is_silent:
  assumes "process_lines env verbose extra f ext cl (line # ls) st = Some (as, st')"
    and "Search NOLINT_PAT (raw_lines cl ! line) = Some m" "group m 1 = None" "group m 2 = None"
  shows "perform_all f as g = perform_all f (filter (\<lambda>a. \<not> about_line (int line) a) as) g"
proof -
  obtain as' where as: "as = Nolint (raw_lines cl ! line) (int line) # as'"
    using assms(1) by (rule process_lines_Nolint)
  have "muted (int line) (suppress None (int line) g)" by (simp add: muted_def suppress_def)
  from perform_muted [OF this, of f as'] show ?thesis
    using assms(2-4) by (simp add: as about_line_def is_report_def ParseNolintSuppressions_def)
qed

theorem nolint_line_is_silent_witness:
  "\<exists>as st. process_lines example_env 1 [] ''a.cc'' ''cc'' example_file [0] (init_file_state init_function_args) =
       Some (as, st) \<and> filter (about_line 0) as \<noteq> [] \<and>
     perform_all ''a.cc'' as init_globals = perform_all ''a.cc'' (filter (\<lambda>a. \<not> about_line 0 a) as) init_globals"
proof -
  obtain as st where p: "process_lines example_env 1 [] ''a.cc'' ''cc'' example_file [0]
      (init_file_state init_function_args) = Some (as, st)" "filter (about_line 0) as \<noteq> []"
    using example_file_reports by auto
  have "(case Search NOLINT_PAT (raw_lines example_file ! 0) of None \<Rightarrow> False
      | Some m \<Rightarrow> group m 1 = None \<and> group m 2 = None)" by code_simp
  then obtain m where "Search NOLINT_PAT (raw_lines example_file ! 0) = Some m" "group m 1 = None" "group m 2 = None"
    by (auto split: option.splits)
  from nolint_line_is_silent [OF p(1) this, of init_globals] show ?thesis using p by auto
qed

text \<open>What a file is reported for does not depend on the suppressions left by the files before it:
  only the counters, the settings and the state of the argument tracker are carried over.\<close>

theorem suppressions_do_not_leak:
  "ProcessFileData env read extra f ext replaced ls
     (args, g\<lparr>error_suppressions := es, global_error_suppressions := gs\<rparr>) =
   ProcessFileData env read extra f ext replaced ls (args, g)"
  by (simp add: ProcessFileData_def ResetNolintSuppressions_def)

end
