(* ===== verification/Driver.thy ===== *)
theory Driver
  imports File_Run
begin

text \<open>
  The linter as a command (tools/scripts/cpplint.py, lines 571 to 581 and 6297 to 6595): the options, the
  per-directory configuration files, the files given on the command line, and the exit status.

  An exception that nobody catches is \<open>None\<close>.  \<open>stderr\<close> and \<open>pg_stdout\<close> list what was written,
  one entry for each write, without the line break at its end.
\<close>

subsection \<open>The surroundings and the state\<close>

text \<open>
  What the program asks of the system.  \<open>sys_read\<close> is the decoded text of a file, \<open>sys_bytes\<close> the
  bytes of a configuration file (\<open>None\<close> is IOError), \<open>sys_replaced\<close> the lines in which decoding had
  to put a replacement character.  \<open>sys_pattern\<close> matches a name against the text of a regular
  expression from a configuration file (\<open>None\<close> when it does not compile).
\<close>

record system =
  sys_exists :: "string \<Rightarrow> bool"
  sys_isfile :: "string \<Rightarrow> bool"
  sys_cwd :: string
  sys_read :: "string \<Rightarrow> string option"
  sys_bytes :: "string \<Rightarrow> string option"
  sys_stdin :: string
  sys_replaced :: "string \<Rightarrow> nat \<Rightarrow> bool"
  sys_pattern :: "string \<Rightarrow> string \<Rightarrow> bool option"

record program =
  pg_globals :: globals
  pg_args :: function_args
  pg_root :: "string option"
  pg_line_length :: int
  pg_extensions :: "string list"
  pg_headers :: "string list"
  pg_stdout :: "string list"

definition init_program :: program where
  "init_program = \<lparr>pg_globals = init_globals, pg_args = init_function_args, pg_root = None,
     pg_line_length = 80, pg_extensions = [''cc'', ''h'', ''cpp'', ''cu'', ''cuh''],
     pg_headers = [''h''], pg_stdout = []\<rparr>"

definition on_lint :: "(cpplint_state \<Rightarrow> cpplint_state) \<Rightarrow> program \<Rightarrow> program" where
  "on_lint f p = p\<lparr>pg_globals := (pg_globals p)\<lparr>lint := f (lint (pg_globals p))\<rparr>\<rparr>"

definition write_stderr :: "string \<Rightarrow> program \<Rightarrow> program" where
  "write_stderr msg p = p\<lparr>pg_globals := (pg_globals p)\<lparr>stderr := stderr (pg_globals p) @ [msg]\<rparr>\<rparr>"

definition write_stdout :: "string \<Rightarrow> program \<Rightarrow> program" where
  "write_stdout msg p = p\<lparr>pg_stdout := pg_stdout p @ [msg]\<rparr>"

abbreviation pg_lint :: "program \<Rightarrow> cpplint_state" where
  "pg_lint p \<equiv> lint (pg_globals p)"

text \<open>\<open>int(s)\<close>; Python 2 allows blanks behind the sign.\<close>

definition py_int :: "string \<Rightarrow> int option" where
  "py_int s =
     (let t = strip s; neg = startswith t ''-'';
          ds = (if neg \<or> startswith t ''+'' then lstrip_by is_ws (drop 1 t) else t)
      in if ds = [] \<or> \<not> list_all is_digit ds then None
         else (let n = foldl (\<lambda>n c. 10 * n + (int (ord c) - 48)) 0 ds in Some (if neg then - n else n)))"

definition ProcessHppHeadersOption :: "string \<Rightarrow> program \<Rightarrow> program" where
  "ProcessHppHeadersOption val p =
     (let hs = split_char (CHR '','') val
      in p\<lparr>pg_headers := hs, pg_extensions := pg_extensions p @ filter (\<lambda>h. h \<notin> set (pg_extensions p)) hs\<rparr>)"

subsection \<open>Configuration files\<close>

record config =
  cf_program :: program
  cf_filters :: "string list"
  cf_keep_looking :: bool
  cf_excluded :: bool

definition partition1 :: "char \<Rightarrow> string \<Rightarrow> string \<times> string" where
  "partition1 c s = (takeWhile (\<lambda>x. x \<noteq> c) s, drop 1 (dropWhile (\<lambda>x. x \<noteq> c) s))"

definition config_option ::
    "system \<Rightarrow> string \<Rightarrow> string \<Rightarrow> string \<Rightarrow> string \<Rightarrow> string \<Rightarrow> config \<Rightarrow> config option" where
  "config_option sys filename cfg_file base_name name val c =
     (let p = cf_program c
      in if name = ''set noparent'' then Some (c\<lparr>cf_keep_looking := False\<rparr>)
         else if name = ''filter'' then Some (c\<lparr>cf_filters := cf_filters c @ [val]\<rparr>)
         else if name = ''exclude_files'' then
           map_option (\<lambda>excluded.
               if \<not> excluded then c
               else c\<lparr>cf_excluded := True, cf_program :=
                 (if quiet (pg_lint p) then p
                  else write_stderr ((''Ignoring '' @ [dq]) @ filename @ ([dq] @ '': file excluded by '' @ [dq]) @ cfg_file @
                    ([dq] @ ''. File path component '' @ [dq]) @ base_name @ ([dq] @ '' matches pattern '' @ [dq]) @ val @ [dq]) p)\<rparr>)
             (sys_pattern sys val base_name)
         else Some (c\<lparr>cf_program :=
           (if name = ''linelength'' then
              (case py_int val of
                 Some n \<Rightarrow> p\<lparr>pg_line_length := n\<rparr>
               | None \<Rightarrow> write_stderr ''Line length must be numeric.'' p)
            else if name = ''root'' then p\<lparr>pg_root := Some (path_join2 (dirname cfg_file) val)\<rparr>
            else if name = ''headers'' then ProcessHppHeadersOption val p
            else write_stderr (''Invalid configuration option ('' @ name @ '') in file '' @ cfg_file) p)\<rparr>))"

fun config_lines :: "system \<Rightarrow> string \<Rightarrow> string \<Rightarrow> string \<Rightarrow> string list \<Rightarrow> config \<Rightarrow> config option" where
  "config_lines sys filename cfg_file base_name [] c = Some c"
| "config_lines sys filename cfg_file base_name (l # ls) c =
     (let line = fst (partition1 (CHR ''#'') l); (name, val) = partition1 (CHR ''='') line
      in if cf_excluded c then Some c
         else if strip line = [] then config_lines sys filename cfg_file base_name ls c
         else do {
           c' \<leftarrow> config_option sys filename cfg_file base_name (strip name) (strip val) c;
           config_lines sys filename cfg_file base_name ls c'
         })"

definition config_file :: "system \<Rightarrow> string \<Rightarrow> string \<Rightarrow> string \<Rightarrow> config \<Rightarrow> config option" where
  "config_file sys filename cfg_file base_name c =
     (case sys_bytes sys cfg_file of
        None \<Rightarrow> Some (c\<lparr>cf_keep_looking := False, cf_program :=
          write_stderr (''Skipping config file '' @ [sq] @ cfg_file @ [sq] @ ('': Can'' @ [sq] @ ''t open for reading'')) (cf_program c)\<rparr>)
      | Some content \<Rightarrow> config_lines sys filename cfg_file base_name (split_char nl content) c)"

lemma path_split_shorter:
  assumes "path_split p = (h, t)" "t \<noteq> []"
  shows "length h < length p"
proof -
  let ?i = "nat (py_rfind p sep + 1)"
  have "length (rstrip_by P w) \<le> length w" for P and w :: string
    using length_dropWhile_le [of P "rev w"] by (simp add: rstrip_by_def)
  then have "length h \<le> length (take ?i p)" 
    using assms(1) by (auto simp: path_split_def Let_def simp del: length_take split: if_splits)
  moreover have "?i < length p" using assms by (auto simp: path_split_def Let_def)
  ultimately show ?thesis by simp
qed

function config_walk :: "system \<Rightarrow> string \<Rightarrow> string \<Rightarrow> config \<Rightarrow> config option" where
  "config_walk sys filename abs_filename c =
     (if \<not> cf_keep_looking c \<or> cf_excluded c then Some c
      else (case path_split abs_filename of (abs_path, base_name) \<Rightarrow>
              if base_name = [] then Some c
              else (let cfg_file = path_join2 abs_path ''CPPLINT.cfg''
                    in case (if sys_isfile sys cfg_file then config_file sys filename cfg_file base_name c else Some c) of
                         None \<Rightarrow> None
                       | Some c' \<Rightarrow> config_walk sys filename abs_path c')))"
  by pat_completeness auto
termination
  by (relation "measure (\<lambda>(sys, filename, abs_filename, c). length abs_filename)")
     (auto intro!: path_split_shorter [OF sym])

declare config_walk.simps [simp del]

fun add_filters :: "string list \<Rightarrow> cpplint_state \<Rightarrow> cpplint_state option" where
  "add_filters [] s = Some s"
| "add_filters (f # fs) s = (case AddFilters f s of (Inl _, _) \<Rightarrow> None | (Inr _, s') \<Rightarrow> add_filters fs s')"

definition ProcessConfigOverrides :: "system \<Rightarrow> string \<Rightarrow> program \<Rightarrow> (bool \<times> program) option" where
  "ProcessConfigOverrides sys filename p = do {
     c \<leftarrow> config_walk sys filename (abspath (sys_cwd sys) filename)
       \<lparr>cf_program = p, cf_filters = [], cf_keep_looking = True, cf_excluded = False\<rparr>;
     if cf_excluded c then Some (False, cf_program c)
     else do {
       s \<leftarrow> add_filters (rev (cf_filters c)) (pg_lint (cf_program c));
       Some (True, on_lint (\<lambda>_. s) (cf_program c))
     }
   }"

subsection \<open>One file\<close>

definition has_cr :: "string \<Rightarrow> bool" where
  "has_cr line = endswith line [cr]"

definition strip_crs :: "string list \<Rightarrow> string list" where
  "strip_crs ls = map (\<lambda>l. if has_cr l then rstrip_by (\<lambda>c. c = cr) l else l) (butlast ls) @ [last ls]"

definition crlf_lines :: "string list \<Rightarrow> int list" where
  "crlf_lines ls = [int n + 1. (n, l) \<leftarrow> enumerate 0 (butlast ls), has_cr l]"

definition lf_lines :: "string list \<Rightarrow> int list" where
  "lf_lines ls = [int n + 1. (n, l) \<leftarrow> enumerate 0 (butlast ls), \<not> has_cr l]"

definition newline_reports :: "string list \<Rightarrow> action list" where
  "newline_reports ls =
     (if lf_lines ls \<noteq> [] \<and> crlf_lines ls \<noteq> [] then
        map (\<lambda>n. Report n ''whitespace/newline'' 1 (''Unexpected '' @ [bs] @ ''r (^M) found; better to use only '' @ [bs] @ ''n'')) (crlf_lines ls)
      else [])"

definition env_of :: "system \<Rightarrow> program \<Rightarrow> lint_env" where
  "env_of sys p = \<lparr>le_exists = sys_exists sys, le_cwd = sys_cwd sys, le_root = pg_root p,
     le_hpp_headers = pg_headers p, le_line_length = pg_line_length p\<rparr>"

definition file_extension_of :: "string \<Rightarrow> string" where
  "file_extension_of filename = slice_from filename (py_rfind filename (CHR ''.'') + 1)"

definition lint_content :: "system \<Rightarrow> extra_check list \<Rightarrow> string \<Rightarrow> string list \<Rightarrow> program \<Rightarrow> program option" where
  "lint_content sys extra filename ls p = do {
     (args, g) \<leftarrow> ProcessFileData (env_of sys p) (sys_read sys) extra filename (file_extension_of filename)
       (sys_replaced sys filename) (strip_crs ls) (pg_args p, pg_globals p);
     g' \<leftarrow> perform_all filename (newline_reports ls) g;
     Some (p\<lparr>pg_args := args, pg_globals := g'\<rparr>)
   }"

definition ProcessFile :: "system \<Rightarrow> extra_check list \<Rightarrow> string \<Rightarrow> int \<Rightarrow> program \<Rightarrow> program option" where
  "ProcessFile sys extra filename vlevel p = do {
     let p0 = on_lint (\<lambda>s. BackupFilters (snd (SetVerboseLevel vlevel s))) p;
     let old_errors = error_count (pg_lint p0);
     (go, p1) \<leftarrow> ProcessConfigOverrides sys filename p0;
     if \<not> go then Some (on_lint RestoreFilters p1)
     else (case (if filename = ''-'' then Some (sys_stdin sys) else sys_read sys filename) of
         None \<Rightarrow> Some (on_lint RestoreFilters
           (write_stderr (''Skipping input '' @ [sq] @ filename @ [sq] @ ('': Can'' @ [sq] @ ''t open for reading'')) p1))
       | Some content \<Rightarrow> do {
           p2 \<leftarrow> (if filename \<noteq> ''-'' \<and> file_extension_of filename \<notin> set (pg_extensions p1)
             then Some (write_stderr (''Ignoring '' @ filename @ ''; not a valid file name ('' @
               py_join '', '' (pg_extensions p1) @ '')'') p1)
             else lint_content sys extra filename (split_char nl content) p1);
           let p3 = (if \<not> quiet (pg_lint p2) \<or> old_errors \<noteq> error_count (pg_lint p2)
             then write_stdout (''Done processing '' @ filename) p2 else p2);
           Some (on_lint RestoreFilters p3)
         })
   }"

subsection \<open>The command line\<close>

definition LONG_OPTIONS :: "string list" where
  "LONG_OPTIONS = [''help'', ''output='', ''verbose='', ''counting='', ''filter='', ''root='', ''linelength='',
     ''extensions='', ''headers='', ''quiet'']"

text \<open>\<open>getopt.getopt\<close> without short options; \<open>None\<close> is GetoptError.\<close>

definition long_has_args :: "string \<Rightarrow> (bool \<times> string) option" where
  "long_has_args opt =
     (let possibilities = filter (\<lambda>l. startswith l opt) LONG_OPTIONS
      in if opt \<in> set possibilities then Some (False, opt)
         else if opt @ ''='' \<in> set possibilities then Some (True, opt)
         else (case possibilities of
                 [unique] \<Rightarrow> Some (if endswith unique ''='' then (True, butlast unique) else (False, unique))
               | _ \<Rightarrow> None))"

fun getopt :: "string list \<Rightarrow> ((string \<times> string) list \<times> string list) option" where
  "getopt [] = Some ([], [])"
| "getopt (a # args) =
     (if \<not> startswith a ''-'' \<or> a = ''-'' then Some ([], a # args)
      else if a = ''--'' then Some ([], args)
      else if \<not> startswith a ''--'' then None
      else (let (opt, arg) = partition1 (CHR ''='') (drop 2 a); given = (CHR ''='' \<in> set a)
            in case long_has_args opt of
                 None \<Rightarrow> None
               | Some (has_arg, name) \<Rightarrow>
                   (if has_arg \<and> \<not> given then
                      (case args of
                         [] \<Rightarrow> None
                       | v # rest \<Rightarrow> map_option (\<lambda>(opts, files). ((''--'' @ name, v) # opts, files)) (getopt rest))
                    else if \<not> has_arg \<and> given then None
                    else map_option (\<lambda>(opts, files). ((''--'' @ name, arg) # opts, files)) (getopt args))))"

definition USAGE :: string where
  "USAGE = py_join [nl]
     [[],
      ''Syntax: cpplint.py [--verbose=#] [--output=vs7] [--filter=-x,+y,...]'',
      ''                   [--counting=total|toplevel|detailed] [--root=subdir]'',
      ''                   [--linelength=digits] [--headers=x,y,...]'',
      ''                   [--quiet]'',
      ''        <file> [file] ...'',
      [],
      ''  The style guidelines this tries to follow are those in'',
      ''    https://google-styleguide.googlecode.com/svn/trunk/cppguide.xml'',
      [],
      ''  Every problem is given a confidence score from 1-5, with 5 meaning we are'',
      ''  certain of the problem, and 1 meaning it could be a legitimate construct.'',
      ''  This will miss some errors, and is not a substitute for a code review.'',
      [],
      ''  To suppress false-positive errors of a certain category, add a'',
      (''  '' @ [sq] @ ''NOLINT(category)'' @ [sq] @ '' comment to the line.  NOLINT or NOLINT(*)''),
      ''  suppresses errors of all categories on that line.'',
      [],
      ''  The files passed in will be linted; at least one file must be provided.'',
      ''  Default linted extensions are .cc, .cpp, .cu, .cuh and .h.  Change the'',
      ''  extensions with the --extensions flag.'',
      [],
      ''  Flags:'',
      [],
      ''    output=vs7'',
      ''      By default, the output is formatted to ease emacs parsing.  Visual Studio'',
      ''      compatible output (vs7) may also be used.  Other formats are unsupported.'',
      [],
      ''    verbose=#'',
      ''      Specify a number 0-5 to restrict errors to certain verbosity levels.'',
      [],
      ''    quiet'',
      (''      Don'' @ [sq] @ ''t print anything if no errors are found.''),
      [],
      ''    filter=-x,+y,...'',
      ''      Specify a comma-separated list of category-filters to apply: only'',
      ''      error messages whose category names pass the filters will be printed.'',
      ''      (Category names are printed with the message and look like'',
      (''      '' @ [dq] @ ''[whitespace/indent]'' @ [dq] @ ''.)  Filters are evaluated left to right.''),
      (''      '' @ [dq] @ ''-FOO'' @ [dq] @ '' and '' @ [dq] @ ''FOO'' @ [dq] @ '' means '' @ [dq] @ ''do not print categories that start with FOO'' @ [dq] @ ''.''),
      (''      '' @ [dq] @ ''+FOO'' @ [dq] @ '' means '' @ [dq] @ ''do print categories that start with FOO'' @ [dq] @ ''.''),
      [],
      ''      Examples: --filter=-whitespace,+whitespace/braces'',
      ''                --filter=whitespace,runtime/printf,+runtime/printf_format'',
      ''                --filter=-,+build/include_what_you_use'',
      [],
      ''      To see a list of all the categories used in cpplint, pass no arg:'',
      ''         --filter='',
      [],
      ''    counting=total|toplevel|detailed'',
      ''      The total number of errors found is always printed. If'',
      (''      '' @ [sq] @ ''toplevel'' @ [sq] @ '' is provided, then the count of errors in each of''),
      (''      the top-level categories like '' @ [sq] @ ''build'' @ [sq] @ '' and '' @ [sq] @ ''whitespace'' @ [sq] @ '' will''),
      (''      also be printed. If '' @ [sq] @ ''detailed'' @ [sq] @ '' is provided, then a count''),
      (''      is provided for each category like '' @ [sq] @ ''build/class'' @ [sq] @ ''.''),
      [],
      ''    root=subdir'',
      ''      The root directory used for deriving header guard CPP variable.'',
      ''      By default, the header guard CPP variable is calculated as the relative'',
      ''      path to the directory that contains .git, .hg, or .svn.  When this flag'',
      ''      is specified, the relative path is calculated from the specified'',
      ''      directory. If the specified directory does not exist, this flag is'',
      ''      ignored.'',
      [],
      ''      Examples:'',
      ''        Assuming that top/src/.git exists (and cwd=top/src), the header guard'',
      ''        CPP variables for top/src/chrome/browser/ui/browser.h are:'',
      [],
      ''        No flag => CHROME_BROWSER_UI_BROWSER_H_'',
      ''        --root=chrome => BROWSER_UI_BROWSER_H_'',
      ''        --root=chrome/browser => UI_BROWSER_H_'',
      ''        --root=.. => SRC_CHROME_BROWSER_UI_BROWSER_H_'',
      [],
      ''    linelength=digits'',
      ''      This is the allowed line length for the project. The default value is'',
      ''      80 characters.'',
      [],
      ''      Examples:'',
      ''        --linelength=120'',
      [],
      ''    extensions=extension,extension,...'',
      ''      The allowed file extensions that cpplint will check'',
      [],
      ''      Examples:'',
      ''        --extensions=hpp,cpp'',
      [],
      ''    headers=x,y,...'',
      ''      The header extensions that cpplint will treat as .h in checks. Values are'',
      ''      automatically added to --extensions list.'',
      [],
      ''      Examples:'',
      ''        --headers=hpp,hxx'',
      ''        --headers=hpp'',
      [],
      ''    cpplint.py supports per-directory configurations specified in CPPLINT.cfg'',
      ''    files. CPPLINT.cfg file can contain a number of key=value pairs.'',
      ''    Currently the following options are supported:'',
      [],
      ''      set noparent'',
      ''      filter=+filter1,-filter2,...'',
      ''      exclude_files=regex'',
      ''      linelength=80'',
      ''      root=subdir'',
      ''      headers=x,y,...'',
      [],
      (''    '' @ [dq] @ ''set noparent'' @ [dq] @ '' option prevents cpplint from traversing directory tree''),
      ''    upwards looking for more .cfg files in parent directories. This option'',
      ''    is usually placed in the top-level project directory.'',
      [],
      (''    The '' @ [dq] @ ''filter'' @ [dq] @ '' option is similar in function to --filter flag. It specifies''),
      ''    message filters in addition to the |_DEFAULT_FILTERS| and those specified'',
      ''    through --filter command-line flag.'',
      [],
      (''    '' @ [dq] @ ''exclude_files'' @ [dq] @ '' allows to specify a regular expression to be matched against''),
      ''    a file name. If the expression matches, the file is skipped and not run'',
      ''    through liner.'',
      [],
      (''    '' @ [dq] @ ''linelength'' @ [dq] @ '' allows to specify the allowed line length for the project.''),
      [],
      (''    The '' @ [dq] @ ''root'' @ [dq] @ '' option is similar in function to the --root flag (see example''),
      ''    above). Paths are relative to the directory of the CPPLINT.cfg.'',
      [],
      (''    The '' @ [dq] @ ''headers'' @ [dq] @ '' option is similar in function to the --headers flag''),
      ''    (see example above).'',
      [],
      ''    CPPLINT.cfg has an effect on files in the same directory and all'',
      ''    sub-directories, unless overridden by a nested configuration file.'',
      [],
      ''      Example file:'',
      ''        filter=-build/include_order,+build/include_alpha'',
      (''        exclude_files=.*'' @ [bs] @ ''.cc''),
      [],
      ''    The above example disables build/include_order warning and enables'',
      ''    build/include_alpha as well as excludes all .cc from being'',
      ''    processed by linter, in the current directory (where the .cfg'',
      ''    file is located) and all sub-directories.'',
      []]"

text \<open>\<open>SystemExit\<close> carries the exit status.\<close>

datatype 'a outcome = SystemExit int program | Continue 'a program

definition PrintUsage :: "string option \<Rightarrow> program \<Rightarrow> 'a outcome" where
  "PrintUsage message p =
     (let p1 = write_stderr USAGE p
      in SystemExit 1 (case message of
           None \<Rightarrow> p1 | Some m \<Rightarrow> write_stderr ([nl] @ ''FATAL ERROR: '' @ m) p1))"

definition PrintCategories :: "program \<Rightarrow> 'a outcome" where
  "PrintCategories p = SystemExit 0 (write_stderr (concat (map (\<lambda>cat. ''  '' @ cat @ [nl]) ERROR_CATEGORIES)) p)"

record arguments =
  ar_verbosity :: int
  ar_output_format :: string
  ar_filters :: string
  ar_quiet :: bool
  ar_counting :: string

definition apply_option :: "string \<times> string \<Rightarrow> arguments \<Rightarrow> program \<Rightarrow> arguments outcome option" where
  "apply_option = (\<lambda>(opt, val) a p.
     if opt = ''--help'' then Some (PrintUsage None p)
     else if opt = ''--output'' then
       Some (if val \<in> set [''emacs'', ''vs7'', ''eclipse''] then Continue (a\<lparr>ar_output_format := val\<rparr>) p
             else PrintUsage (Some ''The only allowed output formats are emacs, vs7 and eclipse.'') p)
     else if opt = ''--quiet'' then Some (Continue (a\<lparr>ar_quiet := True\<rparr>) p)
     else if opt = ''--verbose'' then map_option (\<lambda>n. Continue (a\<lparr>ar_verbosity := n\<rparr>) p) (py_int val)
     else if opt = ''--filter'' then
       Some (if val = [] then PrintCategories p else Continue (a\<lparr>ar_filters := val\<rparr>) p)
     else if opt = ''--counting'' then
       Some (if val \<in> set [''total'', ''toplevel'', ''detailed''] then Continue (a\<lparr>ar_counting := val\<rparr>) p
             else PrintUsage (Some ''Valid counting options are total, toplevel, and detailed'') p)
     else if opt = ''--root'' then Some (Continue a (p\<lparr>pg_root := Some val\<rparr>))
     else if opt = ''--linelength'' then
       Some (case py_int val of
               Some n \<Rightarrow> Continue a (p\<lparr>pg_line_length := n\<rparr>)
             | None \<Rightarrow> PrintUsage (Some ''Line length must be digits.'') p)
     else if opt = ''--extensions'' then Some (Continue a (p\<lparr>pg_extensions := split_char (CHR '','') val\<rparr>))
     else if opt = ''--headers'' then Some (Continue a (ProcessHppHeadersOption val p))
     else Some (Continue a p))"

fun apply_options :: "(string \<times> string) list \<Rightarrow> arguments \<Rightarrow> program \<Rightarrow> arguments outcome option" where
  "apply_options [] a p = Some (Continue a p)"
| "apply_options (ov # opts) a p =
     (case apply_option ov a p of
        None \<Rightarrow> None
      | Some (SystemExit code p') \<Rightarrow> Some (SystemExit code p')
      | Some (Continue a' p') \<Rightarrow> apply_options opts a' p')"

definition set_arguments :: "arguments \<Rightarrow> cpplint_state \<Rightarrow> cpplint_state option" where
  "set_arguments a s =
     (case SetFilters (ar_filters a) (snd (SetVerboseLevel (ar_verbosity a)
         (snd (SetQuiet (ar_quiet a) (SetOutputFormat (ar_output_format a) s))))) of
        (Inl _, _) \<Rightarrow> None
      | (Inr _, s') \<Rightarrow> Some (SetCountingStyle (ar_counting a) s'))"

definition ParseArguments :: "string list \<Rightarrow> program \<Rightarrow> string list outcome option" where
  "ParseArguments args p =
     (case getopt args of
        None \<Rightarrow> Some (PrintUsage (Some ''Invalid arguments.'') p)
      | Some (opts, filenames) \<Rightarrow>
          (case apply_options opts \<lparr>ar_verbosity = verbose_level (pg_lint p),
               ar_output_format = output_format (pg_lint p), ar_filters = [], ar_quiet = quiet (pg_lint p),
               ar_counting = []\<rparr> p of
             None \<Rightarrow> None
           | Some (SystemExit code p') \<Rightarrow> Some (SystemExit code p')
           | Some (Continue a p') \<Rightarrow>
               (if filenames = [] then Some (PrintUsage (Some ''No files were specified.'') p')
                else map_option (\<lambda>s. Continue filenames (on_lint (\<lambda>_. s) p')) (set_arguments a (pg_lint p')))))"

fun process_files :: "system \<Rightarrow> string list \<Rightarrow> program \<Rightarrow> program option" where
  "process_files sys [] p = Some p"
| "process_files sys (f # fs) p =
     (case ProcessFile sys [] f (verbose_level (pg_lint p)) p of None \<Rightarrow> None | Some p' \<Rightarrow> process_files sys fs p')"

definition report_counts :: "program \<Rightarrow> program" where
  "report_counts p =
     (if \<not> quiet (pg_lint p) \<or> error_count (pg_lint p) > 0 then
        (case PrintErrorCounts (pg_lint p) of (categories, summary) \<Rightarrow>
           write_stdout summary (fold write_stderr categories p))
      else p)"

definition main :: "system \<Rightarrow> string list \<Rightarrow> program \<Rightarrow> (int \<times> program) option" where
  "main sys args p =
     (case ParseArguments args p of
        None \<Rightarrow> None
      | Some (SystemExit code p') \<Rightarrow> Some (code, p')
      | Some (Continue filenames p') \<Rightarrow>
          map_option (\<lambda>p2. (if error_count (pg_lint p2) > 0 then 1 else 0, report_counts p2))
            (process_files sys filenames (on_lint ResetErrorCounts p')))"

end
