(* ===== verification/Driver_Laws.thy ===== *)
theory Driver_Laws
  imports Driver
begin

text \<open>
  Properties of the whole run: what a file leaves behind for the next one, the counters and the exit
  status, and the command line.
\<close>

subsection \<open>Access to the state\<close>

lemma pg_lint_simps [simp]:
  "pg_lint (on_lint f p) = f (pg_lint p)"
  "pg_lint (write_stderr msg p) = pg_lint p"
  "pg_globals (write_stdout msg p) = pg_globals p"
  "pg_lint (ProcessHppHeadersOption val p) = pg_lint p"
  by (simp_all add: on_lint_def write_stderr_def write_stdout_def ProcessHppHeadersOption_def Let_def)

definition project_settings :: "program \<Rightarrow> string option \<times> int \<times> string list \<times> string list" where
  "project_settings p = (pg_root p, pg_line_length p, pg_extensions p, pg_headers p)"

lemma project_settings_simps [simp]:
  "project_settings (on_lint f p) = project_settings p"
  "project_settings (write_stderr msg p) = project_settings p"
  "project_settings (write_stdout msg p) = project_settings p"
  by (simp_all add: project_settings_def on_lint_def write_stderr_def write_stdout_def)

subsection \<open>Configuration files leave the counters alone\<close>

lemma config_option_lint:
  "config_option sys f cfg b name val c = Some c' \<Longrightarrow> pg_lint (cf_program c') = pg_lint (cf_program c)"
  by (auto simp: config_option_def Let_def split: if_splits option.splits)

lemma config_lines_lint:
  "config_lines sys f cfg b ls c = Some c' \<Longrightarrow> pg_lint (cf_program c') = pg_lint (cf_program c)"
proof (induction ls arbitrary: c)
  case (Cons l ls)
  show ?case
  proof (cases "cf_excluded c \<or> strip (fst (partition1 (CHR ''#'') l)) = []")
    case True
    then show ?thesis using Cons by (auto simp: Let_def split_beta split: if_splits)
  next
    case False
    then obtain c1 name val where "config_option sys f cfg b name val c = Some c1" "config_lines sys f cfg b ls c1 = Some c'"
      using Cons.prems by (auto simp: Let_def split_beta bind_eq_Some_conv)
    then show ?thesis using Cons.IH config_option_lint by metis
  qed
qed simp

lemma config_file_lint:
  "config_file sys f cfg b c = Some c' \<Longrightarrow> pg_lint (cf_program c') = pg_lint (cf_program c)"
  by (auto simp: config_file_def config_lines_lint split: option.splits)

lemma config_walk_lint:
  "config_walk sys f a c = Some c' \<Longrightarrow> pg_lint (cf_program c') = pg_lint (cf_program c)"
proof (induction sys f a c rule: config_walk.induct)
  case (1 sys f a c)
  show ?case
  proof (cases "\<not> cf_keep_looking c \<or> cf_excluded c \<or> snd (path_split a) = []")
    case True
    then show ?thesis using "1.prems" by (subst (asm) config_walk.simps) (auto split: prod.splits if_splits)
  next
    case False
    obtain d b where s: "path_split a = (d, b)" by force
    let ?cfg = "path_join2 d ''CPPLINT.cfg''"
    obtain c1 where c1: "(if sys_isfile sys ?cfg then config_file sys f ?cfg b c else Some c) = Some c1"
      "config_walk sys f d c1 = Some c'"
      using "1.prems" False s by (subst (asm) config_walk.simps) (auto simp: Let_def split: option.splits)
    have "pg_lint (cf_program c') = pg_lint (cf_program c1)"
      by (rule "1.IH" [OF _ s [symmetric] _ refl c1]) (use False s in auto)
    then show ?thesis using c1(1) by (auto dest: config_file_lint split: if_splits)
  qed
qed

lemma add_filters_keeps: "add_filters fs s = Some s' \<Longrightarrow> \<exists>l. s' = s\<lparr>filters := l\<rparr>"
proof (induction fs arbitrary: s)
  case Nil
  then show ?case by (metis add_filters.simps(1) cpplint_state.surjective cpplint_state.update_convs(3) option.inject)
next
  case (Cons f fs)
  then obtain s1 where s1: "AddFilters f s = (Inr (), s1)" "add_filters fs s1 = Some s'"
    by (auto split: prod.splits sum.splits)
  then have "\<exists>l. s1 = s\<lparr>filters := l\<rparr>" by (auto simp: AddFilters_def Let_def split: option.splits)
  then show ?case using Cons.IH [OF s1(2)] by auto
qed

lemma add_filters_wf: "add_filters fs s = Some s' \<Longrightarrow> wf_lint s \<Longrightarrow> wf_lint s'"
proof (induction fs arbitrary: s)
  case (Cons f fs)
  then obtain s1 where s1: "AddFilters f s = (Inr (), s1)" "add_filters fs s1 = Some s'"
    by (auto split: prod.splits sum.splits)
  then show ?case using Cons.IH wf_AddFilters [OF Cons.prems(2) s1(1)] by blast
qed simp

lemma ProcessConfigOverrides_lint:
  assumes "ProcessConfigOverrides sys f p = Some (go, p')"
  shows "(\<exists>l. pg_lint p' = (pg_lint p)\<lparr>filters := l\<rparr>) \<and> (wf_lint (pg_lint p) \<longrightarrow> wf_lint (pg_lint p'))"
proof -
  obtain c where c: "config_walk sys f (abspath (sys_cwd sys) f)
      \<lparr>cf_program = p, cf_filters = [], cf_keep_looking = True, cf_excluded = False\<rparr> = Some c"
    and d: "p' = cf_program c \<or> (\<exists>fs s. add_filters fs (pg_lint (cf_program c)) = Some s \<and> p' = on_lint (\<lambda>_. s) (cf_program c))"
    using assms unfolding ProcessConfigOverrides_def bind_eq_Some_conv
    by (auto simp: bind_eq_Some_conv split: if_splits)
  have l: "pg_lint (cf_program c) = pg_lint p" using config_walk_lint [OF c] by simp
  from d show ?thesis
  proof
    assume "p' = cf_program c"
    moreover have "s = s\<lparr>filters := filters s\<rparr>" for s :: cpplint_state by simp
    ultimately show ?thesis using l by metis
  qed (use l add_filters_keeps add_filters_wf in fastforce)
qed

subsection \<open>One file\<close>

lemma settings_eqD:
  assumes "settings s = settings t"
  shows "filters_backup s = filters_backup t" "verbose_level s = verbose_level t" "counting s = counting t" "quiet s = quiet t"
  using assms [THEN arg_cong, of filters_backup] assms [THEN arg_cong, of verbose_level]
    assms [THEN arg_cong, of counting] assms [THEN arg_cong, of quiet]
  by (simp_all add: settings_def)

lemma lint_content_lint:
  assumes "lint_content sys extra f ls p = Some p'"
  shows "settings (pg_lint p') = settings (pg_lint p) \<and> (wf_lint (pg_lint p) \<longrightarrow> wf_lint (pg_lint p')) \<and>
    project_settings p' = project_settings p"
proof -
  obtain args g g' where d: "ProcessFileData (env_of sys p) (sys_read sys) extra f (file_extension_of f)
      (sys_replaced sys f) (strip_crs ls) (pg_args p, pg_globals p) = Some (args, g)"
    and r: "perform_all f (newline_reports ls) g = Some g'" and p': "p' = p\<lparr>pg_args := args, pg_globals := g'\<rparr>"
    using assms by (auto simp: lint_content_def bind_eq_Some_conv)
  have "settings (lint g') = settings (pg_lint p)"
    using ProcessFileData_settings [OF d] perform_all_settings [OF r] by simp
  moreover have "wf_lint (pg_lint p) \<Longrightarrow> wf_lint (lint g')"
    using ProcessFileData_wf [OF d] perform_all_wf [OF r] by blast
  ultimately show ?thesis by (simp add: p' project_settings_def)
qed

lemma ProcessFile_steps:
  assumes "ProcessFile sys extra f v p = Some p'"
  obtains go p1 p2 where
    "ProcessConfigOverrides sys f (on_lint (\<lambda>s. BackupFilters (snd (SetVerboseLevel v s))) p) = Some (go, p1)"
    "p2 = p1 \<or> (\<exists>ls. lint_content sys extra f ls p1 = Some p2)"
    "pg_lint p' = RestoreFilters (pg_lint p2)" "project_settings p' = project_settings p2"
proof -
  let ?p0 = "on_lint (\<lambda>s. BackupFilters (snd (SetVerboseLevel v s))) p"
  obtain go p1 where c: "ProcessConfigOverrides sys f ?p0 = Some (go, p1)"
    using assms unfolding ProcessFile_def Let_def bind_eq_Some_conv by auto
  let ?content = "if f = ''-'' then Some (sys_stdin sys) else sys_read sys f"
  show ?thesis
  proof (cases "go \<and> ?content \<noteq> None \<and> \<not> (f \<noteq> ''-'' \<and> file_extension_of f \<notin> set (pg_extensions p1))")
    case True
    then obtain content where ct: "?content = Some content" by auto
    then obtain p2 where p2: "lint_content sys extra f (split_char nl content) p1 = Some p2"
      using assms c True by (auto simp: ProcessFile_def Let_def bind_eq_Some_conv simp del: not_None_eq split: if_splits)
    show ?thesis
      by (rule that [OF c, of p2]) (use assms c True ct p2 in \<open>auto simp: ProcessFile_def Let_def split: if_splits\<close>)
  next
    case False
    show ?thesis
      by (rule that [OF c, of p1])
        (use assms c False in \<open>auto simp: ProcessFile_def Let_def split: if_splits option.splits\<close>)
  qed
qed

lemma ProcessFile_lint:
  assumes "ProcessFile sys extra f v p = Some p'"
  shows "filters (pg_lint p') = filters (pg_lint p) \<and> verbose_level (pg_lint p') = v \<and>
    counting (pg_lint p') = counting (pg_lint p) \<and> quiet (pg_lint p') = quiet (pg_lint p) \<and>
    (wf_lint (pg_lint p) \<longrightarrow> wf_lint (pg_lint p'))"
  using assms
proof (rule ProcessFile_steps)
  fix go p1 p2
  assume c: "ProcessConfigOverrides sys f (on_lint (\<lambda>s. BackupFilters (snd (SetVerboseLevel v s))) p) = Some (go, p1)"
    and b: "p2 = p1 \<or> (\<exists>ls. lint_content sys extra f ls p1 = Some p2)"
    and r: "pg_lint p' = RestoreFilters (pg_lint p2)"
  let ?s0 = "BackupFilters (snd (SetVerboseLevel v (pg_lint p)))"
  obtain l where l: "pg_lint p1 = ?s0\<lparr>filters := l\<rparr>" "wf_lint ?s0 \<longrightarrow> wf_lint (pg_lint p1)"
    using ProcessConfigOverrides_lint [OF c] by auto
  have e: "settings (pg_lint p2) = settings (pg_lint p1)" "wf_lint (pg_lint p1) \<longrightarrow> wf_lint (pg_lint p2)"
    using b lint_content_lint by auto
  have "wf_lint ?s0" if "wf_lint (pg_lint p)"
    using that by (simp add: wf_lint_def BackupFilters_def SetVerboseLevel_def per_category_def)
  then show ?thesis
    using settings_eqD [OF e(1)] e(2) l wf_RestoreFilters [of "pg_lint p2"] r
    by (auto simp: RestoreFilters_def BackupFilters_def SetVerboseLevel_def)
qed

subsection \<open>An example\<close>

text \<open>A directory whose configuration file sets the line length and a filter, and no other file.\<close>

definition example_system :: system where
  "example_system = \<lparr>sys_exists = (\<lambda>_. False), sys_isfile = (\<lambda>f. f = ''/r/CPPLINT.cfg''), sys_cwd = ''/r'',
     sys_read = (\<lambda>_. None), sys_bytes = (\<lambda>_. Some (''linelength=100'' @ [nl] @ ''filter=-build  # no build'')),
     sys_stdin = [], sys_replaced = (\<lambda>_ _. False), sys_pattern = (\<lambda>_ _. Some False)\<rparr>"

definition start_file :: "int \<Rightarrow> program \<Rightarrow> program" where
  "start_file v p = on_lint (\<lambda>s. BackupFilters (snd (SetVerboseLevel v s))) p"

lemma example_overrides:
  "map_option (\<lambda>(go, p). (go, pg_line_length p, filters (pg_lint p)))
     (ProcessConfigOverrides example_system ''a.cc'' (start_file 1 init_program)) =
   Some (True, 100, [''-build/include_alpha'', ''-build''])"
  by code_simp

lemma example_run: "ProcessFile example_system [] ''a.cc'' 1 init_program \<noteq> None"
  by code_simp

subsection \<open>Properties\<close>

text \<open>C2: Whatever way the processing of a file ends (excluded by a configuration file, unreadable, not
  a valid name, or checked), the filters are those in force before it: the filters of configuration
  files never outlive the file.\<close>

theorem filters_restored:
  assumes "ProcessFile sys extra f v p = Some p'"
  shows "filters (pg_lint p') = filters (pg_lint p)"
  using ProcessFile_lint [OF assms] by blast

theorem filters_restored_witness:
  "\<exists>p'. ProcessFile example_system [] ''a.cc'' 1 init_program = Some p' \<and>
     filters (pg_lint p') = DEFAULT_FILTERS"
  using example_run filters_restored [of example_system "[]" "''a.cc''" 1 init_program]
  by (auto simp: init_program_def init_globals_def init_cpplint_state_def)

text \<open>C3: The other settings of a configuration file (line length, root, extensions and headers) do
  outlive the file: after it they are still those its configuration files left, and they are in force
  for the next file, wherever that lies.\<close>

theorem config_settings_persist:
  assumes "ProcessConfigOverrides sys f (start_file v p) = Some (go, p1)" "ProcessFile sys extra f v p = Some p'"
  shows "project_settings p' = project_settings p1"
  using assms(2)
proof (rule ProcessFile_steps)
  fix go' q1 q2
  assume "ProcessConfigOverrides sys f (on_lint (\<lambda>s. BackupFilters (snd (SetVerboseLevel v s))) p) = Some (go', q1)"
    and "q2 = q1 \<or> (\<exists>ls. lint_content sys extra f ls q1 = Some q2)" "project_settings p' = project_settings q2"
  then show ?thesis using assms(1) lint_content_lint by (auto simp: start_file_def)
qed

theorem config_settings_persist_witness:
  "\<exists>p'. ProcessFile example_system [] ''a.cc'' 1 init_program = Some p' \<and> pg_line_length p' = 100 \<and>
     pg_line_length init_program = 80"
proof -
  obtain go p1 where p1: "ProcessConfigOverrides example_system ''a.cc'' (start_file 1 init_program) = Some (go, p1)"
    "pg_line_length p1 = 100" using example_overrides by auto
  obtain p' where p': "ProcessFile example_system [] ''a.cc'' 1 init_program = Some p'" using example_run by blast
  from config_settings_persist [OF p1(1) p'] show ?thesis
    using p1(2) p' by (simp add: project_settings_def init_program_def)
qed

interpretation files: state_steps "\<lambda>f p. ProcessFile sys [] f (verbose_level (pg_lint p)) p"
  "\<lambda>p. wf_lint (pg_lint p)" "\<lambda>p. filters (pg_lint p)"
  for sys
  by unfold_locales (auto dest: ProcessFile_lint)

lemma process_files_steps: "process_files sys fs p = files.run_steps sys fs p"
  by (induction fs arbitrary: p) (auto split: option.split)

lemmas process_files_wf = files.run_steps_inv [folded process_files_steps]
lemmas process_files_filters = files.run_steps_view [folded process_files_steps]

lemma set_arguments_wf:
  assumes "set_arguments a s = Some s'" "wf_lint s"
  shows "wf_lint (ResetErrorCounts s')"
proof -
  let ?s = "snd (SetVerboseLevel (ar_verbosity a) (snd (SetQuiet (ar_quiet a) (SetOutputFormat (ar_output_format a) s))))"
  obtain t where t: "SetFilters (ar_filters a) ?s = (Inr (), t)" "s' = SetCountingStyle (ar_counting a) t"
    using assms(1) by (auto simp: set_arguments_def split: prod.splits sum.splits)
  have "wf_lint ?s" using assms(2)
    by (simp add: wf_lint_def SetVerboseLevel_def SetQuiet_def SetOutputFormat_def per_category_def)
  from wf_SetFilters [OF this t(1)] show ?thesis
    by (simp add: t(2) wf_lint_def SetCountingStyle_def ResetErrorCounts_def)
qed

lemma apply_option_lint:
  "apply_option ov a p = Some (Continue a' p') \<Longrightarrow> pg_lint p' = pg_lint p"
  by (auto simp: apply_option_def PrintUsage_def PrintCategories_def Let_def split: prod.splits if_splits option.splits)

lemma apply_options_lint:
  "apply_options opts a p = Some (Continue a' p') \<Longrightarrow> pg_lint p' = pg_lint p"
proof (induction opts arbitrary: a p)
  case (Cons ov opts)
  then show ?case by (auto dest: apply_option_lint split: option.splits outcome.splits)
qed simp

lemma ParseArguments_wf:
  assumes "ParseArguments args p = Some (Continue files p')" "wf_lint (pg_lint p)"
  shows "wf_lint (ResetErrorCounts (pg_lint p'))"
proof -
  obtain opts a0 a p1 s where "apply_options opts a0 p = Some (Continue a p1)" "set_arguments a (pg_lint p1) = Some s"
    "p' = on_lint (\<lambda>_. s) p1"
    using assms(1) by (auto simp: ParseArguments_def PrintUsage_def Let_def split: option.splits outcome.splits if_splits)
  then show ?thesis using set_arguments_wf assms(2) apply_options_lint by fastforce
qed

lemma write_stderr_fold [simp]: "pg_lint (fold write_stderr ms p) = pg_lint p"
  by (induction ms arbitrary: p) simp_all

lemma report_counts_lint [simp]: "pg_lint (report_counts p) = pg_lint p"
  by (simp add: report_counts_def split: prod.splits)

text \<open>C1: When the command line is accepted and the run comes to its end, the exit status is 1 or 0
  according to whether errors were counted, the counts by category add up to the total in the two styles
  that keep them, and the filters are still those of the command line.\<close>

theorem exit_status_and_counts:
  assumes "ParseArguments args init_program = Some (Continue files p0)" "main sys args init_program = Some (code, p)"
  shows "code = (if error_count (pg_lint p) > 0 then 1 else 0) \<and>
    (per_category (pg_lint p) \<longrightarrow> sum_list (map snd (errors_by_category (pg_lint p))) = error_count (pg_lint p)) \<and>
    filters (pg_lint p) = filters (pg_lint p0)"
proof -
  obtain q where q: "process_files sys files (on_lint ResetErrorCounts p0) = Some q"
    "code = (if error_count (pg_lint q) > 0 then 1 else 0)" "p = report_counts q"
    using assms by (auto simp: main_def)
  have "wf_lint (pg_lint init_program)" by (simp add: init_program_def init_globals_def wf_init)
  then have "wf_lint (pg_lint q)"
    using process_files_wf [OF q(1)] ParseArguments_wf [OF assms(1)] by simp
  then show ?thesis using q process_files_filters [OF q(1)] by (simp add: wf_lint_def ResetErrorCounts_def)
qed

theorem exit_status_and_counts_witness:
  "\<exists>p. main example_system [''--counting=detailed'', ''a.cc''] init_program = Some (0, p) \<and> error_count (pg_lint p) = 0"
proof -
  let ?args = "[''--counting=detailed'', ''a.cc'']"
  have "case ParseArguments ?args init_program of Some (Continue _ _) \<Rightarrow> True | _ \<Rightarrow> False"
    "map_option (\<lambda>(c, p). error_count (pg_lint p)) (main example_system ?args init_program) = Some 0"
    by code_simp+
  then obtain files p0 code p where "ParseArguments ?args init_program = Some (Continue files p0)"
    "main example_system ?args init_program = Some (code, p)" "error_count (pg_lint p) = 0"
    by (auto split: option.splits outcome.splits)
  with exit_status_and_counts [OF this(1,2)] show ?thesis by auto
qed

subsection \<open>The command line\<close>

lemma long_option_facts:
  assumes "name @ ''='' \<in> set LONG_OPTIONS"
  shows "CHR ''='' \<notin> set name \<and> long_has_args name = Some (True, name)"
proof -
  have "list_all (\<lambda>l. last l = CHR ''='' \<longrightarrow> CHR ''='' \<notin> set (butlast l) \<and>
      long_has_args (butlast l) = Some (True, butlast l)) LONG_OPTIONS" by code_simp
  then show ?thesis using assms unfolding list_all_iff by force
qed

lemma partition1_split: "c \<notin> set s \<Longrightarrow> partition1 c (s @ c # t) = (s, t)"
  by (induction s) (auto simp: partition1_def)

text \<open>Options written as two dashes, the name, an equals sign and the value are all recognised, in
  their order and with their values unchanged, and what follows them is the list of files.\<close>

theorem getopt_round_trip:
  assumes "list_all (\<lambda>(name, v). name @ ''='' \<in> set LONG_OPTIONS) ovs" "list_all (\<lambda>f. \<not> startswith f ''-'') files"
  shows "getopt (map (\<lambda>(name, v). ''--'' @ name @ ''='' @ v) ovs @ files) =
    Some (map (\<lambda>(name, v). (''--'' @ name, v)) ovs, files)"
  using assms
proof (induction ovs)
  case Nil
  then show ?case by (cases files) simp_all
next
  case (Cons ov ovs)
  obtain name v where ov: "ov = (name, v)" by force
  then have f: "CHR ''='' \<notin> set name" "long_has_args name = Some (True, name)"
    using long_option_facts [of name] Cons.prems by simp_all
  show ?case using Cons f partition1_split [OF f(1), of v] by (simp add: ov Let_def)
qed

theorem getopt_round_trip_witness:
  "getopt [''--filter=-build'', ''--linelength=100'', ''a.cc''] =
     Some ([(''--filter'', ''-build''), (''--linelength'', ''100'')], [''a.cc''])"
  using getopt_round_trip [of "[(''filter'', ''-build''), (''linelength'', ''100'')]" "[''a.cc'']"]
  by (simp add: LONG_OPTIONS_def)

end
