(* ===== verification/Agent_Cli.thy ===== *)
theory Agent_Cli
  imports Py_Prelude
begin

text \<open>
  The command line client of the agent (cli/cli.py): a prompt whose valid lines are sent to the agent.

  The prompt and the gRPC stub are not part of the repository.  What the user does is a list of
  inputs; the stub is a parameter that answers a command, given the commands sent before it.
\<close>

subsection \<open>Commands\<close>

definition p4_cmds_full :: "string list" where
  "p4_cmds_full =
     [''add-table <table-name> <key-field> <protocol-num> <default-next-obj> <table-size>'',
      ''add-table-entry <table-name> <prefix> <prefix-length>'',
      ''show-afi-objects'']"

definition cli_cmds :: "string list" where
  "cli_cmds = [''help'', ''quit'']"

definition p4_cmds :: "string list" where
  "p4_cmds = map (\<lambda>cmd. hd (split_ws is_uws cmd)) p4_cmds_full @ cli_cmds"

text \<open>The lines that the client answers itself.\<close>

definition help_words :: "string list" where
  "help_words = [''help'', ''h'', ''?'']"

definition exit_words :: "string list" where
  "exit_words = [''quit'', ''exit'']"

subsection \<open>The session\<close>

text \<open>An interrupt is KeyboardInterrupt or EOFError.  A call of the stub gives a response or RpcError,
  with the status UNAVAILABLE or another one and its details.\<close>

datatype input = Line string | Interrupt

datatype reply = Response string | Unavailable | RpcError string

record session =
  printed :: "string list"
  sent :: "string list"

datatype status = Prompting | Exited | Crashed

definition display_usage :: "session \<Rightarrow> session" where
  "display_usage s = s\<lparr>printed := printed s @ p4_cmds_full\<rparr>"

definition say :: "string \<Rightarrow> session \<Rightarrow> session" where
  "say msg s = s\<lparr>printed := printed s @ [msg]\<rparr>"

definition send_cmd :: "(string list \<Rightarrow> string \<Rightarrow> reply) \<Rightarrow> string \<Rightarrow> session \<Rightarrow> session" where
  "send_cmd stub usr_cmd s =
     say (case stub (sent s) usr_cmd of
            Response cmdout \<Rightarrow> cmdout
          | Unavailable \<Rightarrow> ''Couldn'' @ [sq] @ ''t connect to JP4Agent. Please ensure JP4Agent is up and running.''
          | RpcError details \<Rightarrow> details)
       (s\<lparr>sent := sent s @ [usr_cmd]\<rparr>)"

text \<open>One turn of the loop.  The first word of a line of blanks does not exist: IndexError.\<close>

fun cli_turn :: "(string list \<Rightarrow> string \<Rightarrow> reply) \<Rightarrow> input \<Rightarrow> session \<Rightarrow> status \<times> session" where
  "cli_turn stub Interrupt s = (Prompting, s)"
| "cli_turn stub (Line usr_cmd) s =
     (if usr_cmd = [] then (Prompting, s)
      else if usr_cmd \<in> set help_words then (Prompting, display_usage s)
      else if usr_cmd \<in> set exit_words then (Exited, say ''Exiting JP4Agent CLI.'' s)
      else (case split_ws is_uws (ustrip usr_cmd) of
              [] \<Rightarrow> (Crashed, s)
            | word # _ \<Rightarrow>
                (if word \<notin> set p4_cmds
                 then (Prompting, display_usage (say ''Invalid command. Supported commands are:'' s))
                 else (Prompting, send_cmd stub usr_cmd s))))"

fun run_cli :: "(string list \<Rightarrow> string \<Rightarrow> reply) \<Rightarrow> input list \<Rightarrow> session \<Rightarrow> status \<times> session" where
  "run_cli stub [] s = (Prompting, s)"
| "run_cli stub (i # is) s =
     (case cli_turn stub i s of
        (Prompting, s') \<Rightarrow> run_cli stub is s'
      | (st, s') \<Rightarrow> (st, s'))"

subsection \<open>How a session ends\<close>

definition blank_line :: "input \<Rightarrow> bool" where
  "blank_line i = (case i of Line l \<Rightarrow> l \<noteq> [] \<and> list_all is_uws l | Interrupt \<Rightarrow> False)"

definition exit_line :: "input \<Rightarrow> bool" where
  "exit_line i = (case i of Line l \<Rightarrow> l \<in> set exit_words | Interrupt \<Rightarrow> False)"

definition ends_session :: "input \<Rightarrow> bool" where
  "ends_session i = (blank_line i \<or> exit_line i)"

text \<open>The lines that go to the agent: the first word is a command, and the whole line is not one of
  those that the client answers itself.\<close>

definition for_agent :: "string \<Rightarrow> bool" where
  "for_agent l = (l \<notin> set help_words \<and> l \<notin> set exit_words \<and>
     (\<exists>word \<in> set (take 1 (split_ws is_uws l)). word \<in> set p4_cmds))"

fun agent_lines :: "input list \<Rightarrow> string list" where
  "agent_lines [] = []"
| "agent_lines (Interrupt # is) = agent_lines is"
| "agent_lines (Line l # is) = (if for_agent l then l # agent_lines is else agent_lines is)"

lemma split_ws_Nil: "split_ws p s = [] \<longleftrightarrow> list_all p s"
  by (induction p s rule: split_ws.induct) auto

lemma split_ws_lstrip: "split_ws p (lstrip_by p s) = split_ws p s"
  by (induction s) (auto simp: lstrip_by_def)

lemma split_ws_snoc: "p c \<Longrightarrow> split_ws p (s @ [c]) = split_ws p s"
proof (induction p s rule: split_ws.induct)
  case (2 p a s)
  show ?case
  proof (cases "\<forall>x \<in> set s. \<not> p x")
    case True
    then have "takeWhile (\<lambda>x. \<not> p x) s = s" "dropWhile (\<lambda>x. \<not> p x) s = []" by simp_all
    then show ?thesis using 2 True
      by (simp add: takeWhile_append dropWhile_append del: takeWhile_eq_all_conv dropWhile_eq_Nil_conv)
  next
    case False
    then show ?thesis using 2 by (auto simp: takeWhile_append dropWhile_append)
  qed
qed simp

lemma split_ws_rstrip: "split_ws p (rstrip_by p s) = split_ws p s"
  by (induction s rule: rev_induct) (auto simp: rstrip_by_def split_ws_snoc)

lemma split_ws_ustrip: "split_ws is_uws (ustrip s) = split_ws is_uws s"
  by (simp add: ustrip_def strip_by_def split_ws_lstrip split_ws_rstrip)

lemma own_words:
  "l \<in> set help_words \<Longrightarrow> l \<noteq> [] \<and> \<not> list_all is_uws l \<and> l \<notin> set exit_words"
  "l \<in> set exit_words \<Longrightarrow> l \<noteq> [] \<and> \<not> list_all is_uws l"
proof -
  have "list_all (\<lambda>l. l \<noteq> [] \<and> \<not> list_all is_uws l \<and> l \<notin> set exit_words) help_words"
    "list_all (\<lambda>l. l \<noteq> [] \<and> \<not> list_all is_uws l) exit_words" by code_simp+
  then show "l \<in> set help_words \<Longrightarrow> l \<noteq> [] \<and> \<not> list_all is_uws l \<and> l \<notin> set exit_words"
    "l \<in> set exit_words \<Longrightarrow> l \<noteq> [] \<and> \<not> list_all is_uws l" by (simp_all add: list_all_iff)
qed

lemma cli_turn_status:
  "fst (cli_turn stub i s) = (if blank_line i then Crashed else if exit_line i then Exited else Prompting)"
proof (cases i)
  case (Line l)
  show ?thesis
    using own_words [of l] split_ws_Nil [of is_uws l]
    by (cases "split_ws is_uws l") (auto simp: Line blank_line_def exit_line_def split_ws_ustrip)
qed (simp add: blank_line_def exit_line_def)

lemma cli_turn_sent: "sent (snd (cli_turn stub i s)) = sent s @ agent_lines [i]"
proof (cases i)
  case (Line l)
  show ?thesis
    by (cases "split_ws is_uws l")
       (auto simp: Line for_agent_def split_ws_ustrip display_usage_def say_def send_cmd_def)
qed simp

lemma agent_lines_Cons: "agent_lines (i # is) = agent_lines [i] @ agent_lines is"
  by (cases i) simp_all

lemma ends_not_sent: "ends_session i \<Longrightarrow> agent_lines [i] = []"
  by (cases i) (auto simp: ends_session_def blank_line_def exit_line_def for_agent_def
      split_ws_Nil [THEN iffD2])

lemma run_cli_step:
  "run_cli stub (i # is) s =
     (if ends_session i then cli_turn stub i s else run_cli stub is (snd (cli_turn stub i s)))"
  using cli_turn_status [of stub i s]
  by (cases "cli_turn stub i s") (auto simp: ends_session_def split: status.splits if_splits)

declare run_cli.simps(2) [simp del] and agent_lines.simps(2,3) [simp del]

subsection \<open>Properties\<close>

text \<open>C39: A session goes on until the first line that is quit, exit or made of blanks only: quit and
  exit end it, a line of blanks makes it crash, and nothing else, not even an interrupt, ends it.\<close>

theorem cli_session_ends:
  "fst (run_cli stub is s) =
     (case find ends_session is of
        None \<Rightarrow> Prompting | Some i \<Rightarrow> if blank_line i then Crashed else Exited)"
proof (induction "is" arbitrary: s)
  case (Cons i "is")
  then show ?case using cli_turn_status [of stub i s] by (simp add: run_cli_step ends_session_def)
qed simp

text \<open>C40: The agent is sent exactly the lines, up to the end of the session and in their order, whose
  first word is a command, whole and unchanged, except those that the client answers itself.\<close>

theorem cli_commands_sent:
  "sent (snd (run_cli stub is s)) = sent s @ agent_lines (takeWhile (\<lambda>i. \<not> ends_session i) is)"
proof (induction "is" arbitrary: s)
  case (Cons i "is")
  then show ?case
    using cli_turn_sent [of stub i s] ends_not_sent [of i]
      agent_lines_Cons [of i "takeWhile (\<lambda>i. \<not> ends_session i) is"]
    by (simp add: run_cli_step)
qed simp

end
