(* ===== verification/Spec2Isabelle.thy ===== *)
theory Spec2Isabelle
  imports Nesting_Laws Driver_Laws Agent_Cli
begin

text \<open>
  \<^bold>\<open>The Python programs of JP4Agent.\<close>

  JP4Agent is a C++ agent for P4 Runtime.  Its Python code, the subject of this development, is the
  source checker \<open>tools/scripts/cpplint.py\<close>, a linter with the naming rules of the project added to it,
  and the command line client \<open>cli/cli.py\<close>.

  \<^bold>\<open>How the linter works.\<close>  \<open>main\<close> reads the options and hands each file to \<open>ProcessFile\<close>, which looks
  for configuration files in the directories above it, reads it and calls \<open>ProcessFileData\<close>.  That
  function blanks the comments over several lines, makes four copies of the lines (class
  \<open>CleansedLines\<close>), creates the state objects of the file (\<open>_IncludeState\<close>, \<open>_FunctionState\<close>,
  \<open>NestingState\<close>) and runs \<open>ProcessLine\<close> on every line, which updates the states and calls the checks.  A
  check reports through \<open>Error\<close>, which asks the suppressions, the verbosity level and the filters of
  the singleton \<open>_cpplint_state\<close> whether to print the message and counts it there.

  \<^bold>\<open>Conventions.\<close>  A string is a list of characters (a source line holds characters up to 255; a
  character beyond is known only through the parameter of \<open>CheckForBadCharacters\<close>).  A Python
  exception, and a call that does not return, is \<open>None\<close>; what was printed before it is not kept.  A
  check is a function to the list of its calls of \<open>Error\<close> and \<open>ParseNolintSuppressions\<close>, as values of
  the type \<open>action\<close>, and \<open>perform_all\<close> carries them out in order: no check reads what the earlier ones
  reported.  A dict is an association list in the order of insertion, where Python 2 leaves the order
  open.  Objects are compared by an identity of their own (\<open>bid\<close>) where the code compares them.  The
  regular expressions of the source are syntax trees, one definition for each pattern.

  \<^bold>\<open>Theories, with the lines of cpplint.py they model.\<close>

  \<^item> \<open>Py_Prelude\<close>: the string operations of Python; the locale \<open>state_steps\<close> of repeated operations.
  \<^item> \<open>Regex\<close>: the module \<open>re\<close> as the linter uses it.  A backtracking matcher, proved to find the first
    element of the list of all matches in order of preference, which in turn is proved sound and
    complete for a declarative relation; \<open>Match\<close>, \<open>Search\<close>, \<open>ReplaceAll\<close>, \<open>finditer\<close>.
  \<^item> \<open>Lint_Data\<close> (202-581): the tables.  \<open>Lint_State\<close> (544-655, 862-1031, 1188-1246): filters,
    suppressions, counters, \<open>Error\<close>; the locale \<open>error_sink\<close> is what a client of \<open>Error\<close> relies on.
  \<^item> \<open>Include_State\<close> (692-860), \<open>Include_Checks\<close> (4504-4662), \<open>Include_Use\<close> (5411-5660): the order and the
    duplicates of includes, and the headers a file needs.
  \<^item> \<open>Cleanse\<close> (1251-1560): raw strings, comments and string literals; \<open>CleansedLines\<close>.
  \<^item> \<open>Expressions\<close> (1561-1789): bracket matching over several lines, forward and backward, with one
    locale for both directions.
  \<^item> \<open>File_Info\<close> (1085-1186, 1790-1882) and \<open>Header_Checks\<close> (1791-2130): path names, header guards,
    and the checks of the whole file.
  \<^item> \<open>Function_State\<close> (1034-1082, 3055-3123): function lengths.  \<open>Nesting\<close> (2205-2786) and
    \<open>Nesting_Laws\<close>: the stack of open blocks.
  \<^item> \<open>Line_Checks\<close>, \<open>Spacing_Checks\<close> (3180-3720), \<open>Brace_Checks\<close> (3745-4178), \<open>Check_Macros\<close> (4181-4319),
    \<open>Construct_Checks\<close> (2789-3023, 5686-5747), \<open>Style_Checks\<close> (4376-4492), \<open>Cast_Checks\<close> (5217-5408),
    \<open>Language_Checks\<close> (4665-4995), \<open>Reference_Checks\<close> (4998-5214), \<open>Juniper_Checks\<close> (4011-4075,
    5845-6101): the checks of a line.  The locale \<open>line_check\<close> is the contract of those without state.
  \<^item> \<open>File_Run\<close> (6118-6295): \<open>ProcessLine\<close> and \<open>ProcessFileData\<close>.
  \<^item> \<open>Driver\<close> (60-196, 571-581, 6297-6595) and \<open>Driver_Laws\<close>: configuration files, options, \<open>ProcessFile\<close>,
    \<open>main\<close>.
  \<^item> \<open>Agent_Cli\<close>: \<open>cli/cli.py\<close>.

  \<^bold>\<open>What is shown.\<close>  Of the run: the exit status and the counts agree, filters of configuration files end
  with the file while its other settings do not, and a line with a NOLINT comment gets no message.  Of the
  state objects: their invariants in all reachable states (counters that add up, include lists without
  duplicates, blocks in order), and what they compute in terms of simpler descriptions (the nesting stack
  against a scan of the braces, the branches of a conditional section, the order of includes against the
  rule, the lines of a function counted from its opening line to its closing brace).  Of the text
  processing: comment removal refines an operation on lists, counting quotes agrees with a scanner for
  every line, the loop over quotes empties the literals of every line and drops its digit separators, the
  two bracket searches are inverse to each other.  Of the checks: which return on every line, and for
  three of them exactly which input makes them raise.  Of the client: how a session ends and what is sent.

  \<^bold>\<open>Loops and fuel.\<close>  Loops are recursive functions with a termination proof.  The star of the matcher
  and the substitution take the length of the text as fuel, which is enough because each round consumes a
  character; the lemmas \<open>star_all_fuel\<close> and \<open>lazy_all_fuel\<close> say so.  The search for a Subversion checkout may not
  end; it is a partial function, and the cases in which it does not are characterised.

  \<^bold>\<open>Parameters.\<close>  The file system (which paths exist, the text of files), the standard input, the
  additional check functions of \<open>ProcessFile\<close>, the patterns in configuration files (whose syntax is not
  modelled), the prompt and the gRPC stub of the client.

  \<^bold>\<open>Simplifications.\<close>  The standard input is one text, the same for every \<open>-\<close> among the file names; the
  accepted extensions are a list, whose order and repetitions in the message about a file name may differ
  from those of the Python set; the width of a line is its length; the multi-line flag in \<open>_GetTextInside\<close>
  is left out, since its patterns have no \<open>^\<close> and no \<open>$\<close>.  No property rests on these.

  \<^bold>\<open>Not modelled.\<close>  The generated gRPC bindings, and \<open>http_server.py\<close>, whose work is done by the standard
  library's server; the debug output of \<open>GetHeaderGuardCPPVariable\<close> (switched off by a constant); the encoding of the
  messages on their way to the terminal; and the C++ code of the agent.
\<close>

end
